(* ===== verification/Prelude.thy ===== *)
theory Prelude
  imports Main "HOL-Library.State_Monad" "HOL-Library.AList" "HOL-Library.Word"
    "HOL-Library.Signed_Division"
begin

section \<open>Shared vocabulary: Go integers, Go maps, a state monad and its weakest preconditions\<close>

text \<open>
  What every component of the development shares: the machine integers of the Go code with the
  truncating division of the language, \<open>map[string]string\<close> values as association lists, and the
  state monad in which the reconciler is written, with a weakest-precondition transformer whose
  equations let a handler be proved along its own control flow.
\<close>

named_theorems wp_simps
  \<open>weakest preconditions of the monadic operations\<close>
named_theorems go_simps
  \<open>equations of the Go language and standard library primitives\<close>

subsection \<open>Machine integers\<close>

type_synonym int32 = "32 word"
type_synonym int64 = "64 word"

text \<open>Go's \<open>/\<close> on \<open>int32\<close> truncates towards zero and wraps; \<open>int64(x)\<close> sign-extends.\<close>

definition div32 :: "int32 \<Rightarrow> int32 \<Rightarrow> int32" where
  "div32 a b = word_of_int (sint a sdiv sint b)"

definition int64_of_int32 :: "int32 \<Rightarrow> int64" where
  "int64_of_int32 a = word_of_int (sint a)"

definition max64 :: "int64 \<Rightarrow> int64 \<Rightarrow> int64" where
  "max64 a b = (if sint a < sint b then b else a)"

lemma sint_int32_range: "- (2 ^ 31) \<le> sint (a :: int32)" "sint (a :: int32) < 2 ^ 31"
  using sint_ge [of a] sint_lt [of a] by simp_all

lemma sint_of_int32: "- (2 ^ 31) \<le> k \<Longrightarrow> k < 2 ^ 31 \<Longrightarrow> sint (word_of_int k :: int32) = k"
  by (simp add: sint_sbintrunc' signed_take_bit_int_eq_self)

lemma sint_of_int64: "- (2 ^ 63) \<le> k \<Longrightarrow> k < 2 ^ 63 \<Longrightarrow> sint (word_of_int k :: int64) = k"
  by (simp add: sint_sbintrunc' signed_take_bit_int_eq_self)

lemma sint_int64_of_int32 [go_simps]: "sint (int64_of_int32 a) = sint a"
  unfolding int64_of_int32_def using sint_int32_range [of a] by (intro sint_of_int64) simp_all

lemma sint_max64 [go_simps]: "sint (max64 a b) = max (sint a) (sint b)"
  by (simp add: max64_def max_def)

lemma sint_div32:
  assumes "0 \<le> sint a" and "0 < sint b"
  shows "sint (div32 a b) = sint a div sint b"
proof -
  have d: "sint a sdiv sint b = sint a div sint b"
    using assms by (cases "sint a = 0") (simp_all add: signed_divide_int_def)
  have "sint a div sint b \<le> sint a div 1"
    using assms by (intro zdiv_mono2) simp_all
  moreover have "0 \<le> sint a div sint b"
    using assms by (simp add: pos_imp_zdiv_nonneg_iff)
  ultimately show ?thesis
    using sint_int32_range [of a] by (simp add: div32_def d sint_of_int32)
qed

subsection \<open>Go maps with string keys\<close>

text \<open>
  A Go map is an association list read through \<open>map_of\<close>; the order of its entries is never
  observable. \<open>m[k] = v\<close> is \<open>AList.update\<close>, \<open>maps.Equal\<close> compares what the maps hold, and a label
  selector's \<open>matchLabels\<close> selects the label sets that agree with it on every one of its keys.
\<close>

type_synonym 'v gomap = "(string \<times> 'v) list"

definition map_set :: "'v gomap \<Rightarrow> string \<Rightarrow> 'v \<Rightarrow> 'v gomap" where
  "map_set m k v = AList.update k v m"

definition maps_Equal :: "'v gomap \<Rightarrow> 'v gomap \<Rightarrow> bool" where
  "maps_Equal m n \<longleftrightarrow> list_all (\<lambda>k. map_of m k = map_of n k) (map fst m @ map fst n)"

definition selects :: "'v gomap \<Rightarrow> 'v gomap \<Rightarrow> bool" where
  "selects sel labels \<longleftrightarrow> list_all (\<lambda>k. map_of labels k = map_of sel k) (map fst sel)"

lemma map_of_map_set [simp]: "map_of (map_set m k v) = (map_of m)(k \<mapsto> v)"
  by (simp add: map_set_def update_conv')

lemma maps_Equal_iff: "maps_Equal m n \<longleftrightarrow> map_of m = map_of n"
proof
  assume eq: "maps_Equal m n"
  show "map_of m = map_of n"
  proof
    fix k
    show "map_of m k = map_of n k"
    proof (cases "k \<in> fst ` set m \<union> fst ` set n")
      case True
      with eq show ?thesis by (auto simp: maps_Equal_def list_all_iff)
    next
      case False
      then show ?thesis by (simp add: map_of_eq_None_iff [THEN iffD2])
    qed
  qed
qed (simp add: maps_Equal_def list_all_iff)

subsection \<open>Weakest preconditions\<close>

text \<open>
  A handler is a \<open>state\<close> computation. \<open>wp m Q s\<close> says that running \<open>m\<close> in \<open>s\<close> ends with a result
  and a state that satisfy \<open>Q\<close>; its equations push a postcondition through a handler one call at
  a time.
\<close>

definition wp :: "('s, 'a) state \<Rightarrow> ('a \<Rightarrow> 's \<Rightarrow> bool) \<Rightarrow> 's \<Rightarrow> bool" where
  "wp m Q s = (case run_state m s of (a, s') \<Rightarrow> Q a s')"

lemma wp_return [wp_simps]: "wp (State_Monad.return a) Q s = Q a s"
  by (simp add: wp_def)

lemma wp_bind [wp_simps]: "wp (State_Monad.bind m f) Q s = wp m (\<lambda>a. wp (f a) Q) s"
  by (simp add: wp_def split: prod.splits)

lemma wp_if [wp_simps]: "wp (if b then m else n) Q s = (if b then wp m Q s else wp n Q s)"
  by simp

lemma wp_State [wp_simps]: "wp (State f) Q s = (case f s of (a, s') \<Rightarrow> Q a s')"
  by (simp add: wp_def)

lemma wp_mono: "wp m P s \<Longrightarrow> (\<And>a t. P a t \<Longrightarrow> Q a t) \<Longrightarrow> wp m Q s"
  by (auto simp: wp_def)

lemma wp_conj: "wp m P s \<Longrightarrow> wp m Q s \<Longrightarrow> wp m (\<lambda>a t. P a t \<and> Q a t) s"
  by (auto simp: wp_def)

lemma wp_run: "run_state m s = (a, t) \<Longrightarrow> wp m Q s \<Longrightarrow> Q a t"
  by (simp add: wp_def)

end
