(* ===== verification/Api_Types.thy ===== *)
theory Api_Types
  imports Prelude
begin

section \<open>The InferenceService API: its types and its admission rules\<close>

text \<open>
  The types of \<open>api/v1alpha1/inferenceservice_types.go\<close> as records with the Go fields' names, and the
  kubebuilder markers of the same file as the checks the API server runs before an object is
  stored: defaulting, the schema's bounds and enumerations, the five CEL rules. \<open>RawSpec\<close> is the spec
  as submitted, where a field may be absent; \<open>decode_spec\<close> is the Go value the operator reads from
  the stored object, where an absent field is the zero value. Embedding \<open>metav1.ObjectMeta\<close> is a
  record extension, so \<open>svc.Name\<close> is \<open>Name svc\<close>. Of the metadata only the fields the operator
  reads are kept. A \<open>resource.Quantity\<close> is known by its canonical text, which is all the
  operator asks of it.
\<close>

subsection \<open>Types\<close>

datatype quantity = Quantity (Quantity_String: string)

type_synonym BackendType = string
type_synonym DataClassification = string

definition ClassificationPublic :: DataClassification where
  "ClassificationPublic = ''Public''"

definition ClassificationInternal :: DataClassification where
  "ClassificationInternal = ''Internal''"

definition ClassificationRestricted :: DataClassification where
  "ClassificationRestricted = ''Restricted''"

definition BackendVLLM :: BackendType where
  "BackendVLLM = ''vLLM''"

definition BackendOllama :: BackendType where
  "BackendOllama = ''Ollama''"

lemmas api_consts = ClassificationPublic_def ClassificationInternal_def ClassificationRestricted_def
  BackendVLLM_def BackendOllama_def

text \<open>\<open>GroupVersion.String()\<close> prints the group and the version with a slash between them.\<close>

record GroupVersion =
  gv_Group :: string
  gv_Version :: string

definition v1alpha1_GroupVersion :: GroupVersion where
  "v1alpha1_GroupVersion = \<lparr>gv_Group = ''serving.platform.io'', gv_Version = ''v1alpha1''\<rparr>"

definition GroupVersion_String :: "GroupVersion \<Rightarrow> string" where
  "GroupVersion_String gv = gv_Group gv @ ''/'' @ gv_Version gv"

record AutoscalingSpec =
  MinReplicas :: int32
  MaxReplicas :: int32
  QueueDepthTarget :: int32
  TTFTP95Milliseconds :: int32
  KVCacheUsagePercent :: int32

record InferenceServiceSpec =
  Model :: string
  Backend :: BackendType
  Classification :: DataClassification
  MaxModelLen :: int32
  GPUMemoryUtilization :: int32
  DeviceClass :: string
  MinDeviceMemory :: "quantity option"
  ModelCacheClaimName :: string
  WeightLoadSeconds :: int32
  Autoscaling :: AutoscalingSpec
  CostPerHourMilliUSD :: int64

datatype ConditionStatus = ConditionTrue | ConditionFalse | ConditionUnknown

record Condition =
  cond_Type :: string
  cond_Status :: ConditionStatus
  cond_ObservedGeneration :: int64
  cond_LastTransitionTime :: int
  cond_Reason :: string
  cond_Message :: string

record InferenceServiceStatus =
  ObservedGeneration :: int64
  ReadyReplicas :: int32
  Endpoint :: string
  Phase :: string
  Conditions :: "Condition list"

record OwnerReference =
  ref_UID :: string
  ref_Controller :: "bool option"

record ObjectMeta =
  Name :: string
  Namespace :: string
  UID :: string
  Generation :: int64
  DeletionTimestamp :: "int option"
  OwnerReferences :: "OwnerReference list"

record InferenceService = ObjectMeta +
  Spec :: InferenceServiceSpec
  Status :: InferenceServiceStatus

type_synonym InferenceServiceList = "InferenceService list"

subsection \<open>The submitted spec, defaulting and decoding\<close>

record RawAutoscaling =
  raw_minReplicas :: "int32 option"
  raw_maxReplicas :: "int32 option"
  raw_queueDepthTarget :: "int32 option"
  raw_ttftP95Milliseconds :: "int32 option"
  raw_kvCacheUsagePercent :: "int32 option"

record RawSpec =
  raw_model :: "string option"
  raw_backend :: "string option"
  raw_classification :: "string option"
  raw_maxModelLen :: "int32 option"
  raw_gpuMemoryUtilization :: "int32 option"
  raw_deviceClass :: "string option"
  raw_minDeviceMemory :: "quantity option"
  raw_modelCacheClaimName :: "string option"
  raw_weightLoadSeconds :: "int32 option"
  raw_autoscaling :: "RawAutoscaling option"
  raw_costPerHourMilliUSD :: "int64 option"

definition or_default :: "'a \<Rightarrow> 'a option \<Rightarrow> 'a option" where
  "or_default d x = Some (case x of None \<Rightarrow> d | Some v \<Rightarrow> v)"

definition default_autoscaling :: "RawAutoscaling \<Rightarrow> RawAutoscaling" where
  "default_autoscaling a = \<lparr>
     raw_minReplicas = or_default 1 (raw_minReplicas a),
     raw_maxReplicas = or_default 4 (raw_maxReplicas a),
     raw_queueDepthTarget = or_default 4 (raw_queueDepthTarget a),
     raw_ttftP95Milliseconds = or_default 2000 (raw_ttftP95Milliseconds a),
     raw_kvCacheUsagePercent = or_default 80 (raw_kvCacheUsagePercent a)\<rparr>"

definition empty_autoscaling :: RawAutoscaling where
  "empty_autoscaling = \<lparr>raw_minReplicas = None, raw_maxReplicas = None, raw_queueDepthTarget = None,
     raw_ttftP95Milliseconds = None, raw_kvCacheUsagePercent = None\<rparr>"

definition default_spec :: "RawSpec \<Rightarrow> RawSpec" where
  "default_spec r = r\<lparr>
     raw_backend := or_default BackendVLLM (raw_backend r),
     raw_classification := or_default ClassificationInternal (raw_classification r),
     raw_maxModelLen := or_default 4096 (raw_maxModelLen r),
     raw_gpuMemoryUtilization := or_default 85 (raw_gpuMemoryUtilization r),
     raw_weightLoadSeconds := or_default 600 (raw_weightLoadSeconds r),
     raw_autoscaling := map_option default_autoscaling
       (or_default empty_autoscaling (raw_autoscaling r)),
     raw_costPerHourMilliUSD := or_default 0 (raw_costPerHourMilliUSD r)\<rparr>"

definition or_zero :: "'a \<Rightarrow> 'a option \<Rightarrow> 'a" where
  "or_zero z x = (case x of None \<Rightarrow> z | Some v \<Rightarrow> v)"

definition decode_autoscaling :: "RawAutoscaling option \<Rightarrow> AutoscalingSpec" where
  "decode_autoscaling x = (let a = or_zero empty_autoscaling x in \<lparr>
     MinReplicas = or_zero 0 (raw_minReplicas a),
     MaxReplicas = or_zero 0 (raw_maxReplicas a),
     QueueDepthTarget = or_zero 0 (raw_queueDepthTarget a),
     TTFTP95Milliseconds = or_zero 0 (raw_ttftP95Milliseconds a),
     KVCacheUsagePercent = or_zero 0 (raw_kvCacheUsagePercent a)\<rparr>)"

definition decode_spec :: "RawSpec \<Rightarrow> InferenceServiceSpec" where
  "decode_spec r = \<lparr>
     Model = or_zero [] (raw_model r),
     Backend = or_zero [] (raw_backend r),
     Classification = or_zero [] (raw_classification r),
     MaxModelLen = or_zero 0 (raw_maxModelLen r),
     GPUMemoryUtilization = or_zero 0 (raw_gpuMemoryUtilization r),
     DeviceClass = or_zero [] (raw_deviceClass r),
     MinDeviceMemory = raw_minDeviceMemory r,
     ModelCacheClaimName = or_zero [] (raw_modelCacheClaimName r),
     WeightLoadSeconds = or_zero 0 (raw_weightLoadSeconds r),
     Autoscaling = decode_autoscaling (raw_autoscaling r),
     CostPerHourMilliUSD = or_zero 0 (raw_costPerHourMilliUSD r)\<rparr>"

subsection \<open>The schema and the CEL rules\<close>

text \<open>
  A bound on an optional field holds when the field is absent. \<open>cel_rules\<close> lists the
  \<open>XValidation\<close> markers in their order, each with its message; comparisons are on the JSON integers.
\<close>

definition if_present :: "('a \<Rightarrow> bool) \<Rightarrow> 'a option \<Rightarrow> bool" where
  "if_present P x = (case x of None \<Rightarrow> True | Some v \<Rightarrow> P v)"

definition schema_autoscaling :: "RawAutoscaling \<Rightarrow> bool" where
  "schema_autoscaling a \<longleftrightarrow>
     if_present (\<lambda>v. 1 \<le> sint v) (raw_minReplicas a) \<and>
     if_present (\<lambda>v. 1 \<le> sint v) (raw_maxReplicas a) \<and>
     if_present (\<lambda>v. 1 \<le> sint v) (raw_queueDepthTarget a) \<and>
     if_present (\<lambda>v. 50 \<le> sint v) (raw_ttftP95Milliseconds a) \<and>
     if_present (\<lambda>v. 10 \<le> sint v \<and> sint v \<le> 100) (raw_kvCacheUsagePercent a)"

definition schema_spec :: "RawSpec \<Rightarrow> bool" where
  "schema_spec r \<longleftrightarrow>
     (case raw_model r of None \<Rightarrow> False | Some m \<Rightarrow> 1 \<le> length m) \<and>
     if_present (\<lambda>b. b \<in> {BackendVLLM, BackendOllama}) (raw_backend r) \<and>
     if_present (\<lambda>c. c \<in> {ClassificationPublic, ClassificationInternal, ClassificationRestricted})
       (raw_classification r) \<and>
     if_present (\<lambda>v. 256 \<le> sint v) (raw_maxModelLen r) \<and>
     if_present (\<lambda>v. 10 \<le> sint v \<and> sint v \<le> 95) (raw_gpuMemoryUtilization r) \<and>
     if_present (\<lambda>v. 10 \<le> sint v) (raw_weightLoadSeconds r) \<and>
     if_present schema_autoscaling (raw_autoscaling r)"

definition has_deviceClass :: "RawSpec \<Rightarrow> bool" where
  "has_deviceClass r = (case raw_deviceClass r of None \<Rightarrow> False | Some d \<Rightarrow> 0 < length d)"

definition max_ge_min :: "RawAutoscaling \<Rightarrow> bool" where
  "max_ge_min a = (case (raw_minReplicas a, raw_maxReplicas a) of
     (Some lo, Some hi) \<Rightarrow> sint lo \<le> sint hi
   | _ \<Rightarrow> False)"

definition cel_rules :: "RawSpec \<Rightarrow> (bool \<times> string) list" where
  "cel_rules r =
    [(raw_classification r \<noteq> Some ClassificationRestricted \<or> has_deviceClass r,
      ''Restricted classification requires an explicit deviceClass''),
     (raw_backend r \<noteq> Some BackendOllama \<or> raw_classification r \<noteq> Some ClassificationRestricted,
      ''Ollama backend is not approved for Restricted data''),
     (raw_backend r \<noteq> Some BackendVLLM \<or> has_deviceClass r,
      ''vLLM backend requires a deviceClass: the vLLM image is built for CUDA and does not serve on CPU''),
     (raw_minDeviceMemory r = None \<or> has_deviceClass r,
      ''minDeviceMemory only applies with a deviceClass''),
     (raw_autoscaling r = None \<or> max_ge_min (the (raw_autoscaling r)),
      ''maxReplicas must be >= minReplicas'')]"

definition cel_violations :: "RawSpec \<Rightarrow> string list" where
  "cel_violations r = map snd (filter (\<lambda>(ok, _). \<not> ok) (cel_rules r))"

text \<open>Admission: default, then check the schema and every rule. The stored spec, or nothing.\<close>

definition admit :: "RawSpec \<Rightarrow> RawSpec option" where
  "admit r = (let d = default_spec r in if schema_spec d \<and> cel_violations d = [] then Some d else None)"

lemma or_default_simps [simp]: "or_default d (Some v) = Some v" "or_default d None = Some d"
  by (simp_all add: or_default_def)

lemma or_zero_simps [simp]: "or_zero z (Some v) = v" "or_zero z None = z"
  by (simp_all add: or_zero_def)

lemma if_present_simps [simp]: "if_present P (Some v) = P v" "if_present P None"
  by (simp_all add: if_present_def)

lemma or_zero_or_default [simp]: "or_zero z (or_default d x) = or_zero d x"
  by (cases x) simp_all

lemma if_present_or_default [simp]: "if_present P (or_default d x) = P (or_zero d x)"
  by (cases x) simp_all

lemma or_default_eq_Some [simp]: "or_default d x = Some v \<longleftrightarrow> or_zero d x = v"
  by (cases x) simp_all

lemma has_deviceClass_iff: "has_deviceClass r \<longleftrightarrow> or_zero [] (raw_deviceClass r) \<noteq> []"
  by (simp add: has_deviceClass_def split: option.split)

lemma decode_default_fields:
  "Backend (decode_spec (default_spec r)) = or_zero BackendVLLM (raw_backend r)"
  "Classification (decode_spec (default_spec r)) = or_zero ClassificationInternal (raw_classification r)"
  "DeviceClass (decode_spec (default_spec r)) = or_zero [] (raw_deviceClass r)"
  "MinDeviceMemory (decode_spec (default_spec r)) = raw_minDeviceMemory r"
  "Model (decode_spec (default_spec r)) = or_zero [] (raw_model r)"
  "MaxModelLen (decode_spec (default_spec r)) = or_zero 4096 (raw_maxModelLen r)"
  "GPUMemoryUtilization (decode_spec (default_spec r)) = or_zero 85 (raw_gpuMemoryUtilization r)"
  "WeightLoadSeconds (decode_spec (default_spec r)) = or_zero 600 (raw_weightLoadSeconds r)"
  by (simp_all add: decode_spec_def default_spec_def)

end
