(* ===== verification/Kube.thy ===== *)
theory Kube
  imports Api_Types
begin

section \<open>The Kubernetes side of the operator: objects, apply configurations, the platform\<close>

text \<open>
  The data the operator exchanges with the API server, as the fields it writes (the apply
  configurations) and the fields it reads (Deployments, pods, unstructured objects), and the
  record \<open>Platform\<close> of everything the operator calls that is not in this repository: the API
  client and the helper functions of apimachinery and controller-runtime. Every definition that
  calls one of them takes the record as its argument \<open>P\<close>; nothing is assumed of its components here.

  An apply configuration is the value its chain of \<open>With...\<close> calls builds; a field never set is
  absent. The only place where the builders' pointers matter, a container's \<open>Resources\<close>, is a
  type parameter \<open>'r\<close>: theory \<open>Deployment\<close> instantiates it with an address while the object is
  built and with the value once it is sent.
\<close>

subsection \<open>Errors\<close>

text \<open>
  What the operator distinguishes of an error: a not-found API error, a no-match error of the REST
  mapper, anything else. \<open>Wrapf\<close> is \<open>fmt.Errorf("...: %w", err)\<close>, which keeps the kind.
\<close>

datatype go_error =
    NotFound string
  | NoMatch string
  | Failure string
  | Wrapf string go_error

fun IsNotFound :: "go_error \<Rightarrow> bool" where
  "IsNotFound (NotFound _) = True"
| "IsNotFound (Wrapf _ e) = IsNotFound e"
| "IsNotFound _ = False"

fun IsNoMatchError :: "go_error \<Rightarrow> bool" where
  "IsNoMatchError (NoMatch _) = True"
| "IsNoMatchError (Wrapf _ e) = IsNoMatchError e"
| "IsNoMatchError _ = False"

definition IgnoreNotFound :: "go_error option \<Rightarrow> go_error option" where
  "IgnoreNotFound e = (case e of Some x \<Rightarrow> if IsNotFound x then None else Some x | None \<Rightarrow> None)"

subsection \<open>Unstructured objects\<close>

datatype json =
    JStr string
  | JInt int64
  | JBool bool
  | JArr "json list"
  | JObj "(string \<times> json) list"

record GroupVersionKind =
  gvk_Group :: string
  gvk_Version :: string
  gvk_Kind :: string

record unstructured =
  u_GVK :: GroupVersionKind
  u_Object :: "json gomap"

fun json_field :: "json \<Rightarrow> string \<Rightarrow> json option" where
  "json_field (JObj m) k = map_of m k"
| "json_field _ _ = None"

fun json_string :: "json option \<Rightarrow> string" where
  \<comment> \<open>\<open>s, _ := v.(string)\<close>: the empty string when the value is absent or not a string\<close>
  "json_string (Some (JStr s)) = s"
| "json_string _ = []"

subsection \<open>Apply configurations\<close>

record OwnerReferenceAC =
  or_APIVersion :: string
  or_Kind :: string
  or_Name :: string
  or_UID :: string
  or_Controller :: bool
  or_BlockOwnerDeletion :: bool

record ObjectMetaAC =
  ac_Name :: string
  ac_Namespace :: string
  ac_Labels :: "string gomap"
  ac_OwnerReferences :: "OwnerReferenceAC list"

record ServicePortAC =
  port_Name :: string
  port_Protocol :: string
  port_Port :: int32
  port_TargetPort :: int32

record ServiceAC = ObjectMetaAC +
  svc_Selector :: "string gomap"
  svc_Ports :: "ServicePortAC list"

datatype AllocationMode = ExactCount | AllDevices

record ExactDeviceRequestAC =
  dr_DeviceClassName :: string
  dr_AllocationMode :: AllocationMode
  dr_Count :: int64
  dr_Selectors :: "string list" \<comment> \<open>the CEL expressions\<close>

record DeviceRequestAC =
  rq_Name :: string
  rq_Exactly :: ExactDeviceRequestAC

record ResourceClaimTemplateAC = ObjectMetaAC +
  rct_Requests :: "DeviceRequestAC list"

datatype VolumeSource =
    EmptyDir (medium: "string option") (sizeLimit: "quantity option")
  | PersistentVolumeClaim (claimName: string)

record VolumeAC =
  vol_Name :: string
  vol_Source :: VolumeSource

record VolumeMountAC =
  vm_Name :: string
  vm_MountPath :: string

record ContainerPortAC =
  cp_Name :: string
  cp_ContainerPort :: int32

record EnvVarAC =
  env_Name :: string
  env_Value :: string

datatype ProbeHandler =
    HTTPGet (hg_Path: string) (hg_Port: int32)
  | Exec (exec_Command: "string list")

record ProbeAC =
  pb_Handler :: ProbeHandler
  pb_PeriodSeconds :: "int32 option"
  pb_TimeoutSeconds :: "int32 option"
  pb_FailureThreshold :: "int32 option"

record ResourceRequirementsAC =
  rr_Requests :: "(string \<times> quantity) list"
  rr_Claims :: "string list"

record 'r ContainerAC =
  ct_Name :: string
  ct_Image :: string
  ct_Command :: "string list"
  ct_Args :: "string list"
  ct_Env :: "EnvVarAC list"
  ct_Ports :: "ContainerPortAC list"
  ct_VolumeMounts :: "VolumeMountAC list"
  ct_Resources :: 'r
  ct_StartupProbe :: ProbeAC
  ct_ReadinessProbe :: ProbeAC
  ct_LivenessProbe :: ProbeAC

record PodResourceClaimAC =
  prc_Name :: string
  prc_ResourceClaimTemplateName :: string

record 'r PodSpecAC =
  ps_Containers :: "'r ContainerAC list"
  ps_Volumes :: "VolumeAC list"
  ps_ResourceClaims :: "PodResourceClaimAC list"

record 'r PodTemplateSpecAC =
  pt_Labels :: "string gomap"
  pt_Annotations :: "string gomap"
  pt_Spec :: "'r PodSpecAC"

record 'r DeploymentSpecAC =
  ds_Replicas :: "int32 option"
  ds_Selector :: "string gomap option"
  ds_Template :: "'r PodTemplateSpecAC option"

record 'r DeploymentAC = ObjectMetaAC +
  dp_Spec :: "'r DeploymentSpecAC"

text \<open>What \<open>client.Apply\<close> is called with.\<close>

datatype apply_config =
    AC_ResourceClaimTemplate ResourceClaimTemplateAC
  | AC_Deployment "ResourceRequirementsAC DeploymentAC"
  | AC_Service ServiceAC
  | AC_Unstructured unstructured

subsection \<open>Objects the operator reads\<close>

record Deployment = ObjectMeta +
  dep_Selector :: "string gomap option"  \<comment> \<open>\<open>Spec.Selector\<close>, nil or its \<open>MatchLabels\<close>\<close>
  dep_ReadyReplicas :: int32

record PodCondition =
  pc_Type :: string
  pc_Status :: ConditionStatus
  pc_Reason :: string
  pc_Message :: string

record ContainerStateWaiting =
  wait_Reason :: string
  wait_Message :: string

record ContainerStateTerminated =
  term_Reason :: string
  term_ExitCode :: int32

record ContainerStatus =
  cs_Name :: string
  cs_Waiting :: "ContainerStateWaiting option"
  cs_LastTerminated :: "ContainerStateTerminated option"
  cs_RestartCount :: int32

record Pod = ObjectMeta +
  pod_Labels :: "string gomap"
  pod_Conditions :: "PodCondition list"
  pod_ContainerStatuses :: "ContainerStatus list"

subsection \<open>The platform\<close>

text \<open>
  \<open>NamespacedName\<close> is a pair of the namespace and the name. \<open>Get_Meta\<close> is \<open>client.Get\<close> into an object of
  which only the metadata is used. The state \<open>'w\<close> is everything outside the operator, its clock
  included.
\<close>

type_synonym NamespacedName = "string \<times> string"

datatype ObjKind = KDeployment | KService | KResourceClaimTemplate | KUnstructured GroupVersionKind

datatype DeletePropagation = DefaultPropagation | PropagationBackground

record 'w Platform =
  Get_InferenceService :: "NamespacedName \<Rightarrow> 'w \<Rightarrow> (go_error + InferenceService) \<times> 'w"
  Get_Deployment :: "NamespacedName \<Rightarrow> 'w \<Rightarrow> (go_error + Deployment) \<times> 'w"
  Get_Unstructured :: "GroupVersionKind \<Rightarrow> NamespacedName \<Rightarrow> 'w \<Rightarrow> (go_error + unstructured) \<times> 'w"
  Get_Meta :: "ObjKind \<Rightarrow> NamespacedName \<Rightarrow> 'w \<Rightarrow> (go_error + ObjectMeta) \<times> 'w"
  List_Pods :: "string \<Rightarrow> string gomap \<Rightarrow> 'w \<Rightarrow> (go_error + Pod list) \<times> 'w"
  Apply_Config :: "apply_config \<Rightarrow> string \<Rightarrow> bool \<Rightarrow> 'w \<Rightarrow> go_error option \<times> 'w"
  Delete_Object :: "ObjKind \<Rightarrow> NamespacedName \<Rightarrow> DeletePropagation \<Rightarrow> 'w \<Rightarrow> go_error option \<times> 'w"
  Update_Status :: "InferenceService \<Rightarrow> 'w \<Rightarrow> go_error option \<times> 'w"
  SetStatusCondition :: "Condition \<Rightarrow> Condition list \<Rightarrow> 'w \<Rightarrow> Condition list \<times> 'w"
  Semantic_DeepEqual :: "InferenceServiceStatus \<Rightarrow> InferenceServiceStatus \<Rightarrow> bool"
  IsControlledBy :: "ObjectMeta \<Rightarrow> ObjectMeta \<Rightarrow> bool"
  NestedSlice :: "json gomap \<Rightarrow> string list \<Rightarrow> json list"

subsection \<open>A reconcile pass\<close>

text \<open>
  The state of one pass: the world, the status of the object in hand (the one thing of it that the
  operator assigns), and the calls made so far with their answers. The list of calls is only
  written, never read, by the operator; the properties about what the operator does to the cluster
  are about it.
\<close>

datatype call =
    CGetInferenceService NamespacedName "go_error + InferenceService"
  | CGetDeployment NamespacedName "go_error + Deployment"
  | CGetUnstructured GroupVersionKind NamespacedName "go_error + unstructured"
  | CGetMeta ObjKind NamespacedName "go_error + ObjectMeta"
  | CListPods string "string gomap" "go_error + Pod list"
  | CApply apply_config string bool "go_error option"
  | CDelete ObjKind NamespacedName DeletePropagation "go_error option"
  | CUpdateStatus InferenceService "go_error option"

record 'w pass =
  world :: 'w
  status :: InferenceServiceStatus
  calls :: "call list"

definition client_call ::
  "('w \<Rightarrow> 'a \<times> 'w) \<Rightarrow> ('a \<Rightarrow> call) \<Rightarrow> ('w pass, 'a) state" where
  "client_call f c = State (\<lambda>s. case f (world s) of (a, w) \<Rightarrow>
     (a, s\<lparr>world := w, calls := calls s @ [c a]\<rparr>))"

definition get_isvc :: "'w Platform \<Rightarrow> NamespacedName \<Rightarrow> ('w pass, go_error + InferenceService) state" where
  "get_isvc P k = client_call (Get_InferenceService P k) (CGetInferenceService k)"

definition get_deployment :: "'w Platform \<Rightarrow> NamespacedName \<Rightarrow> ('w pass, go_error + Deployment) state" where
  "get_deployment P k = client_call (Get_Deployment P k) (CGetDeployment k)"

definition get_unstructured ::
  "'w Platform \<Rightarrow> GroupVersionKind \<Rightarrow> NamespacedName \<Rightarrow> ('w pass, go_error + unstructured) state" where
  "get_unstructured P g k = client_call (Get_Unstructured P g k) (CGetUnstructured g k)"

definition get_meta ::
  "'w Platform \<Rightarrow> ObjKind \<Rightarrow> NamespacedName \<Rightarrow> ('w pass, go_error + ObjectMeta) state" where
  "get_meta P o' k = client_call (Get_Meta P o' k) (CGetMeta o' k)"

definition list_pods ::
  "'w Platform \<Rightarrow> string \<Rightarrow> string gomap \<Rightarrow> ('w pass, go_error + Pod list) state" where
  "list_pods P ns sel = client_call (List_Pods P ns sel) (CListPods ns sel)"

definition apply_config ::
  "'w Platform \<Rightarrow> apply_config \<Rightarrow> string \<Rightarrow> bool \<Rightarrow> ('w pass, go_error option) state" where
  "apply_config P a m force = client_call (Apply_Config P a m force) (CApply a m force)"

definition delete_object ::
  "'w Platform \<Rightarrow> ObjKind \<Rightarrow> NamespacedName \<Rightarrow> DeletePropagation \<Rightarrow> ('w pass, go_error option) state" where
  "delete_object P o' k p = client_call (Delete_Object P o' k p) (CDelete o' k p)"

definition update_status :: "'w Platform \<Rightarrow> InferenceService \<Rightarrow> ('w pass, go_error option) state" where
  "update_status P svc = client_call (Update_Status P svc) (CUpdateStatus svc)"

text \<open>Assignments to fields of \<open>svc.Status\<close>, and \<open>r.condition\<close>'s in-place edit of the conditions.\<close>

definition set_status :: "(InferenceServiceStatus \<Rightarrow> InferenceServiceStatus) \<Rightarrow> ('w pass, unit) state" where
  "set_status f = State (\<lambda>s. ((), s\<lparr>status := f (status s)\<rparr>))"

definition set_status_condition :: "'w Platform \<Rightarrow> Condition \<Rightarrow> ('w pass, unit) state" where
  "set_status_condition P c = State (\<lambda>s.
     case SetStatusCondition P c (Conditions (status s)) (world s) of (cs, w) \<Rightarrow>
       ((), s\<lparr>world := w, status := (status s)\<lparr>Conditions := cs\<rparr>\<rparr>))"

definition get_status :: "('w pass, InferenceServiceStatus) state" where
  "get_status = State (\<lambda>s. (status s, s))"

lemmas client_ops = get_isvc_def get_deployment_def get_unstructured_def get_meta_def list_pods_def
  apply_config_def delete_object_def update_status_def

lemma wp_client_call [wp_simps]:
  "wp (client_call f c) Q s =
    (case f (world s) of (a, w) \<Rightarrow> Q a (s\<lparr>world := w, calls := calls s @ [c a]\<rparr>))"
  by (simp add: client_call_def wp_simps split: prod.splits)

lemma wp_set_status [wp_simps]: "wp (set_status f) Q s = Q () (s\<lparr>status := f (status s)\<rparr>)"
  by (simp add: set_status_def wp_simps)

lemma wp_get_status [wp_simps]: "wp get_status Q s = Q (status s) s"
  by (simp add: get_status_def wp_simps)

lemma wp_set_status_condition [wp_simps]:
  "wp (set_status_condition P c) Q s =
    (case SetStatusCondition P c (Conditions (status s)) (world s) of (cs, w) \<Rightarrow>
       Q () (s\<lparr>world := w, status := (status s)\<lparr>Conditions := cs\<rparr>\<rparr>))"
  by (simp add: set_status_condition_def wp_simps split: prod.splits)

end
