(* ===== verification/Labels.thy ===== *)
theory Labels
  imports Kube
begin

section \<open>Labels, selectors and owner references\<close>

text \<open>
  The labels of \<open>internal/controller/resources.go\<close>. A selector holds only what can never change, the
  object's name; the pods carry the selector's labels and two more. The contract the other
  components rely on is the locale \<open>label_scheme\<close>: a selector picks exactly the pods of its own
  service, and does not move when the spec does.
\<close>

definition selectorLabels :: "InferenceService \<Rightarrow> string gomap" where
  "selectorLabels svc =
    [(''app.kubernetes.io/name'', ''inference-service''),
     (''app.kubernetes.io/instance'', Name svc)]"

definition podLabels :: "InferenceService \<Rightarrow> string gomap" where
  "podLabels svc =
    (let l = selectorLabels svc;
         l = map_set l ''serving.platform.io/backend'' (Backend (Spec svc));
         l = map_set l ''serving.platform.io/dataclass'' (Classification (Spec svc))
     in l)"

definition ownerRef :: "InferenceService \<Rightarrow> OwnerReferenceAC" where
  "ownerRef svc = \<lparr>
     or_APIVersion = GroupVersion_String v1alpha1_GroupVersion,
     or_Kind = ''InferenceService'',
     or_Name = Name svc,
     or_UID = UID svc,
     or_Controller = True,
     or_BlockOwnerDeletion = True\<rparr>"

definition ownerRefMap :: "InferenceService \<Rightarrow> json gomap" where
  "ownerRefMap svc =
    [(''apiVersion'', JStr (GroupVersion_String v1alpha1_GroupVersion)),
     (''kind'', JStr ''InferenceService''),
     (''name'', JStr (Name svc)),
     (''uid'', JStr (UID svc)),
     (''controller'', JBool True),
     (''blockOwnerDeletion'', JBool True)]"

definition toAny :: "string gomap \<Rightarrow> json gomap" where
  "toAny m = map (\<lambda>(k, v). (k, JStr v)) m"

lemma map_of_toAny [simp]: "map_of (toAny m) k = map_option JStr (map_of m k)"
  by (induction m) (auto simp: toAny_def)

subsection \<open>The contract of a label scheme\<close>

locale label_scheme =
  fixes sel lab :: "InferenceService \<Rightarrow> string gomap"
  assumes own_pods: "selects (sel svc) (lab svc)"
    and name_only: "Name a = Name b \<Longrightarrow> sel a = sel b"
    and only_own_pods: "selects (sel a) (lab b) \<Longrightarrow> Name a = Name b"
begin

lemma selects_iff_name: "selects (sel a) (lab b) \<longleftrightarrow> Name a = Name b"
  using own_pods [of b] name_only [of a b] only_own_pods [of a b] by auto

end

lemma map_of_podLabels:
  "map_of (podLabels svc) = (map_of (selectorLabels svc))
     (''serving.platform.io/backend'' \<mapsto> Backend (Spec svc),
      ''serving.platform.io/dataclass'' \<mapsto> Classification (Spec svc))"
  by (simp add: podLabels_def Let_def)

interpretation labels: label_scheme selectorLabels podLabels
  by unfold_locales (simp_all add: selects_def map_of_podLabels selectorLabels_def)

subsection \<open>The two forms of the owner reference\<close>

text \<open>The reader of an unstructured owner reference, to compare it with the typed one.\<close>

definition ownerRef_of_map :: "json gomap \<Rightarrow> OwnerReferenceAC option" where
  "ownerRef_of_map m =
    (case (map_of m ''apiVersion'', map_of m ''kind'', map_of m ''name'', map_of m ''uid'',
           map_of m ''controller'', map_of m ''blockOwnerDeletion'') of
       (Some (JStr v), Some (JStr k), Some (JStr n), Some (JStr u), Some (JBool c), Some (JBool b)) \<Rightarrow>
         Some \<lparr>or_APIVersion = v, or_Kind = k, or_Name = n, or_UID = u, or_Controller = c,
               or_BlockOwnerDeletion = b\<rparr>
     | _ \<Rightarrow> None)"

lemma ownerRefMap_ownerRef: "ownerRef_of_map (ownerRefMap svc) = Some (ownerRef svc)"
  by (simp add: ownerRef_of_map_def ownerRefMap_def ownerRef_def)

end
