(* ===== verification/GoFmt.thy ===== *)
theory GoFmt
  imports Prelude
begin

section \<open>The formatting verbs of package fmt that the operator uses\<close>

text \<open>
  \<open>fmt.Sprint\<close> and \<open>%d\<close> of an integer, \<open>%.2f\<close> of an integral percentage divided by 100, and
  \<open>%q\<close> of a string. Strings are the bytes of the Go string. Each verb is given with the reader
  that undoes it: the metric thresholds and the PromQL and CEL literals the operator writes can be
  read back exactly, and a quoted literal cannot be broken out of.

  \<open>float64(p)/100.0\<close> of an \<open>int32\<close> is within a relative error of \<open>2 ^ -53\<close> of \<open>p/100\<close>, which \<open>%.2f\<close> rounds
  to two decimals, so the printed text is the exact hundredths: that is what \<open>sprintf_2f\<close> prints.
  \<open>%q\<close> escapes the quote, the backslash and the ASCII control characters as
  \<open>strconv.Quote\<close> does; bytes from 128 on are passed through (Kubernetes names, which are what the
  operator quotes, are ASCII).
\<close>

subsection \<open>Decimal integers\<close>

definition digit :: "nat \<Rightarrow> char" where
  "digit d = ''0123456789'' ! d"

definition digit_val :: "char \<Rightarrow> nat" where
  "digit_val c = of_char c - 48"

fun nat_str :: "nat \<Rightarrow> string" where
  "nat_str n = (if n < 10 then [digit n] else nat_str (n div 10) @ [digit (n mod 10)])"

declare nat_str.simps [simp del]

definition int_str :: "int \<Rightarrow> string" where
  "int_str k = (if k < 0 then CHR ''-'' # nat_str (nat (- k)) else nat_str (nat k))"

definition sprint32 :: "int32 \<Rightarrow> string" where
  "sprint32 x = int_str (sint x)"

definition read_nat :: "string \<Rightarrow> nat" where
  "read_nat s = foldl (\<lambda>n c. n * 10 + digit_val c) 0 s"

definition read_int :: "string \<Rightarrow> int" where
  "read_int s = (case s of [] \<Rightarrow> 0
     | c # r \<Rightarrow> if c = CHR ''-'' then - int (read_nat r) else int (read_nat s))"

lemma digit_cases: "d < 10 \<Longrightarrow> digit d \<in> set ''0123456789'' \<and> digit_val (digit d) = d"
proof -
  have "\<forall>d \<in> {0..<10::nat}. digit d \<in> set ''0123456789'' \<and> digit_val (digit d) = d"
    by code_simp
  then show "d < 10 \<Longrightarrow> ?thesis" by simp
qed

lemma read_nat_snoc: "read_nat (s @ [c]) = read_nat s * 10 + digit_val c"
  by (simp add: read_nat_def)

lemma nat_str_read [simp]: "read_nat (nat_str n) = n"
proof (induction n rule: nat_str.induct)
  case (1 n)
  show ?case
  proof (cases "n < 10")
    case True
    then show ?thesis by (subst nat_str.simps) (simp add: read_nat_def digit_cases)
  next
    case False
    with 1 show ?thesis by (subst nat_str.simps) (simp add: read_nat_snoc digit_cases)
  qed
qed

lemma nat_str_digits: "set (nat_str n) \<subseteq> set ''0123456789''"
proof (induction n rule: nat_str.induct)
  case (1 n)
  show ?case
  proof (cases "n < 10")
    case True
    then show ?thesis by (subst nat_str.simps) (use digit_cases in auto)
  next
    case False
    with 1 digit_cases [of "n mod 10"] show ?thesis by (subst nat_str.simps) auto
  qed
qed

lemma nat_str_not_Nil [simp]: "nat_str n \<noteq> []"
  by (subst nat_str.simps) simp

lemma nat_str_Cons: obtains c r where "nat_str n = c # r" "c \<in> set ''0123456789''"
  using nat_str_digits [of n] by (cases "nat_str n") auto

lemma read_int_str [simp]: "read_int (int_str k) = k"
proof (cases "k < 0")
  case True
  then show ?thesis by (simp add: int_str_def read_int_def)
next
  case False
  obtain c r where "nat_str (nat k) = c # r" "c \<in> set ''0123456789''"
    by (rule nat_str_Cons)
  moreover then have "c \<noteq> CHR ''-''" by auto
  ultimately show ?thesis using False nat_str_read [of "nat k"]
    by (simp add: int_str_def read_int_def)
qed

subsection \<open>Hundredths\<close>

definition sprintf_2f :: "int \<Rightarrow> string" where
  "sprintf_2f k =
     (if k < 0 then ''-'' else '''') @ nat_str (nat \<bar>k\<bar> div 100) @ ''.'' @
     [digit (nat \<bar>k\<bar> div 10 mod 10), digit (nat \<bar>k\<bar> mod 10)]"

definition read_2f :: "string \<Rightarrow> int" where
  "read_2f s = (let neg = (s \<noteq> [] \<and> hd s = CHR ''-''); t = (if neg then tl s else s);
      whole = read_nat (takeWhile (\<lambda>c. c \<noteq> CHR ''.'') t);
      frac = read_nat (tl (dropWhile (\<lambda>c. c \<noteq> CHR ''.'') t));
      n = int (whole * 100 + frac) in if neg then - n else n)"

lemma hundredths: "(n :: nat) div 100 * 100 + (n div 10 mod 10 * 10 + n mod 10) = n"
proof -
  have "n div 100 = n div 10 div 10" by (simp add: div_mult2_eq [symmetric])
  then have "n div 100 * 100 + n div 10 mod 10 * 10 = (n div 10 div 10 * 10 + n div 10 mod 10) * 10"
    by (simp only: add_mult_distrib mult.assoc)
  also have "\<dots> = n div 10 * 10" by (simp only: div_mult_mod_eq)
  finally show ?thesis using div_mult_mod_eq [of n 10] by linarith
qed

lemma read_2f_body:
  "takeWhile (\<lambda>c. c \<noteq> CHR ''.'') (nat_str n @ ''.'' @ r) = nat_str n"
  "dropWhile (\<lambda>c. c \<noteq> CHR ''.'') (nat_str n @ ''.'' @ r) = ''.'' @ r"
proof -
  have "\<forall>c \<in> set (nat_str n). c \<noteq> CHR ''.''"
    using nat_str_digits [of n] by auto
  then show "takeWhile (\<lambda>c. c \<noteq> CHR ''.'') (nat_str n @ ''.'' @ r) = nat_str n"
    and "dropWhile (\<lambda>c. c \<noteq> CHR ''.'') (nat_str n @ ''.'' @ r) = ''.'' @ r"
    by (simp_all add: takeWhile_append2 dropWhile_append2)
qed

lemma read_2f_unsigned:
  assumes "d < 10" and "e < 10"
  shows "read_2f (nat_str n @ ''.'' @ [digit d, digit e]) = int (n * 100 + (d * 10 + e))"
    and "read_2f (CHR ''-'' # nat_str n @ ''.'' @ [digit d, digit e]) = - int (n * 100 + (d * 10 + e))"
proof -
  have frac: "read_nat [digit d, digit e] = d * 10 + e"
    using assms by (simp add: read_nat_def digit_cases)
  obtain c r where cr: "nat_str n = c # r" "c \<in> set ''0123456789''"
    by (rule nat_str_Cons)
  then have hd: "hd (nat_str n @ s) \<noteq> CHR ''-''" for s by auto
  note body = read_2f_body [of n "[digit d, digit e]", simplified]
  show "read_2f (nat_str n @ ''.'' @ [digit d, digit e]) = int (n * 100 + (d * 10 + e))"
    unfolding read_2f_def Let_def using hd by (simp add: body frac)
  show "read_2f (CHR ''-'' # nat_str n @ ''.'' @ [digit d, digit e]) = - int (n * 100 + (d * 10 + e))"
    unfolding read_2f_def Let_def by (simp add: body frac)
qed

lemma read_2f_sprintf [simp]: "read_2f (sprintf_2f k) = k"
proof -
  let ?n = "nat \<bar>k\<bar>"
  have d: "?n div 10 mod 10 < 10" "?n mod 10 < 10" by simp_all
  show ?thesis
  proof (cases "k < 0")
    case True
    then have "read_2f (sprintf_2f k) = - int ?n"
      using read_2f_unsigned(2) [OF d, of "?n div 100"]
      by (simp only: sprintf_2f_def if_True append.simps hundredths)
    with True show ?thesis by simp
  next
    case False
    then have "read_2f (sprintf_2f k) = int ?n"
      using read_2f_unsigned(1) [OF d, of "?n div 100"]
      by (simp only: sprintf_2f_def if_False append.simps hundredths)
    with False show ?thesis by simp
  qed
qed

subsection \<open>Quoted strings\<close>

definition hex_digit :: "nat \<Rightarrow> char" where
  "hex_digit d = ''0123456789abcdef'' ! d"

definition hex_val :: "char \<Rightarrow> nat" where
  "hex_val c = (let n = of_char c in if n < 97 then n - 48 else n - 87)"

text \<open>
  The escapes of \<open>strconv.Quote\<close>: \<open>\a \b \f \n \r \t \v\<close> for 7, 8, 12, 10, 13, 9 and 11,
  a backslash before a quote (0x22) and a backslash (0x5C), \<open>\x\<close> and two hexadecimal digits for
  the other control characters.
\<close>

definition quote_char :: "char \<Rightarrow> string" where
  "quote_char c =
    (if c = CHR 0x22 then [CHR 0x5C, CHR 0x22]
     else if c = CHR 0x5C then [CHR 0x5C, CHR 0x5C]
     else if c = CHR 0x07 then [CHR 0x5C, CHR ''a'']
     else if c = CHR 0x08 then [CHR 0x5C, CHR ''b'']
     else if c = CHR 0x0C then [CHR 0x5C, CHR ''f'']
     else if c = CHR 0x0A then [CHR 0x5C, CHR ''n'']
     else if c = CHR 0x0D then [CHR 0x5C, CHR ''r'']
     else if c = CHR 0x09 then [CHR 0x5C, CHR ''t'']
     else if c = CHR 0x0B then [CHR 0x5C, CHR ''v'']
     else let n = of_char c in
       if n < (32 :: nat) \<or> n = 127
       then [CHR 0x5C, CHR ''x'', hex_digit (n div 16), hex_digit (n mod 16)]
       else [c])"

definition sprintf_q :: "string \<Rightarrow> string" where
  "sprintf_q s = [CHR 0x22] @ concat (map quote_char s) @ [CHR 0x22]"

definition unescape :: "char \<Rightarrow> char" where
  "unescape d =
    (if d = CHR ''a'' then CHR 0x07 else if d = CHR ''b'' then CHR 0x08
     else if d = CHR ''f'' then CHR 0x0C else if d = CHR ''n'' then CHR 0x0A
     else if d = CHR ''r'' then CHR 0x0D else if d = CHR ''t'' then CHR 0x09
     else if d = CHR ''v'' then CHR 0x0B else d)"

text \<open>
  The reader of a quoted literal: the string up to the closing quote and what follows it.
\<close>

fun unquote_body :: "string \<Rightarrow> (string \<times> string) option" where
  "unquote_body [] = None"
| "unquote_body (c # r) =
    (if c = CHR 0x22 then Some ([], r)
     else if c = CHR 0x5C then
       (case r of
          d # r' \<Rightarrow>
            if d = CHR ''x'' then
              (case r' of
                 h # l # r'' \<Rightarrow>
                   map_option (apfst (Cons (char_of (hex_val h * 16 + hex_val l)))) (unquote_body r'')
               | _ \<Rightarrow> None)
            else map_option (apfst (Cons (unescape d))) (unquote_body r')
        | [] \<Rightarrow> None)
     else map_option (apfst (Cons c)) (unquote_body r))"

definition unquote :: "string \<Rightarrow> (string \<times> string) option" where
  "unquote s = (case s of c # r \<Rightarrow> if c = CHR 0x22 then unquote_body r else None | [] \<Rightarrow> None)"

lemma hex_val_digit: "d < 16 \<Longrightarrow> hex_val (hex_digit d) = d"
proof -
  have "\<forall>d \<in> {0..<16::nat}. hex_val (hex_digit d) = d"
    by code_simp
  then show "d < 16 \<Longrightarrow> ?thesis" by simp
qed

lemma quote_char_hex:
  assumes "(of_char c :: nat) < 256"
  shows "char_of (hex_val (hex_digit (of_char c div 16)) * 16 + hex_val (hex_digit (of_char c mod 16))) = c"
proof -
  have "(of_char c :: nat) div 16 < 16" using assms by (simp add: less_mult_imp_div_less)
  then have "hex_val (hex_digit (of_char c div 16)) * 16 + hex_val (hex_digit (of_char c mod 16))
      = (of_char c :: nat)"
    by (simp add: hex_val_digit)
  then show ?thesis by simp
qed

lemma quote_char_shapes:
  obtains (plain) "quote_char c = [c]" "c \<noteq> CHR 0x22" "c \<noteq> CHR 0x5C"
  | (escape) d where "quote_char c = [CHR 0x5C, d]" "d \<noteq> CHR ''x''" "unescape d = c"
  | (hex) h l where "quote_char c = [CHR 0x5C, CHR ''x'', h, l]"
      "char_of (hex_val h * 16 + hex_val l) = c"
proof (cases "c \<in> {CHR 0x22, CHR 0x5C, CHR 0x07, CHR 0x08, CHR 0x0C, CHR 0x0A, CHR 0x0D, CHR 0x09, CHR 0x0B}")
  case True
  then have "quote_char c = [CHR 0x5C, quote_char c ! 1] \<and> quote_char c ! 1 \<noteq> CHR ''x'' \<and>
      unescape (quote_char c ! 1) = c"
    by (auto simp: quote_char_def unescape_def)
  then show ?thesis using escape by blast
next
  case False
  define n :: nat where "n = of_char c"
  show ?thesis
  proof (cases "n < 32 \<or> n = 127")
    case True
    with False have "quote_char c = [CHR 0x5C, CHR ''x'', hex_digit (n div 16), hex_digit (n mod 16)]"
      by (simp add: quote_char_def n_def Let_def)
    moreover have "char_of (hex_val (hex_digit (n div 16)) * 16 + hex_val (hex_digit (n mod 16))) = c"
      unfolding n_def by (rule quote_char_hex) simp
    ultimately show ?thesis by (rule hex)
  next
    case plain_code: False
    from False plain_code have "quote_char c = [c]"
      by (simp add: quote_char_def n_def Let_def)
    with False show ?thesis using plain by simp
  qed
qed

lemma unquote_body_char:
  "unquote_body (quote_char c @ r) = map_option (apfst (Cons c)) (unquote_body r)"
  by (cases rule: quote_char_shapes [of c]) simp_all

lemma unquote_body_concat:
  "unquote_body (concat (map quote_char s) @ CHR 0x22 # r) = Some (s, r)"
  by (induction s) (simp_all add: unquote_body_char)

lemma unquote_sprintf_q [simp]: "unquote (sprintf_q s @ r) = Some (s, r)"
  by (simp add: unquote_def sprintf_q_def unquote_body_concat)

text \<open>Two literals that are a prefix of the same text are the same literal.\<close>

lemma sprintf_q_append_inj: "sprintf_q a @ x = sprintf_q b @ y \<longleftrightarrow> a = b \<and> x = y"
proof
  assume "sprintf_q a @ x = sprintf_q b @ y"
  then have "unquote (sprintf_q a @ x) = unquote (sprintf_q b @ y)" by simp
  then show "a = b \<and> x = y" by simp
qed simp

end
