(* ===== verification/Deployment.thy ===== *)
theory Deployment
  imports Labels GoFmt
begin

section \<open>The serving Deployment\<close>

text \<open>
  \<open>internal/controller/deployment.go\<close>. The builders share one structure through a pointer: a
  container's \<open>Resources\<close>. \<open>WithContainers\<close> copies the container into the pod by value, so what is
  done to the local container afterwards reaches the pod only through that pointer, and the GPU claim
  is added after the copy. The build therefore runs over a heap of resource requirements, where
  \<open>WithClaims\<close> appends in place, and \<open>desiredDeployment\<close> is the built object with its pointers
  followed, which is what is sent.
\<close>

definition servingPort :: int32 where
  "servingPort = 8000"

definition vllmImage :: string where
  "vllmImage = ''vllm/vllm-openai:v0.31.0''"

definition ollamaImage :: string where
  "ollamaImage = ''ollama/ollama:0.35.1''"

definition startupPeriod :: int32 where
  "startupPeriod = 10"

definition startupFailureThreshold :: "InferenceService \<Rightarrow> int32" where
  "startupFailureThreshold svc = div32 (WeightLoadSeconds (Spec svc)) startupPeriod + 1"

definition claimTemplateName :: "InferenceService \<Rightarrow> string" where
  "claimTemplateName svc = Name svc @ ''-gpu''"

lemma startupPeriod_10: "sint startupPeriod = 10"
  by (simp add: startupPeriod_def)

lemma sint_startupFailureThreshold:
  assumes "0 \<le> sint (WeightLoadSeconds (Spec svc))"
  shows "sint (startupFailureThreshold svc) = sint (WeightLoadSeconds (Spec svc)) div 10 + 1"
proof -
  let ?w = "WeightLoadSeconds (Spec svc)"
  let ?d = "div32 ?w startupPeriod"
  have d: "sint ?d = sint ?w div 10"
    using sint_div32 [OF assms, of startupPeriod] by (simp add: startupPeriod_10)
  have "sint ?d + 1 < 2 ^ 31" "- (2 ^ 31) \<le> sint ?d + 1"
    using assms sint_int32_range(2) [of ?w] by (auto simp: d)
  then have "sint (word_of_int (sint ?d + 1) :: int32) = sint ?d + 1"
    by (intro sint_of_int32)
  moreover have "word_of_int (sint ?d + 1) = ?d + 1" by simp
  ultimately show ?thesis
    unfolding startupFailureThreshold_def by (simp only: d)
qed

subsection \<open>The heap of resource requirements\<close>

type_synonym rr_heap = "ResourceRequirementsAC list"

definition new_resources :: "ResourceRequirementsAC \<Rightarrow> (rr_heap, nat) state" where
  "new_resources r = State (\<lambda>h. (length h, h @ [r]))"

definition WithClaims :: "nat \<Rightarrow> string list \<Rightarrow> (rr_heap, nat) state" where
  "WithClaims p cs = State (\<lambda>h. (p, h[p := (h ! p)\<lparr>rr_Claims := rr_Claims (h ! p) @ cs\<rparr>]))"

definition baseResources :: "(rr_heap, nat) state" where
  "baseResources = new_resources \<lparr>
     rr_Requests = [(''cpu'', Quantity ''500m''), (''memory'', Quantity ''2Gi'')],
     rr_Claims = []\<rparr>"

subsection \<open>Probes, volumes and containers\<close>

definition httpProbe :: "string \<Rightarrow> ProbeAC" where
  "httpProbe path = \<lparr>pb_Handler = HTTPGet path servingPort,
     pb_PeriodSeconds = None, pb_TimeoutSeconds = None, pb_FailureThreshold = None\<rparr>"

definition modelCacheVolume :: "InferenceService \<Rightarrow> VolumeAC" where
  "modelCacheVolume svc =
    (if ModelCacheClaimName (Spec svc) \<noteq> '''' then
       \<lparr>vol_Name = ''model-cache'', vol_Source = PersistentVolumeClaim (ModelCacheClaimName (Spec svc))\<rparr>
     else \<lparr>vol_Name = ''model-cache'', vol_Source = EmptyDir None None\<rparr>)"

definition vllmContainer :: "InferenceService \<Rightarrow> (rr_heap, nat ContainerAC) state" where
  "vllmContainer svc = do {
     res \<leftarrow> baseResources;
     State_Monad.return \<lparr>
       ct_Name = ''vllm'',
       ct_Image = vllmImage,
       ct_Command = [],
       ct_Args = [
         Model (Spec svc),
         ''--served-model-name'', Name svc,
         ''--max-model-len'', sprint32 (MaxModelLen (Spec svc)),
         ''--gpu-memory-utilization'', sprintf_2f (sint (GPUMemoryUtilization (Spec svc))),
         ''--port'', sprint32 servingPort,
         ''--max-num-seqs'', ''16''],
       ct_Env = [],
       ct_Ports = [\<lparr>cp_Name = ''http'', cp_ContainerPort = servingPort\<rparr>],
       ct_VolumeMounts = [
         \<lparr>vm_Name = ''model-cache'', vm_MountPath = ''/root/.cache/huggingface''\<rparr>,
         \<lparr>vm_Name = ''dshm'', vm_MountPath = ''/dev/shm''\<rparr>],
       ct_Resources = res,
       ct_StartupProbe = (httpProbe ''/health'')\<lparr>pb_PeriodSeconds := Some startupPeriod,
         pb_FailureThreshold := Some (startupFailureThreshold svc)\<rparr>,
       ct_ReadinessProbe = (httpProbe ''/health'')\<lparr>pb_PeriodSeconds := Some 5, pb_FailureThreshold := Some 3\<rparr>,
       ct_LivenessProbe = (httpProbe ''/health'')\<lparr>pb_PeriodSeconds := Some 20, pb_FailureThreshold := Some 3\<rparr>
     \<rparr>
   }"

definition newline :: string where
  "newline = [CHR 0x0A]"

definition ollamaServe :: string where
  \<open>ollamaServe =
     ''/bin/ollama serve & pid=$!'' @ newline @
     ''trap 'kill -TERM "$pid"' TERM INT'' @ newline @
     ''until /bin/ollama list >/dev/null 2>&1; do sleep 1; done'' @ newline @
     ''/bin/ollama pull "$MODEL" || { kill -TERM "$pid"; exit 1; }'' @ newline @
     ''wait "$pid"''\<close>

definition ollamaContainer :: "InferenceService \<Rightarrow> (rr_heap, nat ContainerAC) state" where
  "ollamaContainer svc = do {
     res \<leftarrow> baseResources;
     State_Monad.return \<lparr>
       ct_Name = ''ollama'',
       ct_Image = ollamaImage,
       ct_Command = [''/bin/sh'', ''-c'', ollamaServe],
       ct_Args = [],
       ct_Env = [
         \<lparr>env_Name = ''MODEL'', env_Value = Model (Spec svc)\<rparr>,
         \<lparr>env_Name = ''OLLAMA_HOST'', env_Value = ''0.0.0.0:'' @ sprint32 servingPort\<rparr>,
         \<lparr>env_Name = ''OLLAMA_MODELS'', env_Value = ''/models''\<rparr>,
         \<lparr>env_Name = ''OLLAMA_KEEP_ALIVE'', env_Value = ''24h''\<rparr>],
       ct_Ports = [\<lparr>cp_Name = ''http'', cp_ContainerPort = servingPort\<rparr>],
       ct_VolumeMounts = [\<lparr>vm_Name = ''model-cache'', vm_MountPath = ''/models''\<rparr>],
       ct_Resources = res,
       ct_StartupProbe = \<lparr>pb_Handler = Exec [''/bin/ollama'', ''show'', Model (Spec svc)],
         pb_PeriodSeconds = Some startupPeriod, pb_TimeoutSeconds = Some 5,
         pb_FailureThreshold = Some (startupFailureThreshold svc)\<rparr>,
       ct_ReadinessProbe = (httpProbe ''/'')\<lparr>pb_PeriodSeconds := Some 5, pb_FailureThreshold := Some 3\<rparr>,
       ct_LivenessProbe = (httpProbe ''/'')\<lparr>pb_PeriodSeconds := Some 20, pb_FailureThreshold := Some 3\<rparr>
     \<rparr>
   }"

subsection \<open>Assembling the Deployment\<close>

definition dshmVolume :: VolumeAC where
  "dshmVolume = \<lparr>vol_Name = ''dshm'', vol_Source = EmptyDir (Some ''Memory'') (Some (Quantity ''1Gi''))\<rparr>"

definition build_deployment :: "InferenceService \<Rightarrow> (rr_heap, nat DeploymentAC) state" where
  "build_deployment svc = do {
     container \<leftarrow> (if Backend (Spec svc) = BackendOllama then ollamaContainer svc else vllmContainer svc);
     let pod = \<lparr>ps_Containers = [container], ps_Volumes = [modelCacheVolume svc], ps_ResourceClaims = []\<rparr>;
     let pod = (if Backend (Spec svc) \<noteq> BackendOllama
       then pod\<lparr>ps_Volumes := ps_Volumes pod @ [dshmVolume]\<rparr> else pod);
     (pod, container) \<leftarrow> (if DeviceClass (Spec svc) \<noteq> '''' then do {
         let pod = pod\<lparr>ps_ResourceClaims := ps_ResourceClaims pod @
           [\<lparr>prc_Name = ''gpu'', prc_ResourceClaimTemplateName = claimTemplateName svc\<rparr>]\<rparr>;
         p \<leftarrow> WithClaims (ct_Resources container) [''gpu''];
         State_Monad.return (pod, container\<lparr>ct_Resources := p\<rparr>)
       } else State_Monad.return (pod, container));
     State_Monad.return \<lparr>
       ac_Name = Name svc,
       ac_Namespace = Namespace svc,
       ac_Labels = podLabels svc,
       ac_OwnerReferences = [ownerRef svc],
       dp_Spec = \<lparr>
         ds_Replicas = None,
         ds_Selector = Some (selectorLabels svc),
         ds_Template = Some \<lparr>
           pt_Labels = podLabels svc,
           pt_Annotations = [
             (''prometheus.io/scrape'', ''true''),
             (''prometheus.io/port'', sprint32 servingPort),
             (''prometheus.io/path'', ''/metrics'')],
           pt_Spec = pod\<rparr>\<rparr>\<rparr>
   }"

text \<open>Following the pointers of the built object.\<close>

definition deref_container :: "rr_heap \<Rightarrow> nat ContainerAC \<Rightarrow> ResourceRequirementsAC ContainerAC" where
  "deref_container h c = \<lparr>
     ct_Name = ct_Name c, ct_Image = ct_Image c, ct_Command = ct_Command c, ct_Args = ct_Args c,
     ct_Env = ct_Env c, ct_Ports = ct_Ports c, ct_VolumeMounts = ct_VolumeMounts c,
     ct_Resources = h ! ct_Resources c, ct_StartupProbe = ct_StartupProbe c,
     ct_ReadinessProbe = ct_ReadinessProbe c, ct_LivenessProbe = ct_LivenessProbe c\<rparr>"

definition deref_pod :: "rr_heap \<Rightarrow> nat PodSpecAC \<Rightarrow> ResourceRequirementsAC PodSpecAC" where
  "deref_pod h p = \<lparr>
     ps_Containers = map (deref_container h) (ps_Containers p),
     ps_Volumes = ps_Volumes p,
     ps_ResourceClaims = ps_ResourceClaims p\<rparr>"

definition deref_template :: "rr_heap \<Rightarrow> nat PodTemplateSpecAC \<Rightarrow> ResourceRequirementsAC PodTemplateSpecAC" where
  "deref_template h t = \<lparr>
     pt_Labels = pt_Labels t, pt_Annotations = pt_Annotations t, pt_Spec = deref_pod h (pt_Spec t)\<rparr>"

definition deref_deployment :: "rr_heap \<Rightarrow> nat DeploymentAC \<Rightarrow> ResourceRequirementsAC DeploymentAC" where
  "deref_deployment h d = \<lparr>
     ac_Name = ac_Name d, ac_Namespace = ac_Namespace d, ac_Labels = ac_Labels d,
     ac_OwnerReferences = ac_OwnerReferences d,
     dp_Spec = \<lparr>
       ds_Replicas = ds_Replicas (dp_Spec d),
       ds_Selector = ds_Selector (dp_Spec d),
       ds_Template = map_option (deref_template h) (ds_Template (dp_Spec d))\<rparr>\<rparr>"

definition desiredDeployment :: "InferenceService \<Rightarrow> ResourceRequirementsAC DeploymentAC" where
  "desiredDeployment svc = (case run_state (build_deployment svc) [] of (d, h) \<Rightarrow> deref_deployment h d)"

subsection \<open>The contract of a serving container\<close>

text \<open>
  What the assembly relies on, whichever backend built the container: its resources are a fresh
  cell of the heap, it serves HTTP on the serving port, it mounts the model cache, and its three
  probes have their own jobs. \<open>extra\<close> are the volumes it mounts besides the model cache.
\<close>

definition base_requirements :: ResourceRequirementsAC where
  "base_requirements = \<lparr>
     rr_Requests = [(''cpu'', Quantity ''500m''), (''memory'', Quantity ''2Gi'')], rr_Claims = []\<rparr>"

definition http_probe_ok :: "ProbeAC \<Rightarrow> bool" where
  "http_probe_ok p \<longleftrightarrow> (case pb_Handler p of HTTPGet _ port \<Rightarrow> port = servingPort | Exec _ \<Rightarrow> False)"

locale serving_container =
  fixes mk :: "InferenceService \<Rightarrow> (rr_heap, nat ContainerAC) state"
    and extra :: "InferenceService \<Rightarrow> string list"
  assumes resources: "run_state (mk svc) h = (c, h') \<Longrightarrow> h' = h @ [base_requirements] \<and> ct_Resources c = length h"
    and port: "run_state (mk svc) h = (c, h') \<Longrightarrow> map cp_ContainerPort (ct_Ports c) = [servingPort]"
    and mounts: "run_state (mk svc) h = (c, h') \<Longrightarrow> map vm_Name (ct_VolumeMounts c) = ''model-cache'' # extra svc"
    and startup: "run_state (mk svc) h = (c, h') \<Longrightarrow>
      pb_PeriodSeconds (ct_StartupProbe c) = Some startupPeriod \<and>
      pb_FailureThreshold (ct_StartupProbe c) = Some (startupFailureThreshold svc)"
    and readiness: "run_state (mk svc) h = (c, h') \<Longrightarrow> http_probe_ok (ct_ReadinessProbe c)"
    and liveness: "run_state (mk svc) h = (c, h') \<Longrightarrow> http_probe_ok (ct_LivenessProbe c)"
begin

lemma deployed_container:
  assumes "run_state (mk svc) h = (c, h')"
  shows "map vm_Name (ct_VolumeMounts (deref_container g c)) = ''model-cache'' # extra svc"
    "map cp_ContainerPort (ct_Ports (deref_container g c)) = [servingPort]"
    "http_probe_ok (ct_ReadinessProbe (deref_container g c))"
    "http_probe_ok (ct_LivenessProbe (deref_container g c))"
    "pb_PeriodSeconds (ct_StartupProbe (deref_container g c)) = Some startupPeriod"
    "pb_FailureThreshold (ct_StartupProbe (deref_container g c)) = Some (startupFailureThreshold svc)"
    "ct_Resources (deref_container g c) = g ! length h"
  using mounts [OF assms] port [OF assms] readiness [OF assms] liveness [OF assms]
    startup [OF assms] resources [OF assms]
  by (simp_all add: deref_container_def)

end

lemma run_baseResources: "run_state baseResources h = (length h, h @ [base_requirements])"
  by (simp add: baseResources_def new_resources_def base_requirements_def)

lemma http_probe_ok_httpProbe [simp]:
  "http_probe_ok ((httpProbe path)\<lparr>pb_PeriodSeconds := a, pb_FailureThreshold := b\<rparr>)"
  by (simp add: http_probe_ok_def httpProbe_def)

interpretation vllm: serving_container vllmContainer "\<lambda>_. [''dshm'']"
  by unfold_locales (auto simp: vllmContainer_def run_baseResources)

interpretation ollama: serving_container ollamaContainer "\<lambda>_. []"
  by unfold_locales (auto simp: ollamaContainer_def run_baseResources)

text \<open>The container the switch of \<open>desiredDeployment\<close> picks meets the contract as well.\<close>

definition container_of :: "InferenceService \<Rightarrow> (rr_heap, nat ContainerAC) state" where
  "container_of svc = (if Backend (Spec svc) = BackendOllama then ollamaContainer svc else vllmContainer svc)"

definition extra_volumes :: "InferenceService \<Rightarrow> string list" where
  "extra_volumes svc = (if Backend (Spec svc) = BackendOllama then [] else [''dshm''])"

interpretation picked: serving_container container_of extra_volumes
proof unfold_locales
  fix svc h c h'
  assume run: "run_state (container_of svc) h = (c, h')"
  show "h' = h @ [base_requirements] \<and> ct_Resources c = length h"
    using run vllm.resources ollama.resources by (auto simp: container_of_def split: if_splits)
  show "map cp_ContainerPort (ct_Ports c) = [servingPort]"
    using run vllm.port ollama.port by (auto simp: container_of_def split: if_splits)
  show "map vm_Name (ct_VolumeMounts c) = ''model-cache'' # extra_volumes svc"
    using run vllm.mounts ollama.mounts
    by (auto simp: container_of_def extra_volumes_def split: if_splits)
  show "pb_PeriodSeconds (ct_StartupProbe c) = Some startupPeriod \<and>
      pb_FailureThreshold (ct_StartupProbe c) = Some (startupFailureThreshold svc)"
    using run vllm.startup ollama.startup by (auto simp: container_of_def split: if_splits)
  show "http_probe_ok (ct_ReadinessProbe c)"
    using run vllm.readiness ollama.readiness by (auto simp: container_of_def split: if_splits)
  show "http_probe_ok (ct_LivenessProbe c)"
    using run vllm.liveness ollama.liveness by (auto simp: container_of_def split: if_splits)
qed

subsection \<open>What is sent\<close>

definition claims_gpu :: "InferenceService \<Rightarrow> bool" where
  "claims_gpu svc \<longleftrightarrow> DeviceClass (Spec svc) \<noteq> ''''"

text \<open>The Deployment's pod, and the container it was built from.\<close>

definition pod_of :: "'r DeploymentAC \<Rightarrow> 'r PodSpecAC" where
  "pod_of d = pt_Spec (the (ds_Template (dp_Spec d)))"

definition built_container :: "InferenceService \<Rightarrow> nat ContainerAC" where
  "built_container svc = fst (run_state (container_of svc) [])"

lemma run_container_of: "run_state (container_of svc) [] = (built_container svc, [base_requirements])"
  using picked.resources [of svc "[]" "built_container svc" "snd (run_state (container_of svc) [])"]
  by (simp add: built_container_def prod_eq_iff)

lemma built_container_pointer [simp]: "ct_Resources (built_container svc) = 0"
  using picked.resources [OF run_container_of] by simp

definition sent_requirements :: "InferenceService \<Rightarrow> ResourceRequirementsAC" where
  "sent_requirements svc = base_requirements\<lparr>rr_Claims := if claims_gpu svc then [''gpu''] else []\<rparr>"

lemma run_build_deployment:
  "run_state (build_deployment svc) [] =
    (\<lparr>ac_Name = Name svc, ac_Namespace = Namespace svc, ac_Labels = podLabels svc,
      ac_OwnerReferences = [ownerRef svc],
      dp_Spec = \<lparr>ds_Replicas = None, ds_Selector = Some (selectorLabels svc),
        ds_Template = Some \<lparr>pt_Labels = podLabels svc,
          pt_Annotations = [(''prometheus.io/scrape'', ''true''),
             (''prometheus.io/port'', sprint32 servingPort), (''prometheus.io/path'', ''/metrics'')],
          pt_Spec = \<lparr>ps_Containers = [built_container svc],
            ps_Volumes = modelCacheVolume svc #
              (if Backend (Spec svc) = BackendOllama then [] else [dshmVolume]),
            ps_ResourceClaims = (if claims_gpu svc
              then [\<lparr>prc_Name = ''gpu'', prc_ResourceClaimTemplateName = claimTemplateName svc\<rparr>]
              else [])\<rparr>\<rparr>\<rparr>\<rparr>, [sent_requirements svc])"
  using run_container_of [of svc]
  by (auto simp: build_deployment_def container_of_def [symmetric] claims_gpu_def Let_def
      WithClaims_def sent_requirements_def base_requirements_def)

lemma desiredDeployment_eq:
  "desiredDeployment svc = \<lparr>
     ac_Name = Name svc, ac_Namespace = Namespace svc, ac_Labels = podLabels svc,
     ac_OwnerReferences = [ownerRef svc],
     dp_Spec = \<lparr>ds_Replicas = None, ds_Selector = Some (selectorLabels svc),
       ds_Template = Some \<lparr>pt_Labels = podLabels svc,
         pt_Annotations = [(''prometheus.io/scrape'', ''true''),
             (''prometheus.io/port'', sprint32 servingPort), (''prometheus.io/path'', ''/metrics'')],
         pt_Spec = \<lparr>ps_Containers = [deref_container [sent_requirements svc] (built_container svc)],
           ps_Volumes = modelCacheVolume svc #
             (if Backend (Spec svc) = BackendOllama then [] else [dshmVolume]),
           ps_ResourceClaims = (if claims_gpu svc
             then [\<lparr>prc_Name = ''gpu'', prc_ResourceClaimTemplateName = claimTemplateName svc\<rparr>]
             else [])\<rparr>\<rparr>\<rparr>\<rparr>"
  by (simp add: desiredDeployment_def run_build_deployment deref_deployment_def deref_template_def
      deref_pod_def)

lemma pod_of_desired:
  "pod_of (desiredDeployment svc) = \<lparr>
     ps_Containers = [deref_container [sent_requirements svc] (built_container svc)],
     ps_Volumes = modelCacheVolume svc # (if Backend (Spec svc) = BackendOllama then [] else [dshmVolume]),
     ps_ResourceClaims = (if claims_gpu svc
       then [\<lparr>prc_Name = ''gpu'', prc_ResourceClaimTemplateName = claimTemplateName svc\<rparr>] else [])\<rparr>"
  by (simp add: pod_of_def desiredDeployment_eq)

lemma ac_Namespace_desired [simp]: "ac_Namespace (desiredDeployment svc) = Namespace svc"
  by (simp add: desiredDeployment_eq)

lemma vol_Name_modelCache [simp]: "vol_Name (modelCacheVolume svc) = ''model-cache''"
  by (simp add: modelCacheVolume_def)

end
