(* ===== verification/Resources.thy ===== *)
theory Resources
  imports Deployment
begin

section \<open>The other owned objects: Service, claim template, ScaledObject, InferencePool\<close>

text \<open>
  The builders of \<open>internal/controller/resources.go\<close>. The two add-on objects are unstructured data,
  built as JSON values. The contract every builder meets, \<open>owned_object\<close>, is what lets the
  reconciler find, own and garbage-collect the objects: the key, the controller reference and the
  labels.
\<close>

definition scaledObjectGVK :: GroupVersionKind where
  "scaledObjectGVK = \<lparr>gvk_Group = ''keda.sh'', gvk_Version = ''v1alpha1'', gvk_Kind = ''ScaledObject''\<rparr>"

definition inferencePoolGVK :: GroupVersionKind where
  "inferencePoolGVK =
    \<lparr>gvk_Group = ''inference.networking.k8s.io'', gvk_Version = ''v1'', gvk_Kind = ''InferencePool''\<rparr>"

definition desiredService :: "InferenceService \<Rightarrow> ServiceAC" where
  "desiredService svc = \<lparr>
     ac_Name = Name svc, ac_Namespace = Namespace svc,
     ac_Labels = podLabels svc,
     ac_OwnerReferences = [ownerRef svc],
     svc_Selector = selectorLabels svc,
     svc_Ports = [\<lparr>port_Name = ''http'', port_Protocol = ''TCP'', port_Port = servingPort,
       port_TargetPort = servingPort\<rparr>]\<rparr>"

definition nvidiaDriverDomain :: string where
  "nvidiaDriverDomain = ''gpu.nvidia.com''"

definition memory_selector :: "quantity \<Rightarrow> string" where
  "memory_selector m = ''device.capacity['' @ sprintf_q nvidiaDriverDomain @
     ''].memory.compareTo(quantity('' @ sprintf_q (Quantity_String m) @ '')) >= 0''"

definition desiredClaimTemplate :: "InferenceService \<Rightarrow> ResourceClaimTemplateAC" where
  "desiredClaimTemplate svc =
    (let req = \<lparr>dr_DeviceClassName = DeviceClass (Spec svc), dr_AllocationMode = ExactCount,
                dr_Count = 1, dr_Selectors = []\<rparr>;
         req = (case MinDeviceMemory (Spec svc) of
                  None \<Rightarrow> req
                | Some m \<Rightarrow> req\<lparr>dr_Selectors := dr_Selectors req @ [memory_selector m]\<rparr>)
     in \<lparr>ac_Name = claimTemplateName svc, ac_Namespace = Namespace svc,
         ac_Labels = podLabels svc,
         ac_OwnerReferences = [ownerRef svc],
         rct_Requests = [\<lparr>rq_Name = ''gpu'', rq_Exactly = req\<rparr>]\<rparr>)"

subsection \<open>The ScaledObject\<close>

definition metric_selector :: "InferenceService \<Rightarrow> string" where
  "metric_selector svc =
     ''namespace='' @ sprintf_q (Namespace svc) @ '',model_name='' @ sprintf_q (Name svc)"

definition settle_seconds :: "InferenceService \<Rightarrow> int64" where
  "settle_seconds svc = max64 300 (int64_of_int32 (WeightLoadSeconds (Spec svc)))"

definition prom_trigger :: "string \<Rightarrow> string \<Rightarrow> string \<Rightarrow> string \<Rightarrow> json" where
  "prom_trigger prometheusAddress query threshold metricType =
    (let t = [(''type'', JStr ''prometheus''),
              (''metadata'', JObj [
                 (''serverAddress'', JStr prometheusAddress),
                 (''query'', JStr query),
                 (''threshold'', JStr threshold)])]
     in JObj (if metricType \<noteq> '''' then map_set t ''metricType'' (JStr metricType) else t))"

definition queue_query :: "InferenceService \<Rightarrow> string" where
  "queue_query svc = ''sum(vllm:num_requests_waiting{'' @ metric_selector svc @ ''})''"

definition cache_query :: "InferenceService \<Rightarrow> string" where
  "cache_query svc = ''sum(vllm:kv_cache_usage_perc{'' @ metric_selector svc @ ''})''"

definition ttft_query :: "InferenceService \<Rightarrow> string" where
  "ttft_query svc =
     ''histogram_quantile(0.95, sum(rate(vllm:time_to_first_token_seconds_bucket{'' @
     metric_selector svc @ ''}[2m])) by (le)) * 1000''"

definition triggers :: "InferenceService \<Rightarrow> string \<Rightarrow> json list" where
  "triggers svc prometheusAddress =
    (let a = Autoscaling (Spec svc) in
     [prom_trigger prometheusAddress (queue_query svc) (sprint32 (QueueDepthTarget a)) '''',
      prom_trigger prometheusAddress (cache_query svc) (sprintf_2f (sint (KVCacheUsagePercent a))) '''',
      prom_trigger prometheusAddress (ttft_query svc) (sprint32 (TTFTP95Milliseconds a)) ''Value''])"

definition object_metadata :: "InferenceService \<Rightarrow> json" where
  "object_metadata svc = JObj [
     (''name'', JStr (Name svc)),
     (''namespace'', JStr (Namespace svc)),
     (''labels'', JObj (toAny (podLabels svc))),
     (''ownerReferences'', JArr [JObj (ownerRefMap svc)])]"

definition scaling_policy :: "int64 \<Rightarrow> int64 \<Rightarrow> json" where
  "scaling_policy window period = JObj [
     (''stabilizationWindowSeconds'', JInt window),
     (''policies'', JArr [JObj [
        (''type'', JStr ''Pods''), (''value'', JInt 1), (''periodSeconds'', JInt period)]])]"

definition desiredScaledObject :: "InferenceService \<Rightarrow> string \<Rightarrow> unstructured" where
  "desiredScaledObject svc prometheusAddress =
    (let a = Autoscaling (Spec svc); settle = settle_seconds svc in
     \<lparr>u_GVK = scaledObjectGVK,
      u_Object = [
        (''metadata'', object_metadata svc),
        (''spec'', JObj [
          (''scaleTargetRef'', JObj [(''name'', JStr (Name svc))]),
          (''minReplicaCount'', JInt (int64_of_int32 (MinReplicas a))),
          (''maxReplicaCount'', JInt (int64_of_int32 (MaxReplicas a))),
          (''advanced'', JObj [(''horizontalPodAutoscalerConfig'', JObj [(''behavior'', JObj [
             (''scaleUp'', scaling_policy 0 60),
             (''scaleDown'', scaling_policy settle settle)])])]),
          (''triggers'', JArr (triggers svc prometheusAddress))])]\<rparr>)"

definition desiredInferencePool :: "InferenceService \<Rightarrow> unstructured" where
  "desiredInferencePool svc =
     \<lparr>u_GVK = inferencePoolGVK,
      u_Object = [
        (''metadata'', object_metadata svc),
        (''spec'', JObj [
          (''selector'', JObj [(''matchLabels'', JObj (toAny (selectorLabels svc)))]),
          (''targetPorts'', JArr [JObj [(''number'', JInt (int64_of_int32 servingPort))]])])]\<rparr>"

subsection \<open>The contract of an owned object\<close>

fun json_path :: "json \<Rightarrow> string list \<Rightarrow> json option" where
  "json_path j [] = Some j"
| "json_path j (k # ks) = (case json_field j k of None \<Rightarrow> None | Some v \<Rightarrow> json_path v ks)"

text \<open>
  The key under which the API server stores an applied object, and the controller references and
  labels it carries, read from the typed or the unstructured form.
\<close>

type_synonym object_key = "ObjKind \<times> NamespacedName"

fun ac_key :: "apply_config \<Rightarrow> object_key" where
  "ac_key (AC_ResourceClaimTemplate c) = (KResourceClaimTemplate, ac_Namespace c, ac_Name c)"
| "ac_key (AC_Deployment d) = (KDeployment, ac_Namespace d, ac_Name d)"
| "ac_key (AC_Service s) = (KService, ac_Namespace s, ac_Name s)"
| "ac_key (AC_Unstructured u) =
    (KUnstructured (u_GVK u), json_string (json_path (JObj (u_Object u)) [''metadata'', ''namespace'']),
     json_string (json_path (JObj (u_Object u)) [''metadata'', ''name'']))"

fun json_owner :: "json \<Rightarrow> OwnerReferenceAC list" where
  "json_owner (JObj m) = (case ownerRef_of_map m of None \<Rightarrow> [] | Some r \<Rightarrow> [r])"
| "json_owner _ = []"

fun ac_owners :: "apply_config \<Rightarrow> OwnerReferenceAC list" where
  "ac_owners (AC_ResourceClaimTemplate c) = ac_OwnerReferences c"
| "ac_owners (AC_Deployment d) = ac_OwnerReferences d"
| "ac_owners (AC_Service s) = ac_OwnerReferences s"
| "ac_owners (AC_Unstructured u) =
    (case json_path (JObj (u_Object u)) [''metadata'', ''ownerReferences''] of
       Some (JArr rs) \<Rightarrow> concat (map json_owner rs)
     | _ \<Rightarrow> [])"

fun ac_label :: "apply_config \<Rightarrow> string \<Rightarrow> string option" where
  "ac_label (AC_ResourceClaimTemplate c) k = map_of (ac_Labels c) k"
| "ac_label (AC_Deployment d) k = map_of (ac_Labels d) k"
| "ac_label (AC_Service s) k = map_of (ac_Labels s) k"
| "ac_label (AC_Unstructured u) k =
    (case json_path (JObj (u_Object u)) [''metadata'', ''labels''] of
       Some (JObj m) \<Rightarrow> (case map_of m k of Some (JStr v) \<Rightarrow> Some v | _ \<Rightarrow> None)
     | _ \<Rightarrow> None)"

locale owned_object =
  fixes build :: "InferenceService \<Rightarrow> apply_config"
    and kind :: ObjKind
    and nm :: "InferenceService \<Rightarrow> string"
  assumes key: "ac_key (build svc) = (kind, Namespace svc, nm svc)"
    and owner: "ac_owners (build svc) = [ownerRef svc]"
    and label: "ac_label (build svc) k = map_of (podLabels svc) k"
    and nm_inj: "nm a = nm b \<longleftrightarrow> Name a = Name b"
begin

text \<open>What garbage collection and \<open>deleteIfOwned\<close> need to find the object.\<close>

lemma owned: "ac_owners (build svc) = [ownerRef svc] \<and> fst (snd (ac_key (build svc))) = Namespace svc \<and>
    ac_label (build svc) k = map_of (podLabels svc) k"
  by (simp add: key owner label)

end

lemma map_of_toAny_label:
  "(case map_of (toAny m) k of Some (JStr v) \<Rightarrow> Some v | _ \<Rightarrow> None) = map_of m k"
  by (cases "map_of m k") simp_all

lemmas metadata_simps = object_metadata_def ownerRefMap_ownerRef map_of_toAny_label

interpretation template: owned_object
  "\<lambda>svc. AC_ResourceClaimTemplate (desiredClaimTemplate svc)" KResourceClaimTemplate claimTemplateName
  by unfold_locales (simp_all add: desiredClaimTemplate_def claimTemplateName_def Let_def)

interpretation deployment: owned_object "\<lambda>svc. AC_Deployment (desiredDeployment svc)" KDeployment Name
  by unfold_locales (simp_all add: desiredDeployment_eq)

interpretation service: owned_object "\<lambda>svc. AC_Service (desiredService svc)" KService Name
  by unfold_locales (simp_all add: desiredService_def)

interpretation scaler: owned_object "\<lambda>svc. AC_Unstructured (desiredScaledObject svc addr)"
    "KUnstructured scaledObjectGVK" Name
  by unfold_locales (simp_all add: desiredScaledObject_def Let_def metadata_simps split: option.split)

interpretation pool: owned_object "\<lambda>svc. AC_Unstructured (desiredInferencePool svc)"
    "KUnstructured inferencePoolGVK" Name
  by unfold_locales (simp_all add: desiredInferencePool_def metadata_simps split: option.split)

subsection \<open>The scale-down window and the queries\<close>

lemma sint_settle: "sint (settle_seconds svc) = max 300 (sint (WeightLoadSeconds (Spec svc)))"
  by (simp add: settle_seconds_def go_simps)

lemma metric_selector_append_inj:
  "metric_selector a @ x = metric_selector b @ y \<longleftrightarrow> Namespace a = Namespace b \<and> Name a = Name b \<and> x = y"
  by (simp add: metric_selector_def sprintf_q_append_inj)

lemma metric_selector_inj:
  "metric_selector a = metric_selector b \<longleftrightarrow> Namespace a = Namespace b \<and> Name a = Name b"
  using metric_selector_append_inj [of a "[]" b "[]"] by simp

lemma queries_inj:
  "queue_query a = queue_query b \<longleftrightarrow> Namespace a = Namespace b \<and> Name a = Name b"
  "cache_query a = cache_query b \<longleftrightarrow> Namespace a = Namespace b \<and> Name a = Name b"
  "ttft_query a = ttft_query b \<longleftrightarrow> Namespace a = Namespace b \<and> Name a = Name b"
  by (simp_all add: queue_query_def cache_query_def ttft_query_def metric_selector_append_inj metric_selector_inj)

text \<open>A trigger as KEDA reads it: its query, its threshold, its server, its metric type.\<close>

definition trigger_query :: "json \<Rightarrow> string" where
  "trigger_query t = json_string (json_path t [''metadata'', ''query''])"

definition trigger_threshold :: "json \<Rightarrow> string" where
  "trigger_threshold t = json_string (json_path t [''metadata'', ''threshold''])"

definition trigger_address :: "json \<Rightarrow> string" where
  "trigger_address t = json_string (json_path t [''metadata'', ''serverAddress''])"

definition trigger_metric_type :: "json \<Rightarrow> string option" where
  "trigger_metric_type t = map_option (\<lambda>j. json_string (Some j)) (json_path t [''metricType''])"

lemma prom_trigger_simps [simp]:
  "trigger_query (prom_trigger addr q th mt) = q"
  "trigger_threshold (prom_trigger addr q th mt) = th"
  "trigger_address (prom_trigger addr q th mt) = addr"
  "trigger_metric_type (prom_trigger addr q th mt) = (if mt = [] then None else Some mt)"
  by (simp_all add: trigger_query_def trigger_threshold_def trigger_address_def trigger_metric_type_def prom_trigger_def
      Let_def)

lemma triggers_address: "t \<in> set (triggers svc addr) \<Longrightarrow> trigger_address t = addr"
  by (auto simp: triggers_def Let_def)

definition scaled_spec :: "InferenceService \<Rightarrow> string \<Rightarrow> string list \<Rightarrow> json option" where
  "scaled_spec svc addr path = json_path (JObj (u_Object (desiredScaledObject svc addr))) (''spec'' # path)"

lemma scaled_spec_simps [simp]:
  "scaled_spec svc addr [''triggers''] = Some (JArr (triggers svc addr))"
  "scaled_spec svc addr [''minReplicaCount''] = Some (JInt (int64_of_int32 (MinReplicas (Autoscaling (Spec svc)))))"
  "scaled_spec svc addr [''maxReplicaCount''] = Some (JInt (int64_of_int32 (MaxReplicas (Autoscaling (Spec svc)))))"
  "scaled_spec svc addr [''scaleTargetRef'', ''name''] = Some (JStr (Name svc))"
  "scaled_spec svc addr
     [''advanced'', ''horizontalPodAutoscalerConfig'', ''behavior'', ''scaleDown''] =
     Some (scaling_policy (settle_seconds svc) (settle_seconds svc))"
  "scaled_spec svc addr
     [''advanced'', ''horizontalPodAutoscalerConfig'', ''behavior'', ''scaleUp''] =
     Some (scaling_policy 0 60)"
  by (simp_all add: scaled_spec_def desiredScaledObject_def Let_def)

text \<open>The bound the Kubernetes autoscaler puts on a scaling policy's \<open>periodSeconds\<close> and window.\<close>

definition hpa_policy_valid :: "json \<Rightarrow> bool" where
  "hpa_policy_valid p =
    (case (json_path p [''stabilizationWindowSeconds''], json_path p [''policies'']) of
       (Some (JInt w), Some (JArr ps)) \<Rightarrow> 0 \<le> sint w \<and> sint w \<le> 3600 \<and>
         list_all (\<lambda>q. case json_path q [''periodSeconds''] of
           Some (JInt s) \<Rightarrow> 0 < sint s \<and> sint s \<le> 1800 | _ \<Rightarrow> False) ps
     | _ \<Rightarrow> False)"

lemma hpa_policy_valid_scaling:
  "hpa_policy_valid (scaling_policy w p) \<longleftrightarrow> 0 \<le> sint w \<and> sint w \<le> 3600 \<and> 0 < sint p \<and> sint p \<le> 1800"
  by (auto simp: hpa_policy_valid_def scaling_policy_def)

end
