(* ===== verification/Verdicts.thy ===== *)
theory Verdicts
  imports Resources
begin

section \<open>The operator's judgements: policy, pods, KEDA\<close>

text \<open>
  The functions of \<open>internal/controller/inferenceservice_controller.go\<close> that decide something without
  changing the cluster: \<open>policyViolation\<close> repeats the admission rules, \<open>podTrouble\<close> tells a pod that
  will not start from one that is loading, \<open>scaledObjectReady\<close> reads KEDA's verdict. The loops with
  early returns are recursions; each is related to a search over the flattened list.
\<close>

definition CondAdmitted :: string where
  "CondAdmitted = ''Admitted''"

definition CondReady :: string where
  "CondReady = ''Ready''"

definition CondAutoscaling :: string where
  "CondAutoscaling = ''Autoscaling''"

definition CondRouting :: string where
  "CondRouting = ''Routing''"

lemmas cond_types = CondAdmitted_def CondReady_def CondAutoscaling_def CondRouting_def

subsection \<open>The placement policy\<close>

definition policyViolation :: "InferenceService \<Rightarrow> string" where
  "policyViolation svc = (let s = Spec svc in
     if Classification s = ClassificationRestricted \<and> DeviceClass s = '''' then
       ''Restricted classification requires an explicit deviceClass''
     else if Backend s = BackendOllama \<and> Classification s = ClassificationRestricted then
       ''Ollama backend is not approved for Restricted data''
     else if Backend s \<noteq> BackendOllama \<and> DeviceClass s = '''' then
       ''vLLM backend requires a deviceClass: the vLLM image is built for CUDA and does not serve on CPU''
     else '''')"

definition condition ::
  "'w Platform \<Rightarrow> InferenceService \<Rightarrow> string \<Rightarrow> ConditionStatus \<Rightarrow> string \<Rightarrow> string \<Rightarrow> ('w pass, unit) state" where
  "condition P svc t s reason msg = set_status_condition P
     \<lparr>cond_Type = t, cond_Status = s, cond_ObservedGeneration = Generation svc,
      cond_LastTransitionTime = 0, cond_Reason = reason, cond_Message = msg\<rparr>"

lemma policy_accepts_iff:
  "policyViolation svc = '''' \<longleftrightarrow>
    (Classification (Spec svc) = ClassificationRestricted \<longrightarrow> DeviceClass (Spec svc) \<noteq> '''') \<and>
    (Backend (Spec svc) = BackendOllama \<longrightarrow> Classification (Spec svc) \<noteq> ClassificationRestricted) \<and>
    (Backend (Spec svc) \<noteq> BackendOllama \<longrightarrow> DeviceClass (Spec svc) \<noteq> '''')"
  by (auto simp: policyViolation_def Let_def)

subsection \<open>Pods that will not start\<close>

definition failingReasons :: "string list" where
  "failingReasons = [''CrashLoopBackOff'', ''ImagePullBackOff'', ''ErrImagePull'', ''InvalidImageName'',
     ''CreateContainerConfigError'', ''CreateContainerError'', ''RunContainerError'']"

fun scan_conditions :: "PodCondition list \<Rightarrow> string option" where
  "scan_conditions [] = None"
| "scan_conditions (c # cs) =
    (if pc_Type c = ''PodScheduled'' \<and> pc_Status c = ConditionFalse \<and> pc_Reason c = ''Unschedulable''
     then Some (pc_Message c) else scan_conditions cs)"

fun scan_unschedulable :: "Pod list \<Rightarrow> string option" where
  "scan_unschedulable [] = None"
| "scan_unschedulable (p # ps) =
    (case scan_conditions (pod_Conditions p) of
       Some m \<Rightarrow> Some m
     | None \<Rightarrow> scan_unschedulable ps)"

definition failing_message :: "ContainerStatus \<Rightarrow> ContainerStateWaiting \<Rightarrow> string" where
  "failing_message cs w =
    (let m = ''container '' @ cs_Name cs @ '': '' @ wait_Reason w;
         m = (if wait_Message w \<noteq> '''' then m @ '': '' @ wait_Message w else m);
         m = (case cs_LastTerminated cs of
                Some t \<Rightarrow> m @ '' (last exit: '' @ term_Reason t @ '', code '' @ sprint32 (term_ExitCode t) @
                  '', '' @ sprint32 (cs_RestartCount cs) @ '' restarts)''
              | None \<Rightarrow> m)
     in m)"

fun scan_statuses :: "ContainerStatus list \<Rightarrow> (string \<times> string) option" where
  "scan_statuses [] = None"
| "scan_statuses (cs # css) =
    (case cs_Waiting cs of
       None \<Rightarrow> scan_statuses css
     | Some w \<Rightarrow> if wait_Reason w \<notin> set failingReasons then scan_statuses css
                 else Some (wait_Reason w, failing_message cs w))"

fun scan_failing :: "Pod list \<Rightarrow> (string \<times> string) option" where
  "scan_failing [] = None"
| "scan_failing (p # ps) =
    (case scan_statuses (pod_ContainerStatuses p) of
       Some r \<Rightarrow> Some r
     | None \<Rightarrow> scan_failing ps)"

definition pods_verdict :: "Pod list \<Rightarrow> string \<times> string \<times> string" where
  "pods_verdict pods =
    (case scan_unschedulable pods of
       Some m \<Rightarrow> (''Unschedulable'', ''Unschedulable'', m)
     | None \<Rightarrow>
        (case scan_failing pods of
           Some (reason, m) \<Rightarrow> (''Failing'', reason, m)
         | None \<Rightarrow> ('''', '''', '''')))"

definition podTrouble ::
  "'w Platform \<Rightarrow> InferenceService \<Rightarrow> ('w pass, go_error + string \<times> string \<times> string) state" where
  "podTrouble P svc = do {
     r \<leftarrow> list_pods P (Namespace svc) (selectorLabels svc);
     State_Monad.return (case r of
       Inl e \<Rightarrow> Inl (Wrapf ''list pods'' e)
     | Inr pods \<Rightarrow> Inr (pods_verdict pods))
   }"

text \<open>The two searches over the flattened lists.\<close>

definition unschedulable_condition :: "PodCondition \<Rightarrow> bool" where
  "unschedulable_condition c \<longleftrightarrow>
     pc_Type c = ''PodScheduled'' \<and> pc_Status c = ConditionFalse \<and> pc_Reason c = ''Unschedulable''"

definition failing_status :: "ContainerStatus \<Rightarrow> bool" where
  "failing_status cs \<longleftrightarrow> (case cs_Waiting cs of None \<Rightarrow> False | Some w \<Rightarrow> wait_Reason w \<in> set failingReasons)"

lemma scan_conditions_find: "scan_conditions cs = map_option pc_Message (find unschedulable_condition cs)"
  by (induction cs) (simp_all add: unschedulable_condition_def)

lemma find_append: "find P (xs @ ys) = (case find P xs of None \<Rightarrow> find P ys | Some x \<Rightarrow> Some x)"
  by (induction xs) simp_all

lemma scan_unschedulable_find:
  "scan_unschedulable ps = map_option pc_Message (find unschedulable_condition (concat (map pod_Conditions ps)))"
  by (induction ps) (simp_all add: scan_conditions_find find_append split: option.split)

definition failing_report :: "ContainerStatus \<Rightarrow> string \<times> string" where
  "failing_report cs = (case cs_Waiting cs of None \<Rightarrow> ('''', '''') | Some w \<Rightarrow> (wait_Reason w, failing_message cs w))"

lemma scan_statuses_find: "scan_statuses cs = map_option failing_report (find failing_status cs)"
  by (induction cs) (simp_all add: failing_status_def failing_report_def split: option.split)

lemma scan_failing_find:
  "scan_failing ps = map_option failing_report (find failing_status (concat (map pod_ContainerStatuses ps)))"
  by (induction ps) (simp_all add: scan_statuses_find find_append split: option.split)

subsection \<open>KEDA's verdict\<close>

fun scan_ready :: "json list \<Rightarrow> ConditionStatus \<times> string \<times> string" where
  "scan_ready [] = (ConditionUnknown, '''', '''')"
| "scan_ready (c # cs) =
    (case c of
       JObj m \<Rightarrow>
         if map_of m ''type'' \<noteq> Some (JStr ''Ready'') then scan_ready cs
         else
           let reason = json_string (map_of m ''reason''); message = json_string (map_of m ''message'') in
           if map_of m ''status'' = Some (JStr ''True'') then (ConditionTrue, reason, message)
           else if map_of m ''status'' = Some (JStr ''False'') then (ConditionFalse, reason, message)
           else scan_ready cs
     | _ \<Rightarrow> scan_ready cs)"

definition scaledObjectReady :: "'w Platform \<Rightarrow> unstructured \<Rightarrow> ConditionStatus \<times> string \<times> string" where
  "scaledObjectReady P so = scan_ready (NestedSlice P (u_Object so) [''status'', ''conditions''])"

text \<open>The conditions that settle the verdict, and the verdict as a search for the first of them.\<close>

fun decided :: "json \<Rightarrow> bool" where
  "decided (JObj m) \<longleftrightarrow> map_of m ''type'' = Some (JStr ''Ready'') \<and>
     map_of m ''status'' \<in> {Some (JStr ''True''), Some (JStr ''False'')}"
| "decided _ \<longleftrightarrow> False"

definition keda_report :: "json \<Rightarrow> ConditionStatus \<times> string \<times> string" where
  "keda_report c = (if json_field c ''status'' = Some (JStr ''True'') then ConditionTrue else ConditionFalse,
     json_string (json_field c ''reason''), json_string (json_field c ''message''))"

lemma scan_ready_find:
  "scan_ready cs = (case find decided cs of None \<Rightarrow> (ConditionUnknown, '''', '''') | Some c \<Rightarrow> keda_report c)"
proof (induction cs)
  case (Cons c cs)
  then show ?case by (cases c) (auto simp: keda_report_def Let_def)
qed simp

end
