(* ===== verification/Reconcile.thy ===== *)
theory Reconcile
  imports Verdicts
begin

section \<open>The reconcile loop\<close>

text \<open>
  The handlers of \<open>internal/controller/inferenceservice_controller.go\<close>, each a computation over the
  state of one pass. An error result is a \<open>go_error option\<close> as Go's \<open>error\<close>; a handler that returns
  early does so in the same place here. \<open>svc\<close> is the object as read at the start of the pass: the
  operator reads its metadata and spec and writes only its status, which is the \<open>status\<close> field of
  the pass. Durations are in seconds, and a requeue delay of zero is no requeue.
\<close>

definition FieldOwner :: string where
  "FieldOwner = ''inference-operator''"

definition initialReplicasOwner :: string where
  "initialReplicasOwner = ''inference-operator-initial-replicas''"

definition driftRequeue :: int where
  "driftRequeue = 5 * 60"

definition notReadyRequeue :: int where
  "notReadyRequeue = 30"

datatype Result = Result (RequeueAfter: int)

definition svc_key :: "InferenceService \<Rightarrow> NamespacedName" where
  "svc_key svc = (Namespace svc, Name svc)"

definition svc_meta :: "InferenceService \<Rightarrow> ObjectMeta" where
  "svc_meta svc = ObjectMeta.truncate svc"

subsection \<open>Removing what is no longer wanted\<close>

definition deleteIfOwned ::
  "'w Platform \<Rightarrow> InferenceService \<Rightarrow> ObjKind \<Rightarrow> string \<Rightarrow> ('w pass, go_error option) state" where
  "deleteIfOwned P svc kind name = do {
     r \<leftarrow> get_meta P kind (Namespace svc, name);
     case r of
       Inl err \<Rightarrow> State_Monad.return (if IsNotFound err \<or> IsNoMatchError err then None else Some err)
     | Inr obj \<Rightarrow>
         if \<not> IsControlledBy P obj (svc_meta svc) then State_Monad.return None
         else do {
           e \<leftarrow> delete_object P kind (Namespace obj, Name obj) DefaultPropagation;
           State_Monad.return (IgnoreNotFound e)
         }
   }"

definition deleteUnstructuredIfOwned ::
  "'w Platform \<Rightarrow> InferenceService \<Rightarrow> GroupVersionKind \<Rightarrow> ('w pass, go_error option) state" where
  "deleteUnstructuredIfOwned P svc gvk = deleteIfOwned P svc (KUnstructured gvk) (Name svc)"

subsection \<open>The Deployment\<close>

definition initialReplicas :: "InferenceService \<Rightarrow> ResourceRequirementsAC DeploymentAC" where
  "initialReplicas svc = \<lparr>
     ac_Name = Name svc, ac_Namespace = Namespace svc, ac_Labels = [], ac_OwnerReferences = [],
     dp_Spec = \<lparr>ds_Replicas = Some (MinReplicas (Autoscaling (Spec svc))),
                ds_Selector = None, ds_Template = None\<rparr>\<rparr>"

definition createDeployment :: "'w Platform \<Rightarrow> InferenceService \<Rightarrow> ('w pass, go_error option) state" where
  "createDeployment P svc = do {
     e \<leftarrow> apply_config P (AC_Deployment (desiredDeployment svc)) FieldOwner True;
     case e of
       Some err \<Rightarrow> State_Monad.return (Some (Wrapf ''create deployment'' err))
     | None \<Rightarrow> do {
         e \<leftarrow> apply_config P (AC_Deployment (initialReplicas svc)) initialReplicasOwner False;
         case e of
           Some err \<Rightarrow> State_Monad.return (Some (Wrapf ''set initial replicas'' err))
         | None \<Rightarrow> State_Monad.return None
       }
   }"

text \<open>The tail of \<open>reconcileDeployment\<close>, which the switch's fall-through cases reach.\<close>

definition applyDeployment ::
  "'w Platform \<Rightarrow> InferenceService \<Rightarrow> ('w pass, Deployment option \<times> bool \<times> go_error option) state" where
  "applyDeployment P svc = do {
     e \<leftarrow> apply_config P (AC_Deployment (desiredDeployment svc)) FieldOwner True;
     case e of
       Some err \<Rightarrow> State_Monad.return (None, False, Some (Wrapf ''apply deployment'' err))
     | None \<Rightarrow> do {
         r \<leftarrow> get_deployment P (svc_key svc);
         State_Monad.return (case r of
           Inl err \<Rightarrow> (None, False, Some err)
         | Inr current \<Rightarrow> (Some current, False, None))
       }
   }"

definition outdated_selector :: "InferenceService \<Rightarrow> Deployment \<Rightarrow> bool" where
  "outdated_selector svc current \<longleftrightarrow>
     (case dep_Selector current of None \<Rightarrow> True | Some m \<Rightarrow> \<not> maps_Equal m (selectorLabels svc))"

definition reconcileDeployment ::
  "'w Platform \<Rightarrow> InferenceService \<Rightarrow> ('w pass, Deployment option \<times> bool \<times> go_error option) state" where
  "reconcileDeployment P svc = do {
     r \<leftarrow> get_deployment P (svc_key svc);
     case r of
       Inl err \<Rightarrow>
         if IsNotFound err then do {
           e \<leftarrow> createDeployment P svc;
           case e of
             Some err \<Rightarrow> State_Monad.return (None, False, Some err)
           | None \<Rightarrow> applyDeployment P svc
         }
         else State_Monad.return (None, False, Some err)
     | Inr current \<Rightarrow>
         if DeletionTimestamp current \<noteq> None then State_Monad.return (None, True, None)
         else if outdated_selector svc current then do {
           condition P svc CondReady ConditionFalse ''RecreatingDeployment''
             ''deployment selector changed; the deployment is being recreated'';
           e \<leftarrow> delete_object P KDeployment (Namespace current, Name current) PropagationBackground;
           State_Monad.return (None, True, IgnoreNotFound e)
         }
         else applyDeployment P svc
   }"

subsection \<open>The add-ons\<close>

definition reconcileAutoscaling ::
  "'w Platform \<Rightarrow> string \<Rightarrow> InferenceService \<Rightarrow> ('w pass, go_error option) state" where
  "reconcileAutoscaling P addr svc =
    (if Backend (Spec svc) = BackendOllama then do {
       condition P svc CondAutoscaling ConditionFalse ''BackendNotSupported''
         ''Ollama exports no queue metrics; replicas stay at minReplicas'';
       deleteUnstructuredIfOwned P svc scaledObjectGVK
     }
     else do {
       e \<leftarrow> apply_config P (AC_Unstructured (desiredScaledObject svc addr)) FieldOwner True;
       case e of
         Some err \<Rightarrow>
           if IsNoMatchError err then do {
             condition P svc CondAutoscaling ConditionFalse ''KEDANotInstalled''
               ''the keda.sh ScaledObject CRD is not installed; replicas stay at minReplicas'';
             State_Monad.return None
           }
           else State_Monad.return (Some (Wrapf ''apply scaledobject'' err))
       | None \<Rightarrow> do {
           r \<leftarrow> get_unstructured P scaledObjectGVK (svc_key svc);
           case r of
             Inl err \<Rightarrow> State_Monad.return (Some (Wrapf ''read scaledobject'' err))
           | Inr so \<Rightarrow> do {
               (case scaledObjectReady P so of (st, reason, message) \<Rightarrow>
                  (case st of
                     ConditionTrue \<Rightarrow> condition P svc CondAutoscaling ConditionTrue ''ScalerReady''
                       ''KEDA scales on queue depth, KV cache usage and p95 TTFT''
                   | ConditionFalse \<Rightarrow> condition P svc CondAutoscaling ConditionFalse ''ScalerNotReady''
                       (''KEDA reports '' @ reason @ '': '' @ message)
                   | ConditionUnknown \<Rightarrow> condition P svc CondAutoscaling ConditionUnknown ''WaitingForKEDA''
                       ''ScaledObject applied; KEDA has not reported on it yet''));
               State_Monad.return None
             }
         }
     })"

definition reconcileRouting :: "'w Platform \<Rightarrow> InferenceService \<Rightarrow> ('w pass, go_error option) state" where
  "reconcileRouting P svc = do {
     e \<leftarrow> apply_config P (AC_Unstructured (desiredInferencePool svc)) FieldOwner True;
     case e of
       Some err \<Rightarrow>
         if IsNoMatchError err then do {
           condition P svc CondRouting ConditionFalse ''InferencePoolNotInstalled''
             ''the InferencePool CRD is not installed; the Service is the only entry point'';
           State_Monad.return None
         }
         else State_Monad.return (Some (Wrapf ''apply inferencepool'' err))
     | None \<Rightarrow> do {
         condition P svc CondRouting ConditionTrue ''InferencePoolApplied''
           ''pods are registered in an InferencePool'';
         State_Monad.return None
       }
   }"

subsection \<open>One pass\<close>

definition endpoint :: "InferenceService \<Rightarrow> string" where
  "endpoint svc = ''http://'' @ Name svc @ ''.'' @ Namespace svc @ ''.svc.cluster.local:'' @
     sprint32 servingPort @ ''/v1''"

definition reconcileClaimTemplate ::
  "'w Platform \<Rightarrow> InferenceService \<Rightarrow> ('w pass, go_error option) state" where
  "reconcileClaimTemplate P svc =
    (if DeviceClass (Spec svc) \<noteq> '''' then do {
       e \<leftarrow> apply_config P (AC_ResourceClaimTemplate (desiredClaimTemplate svc)) FieldOwner True;
       State_Monad.return (map_option (Wrapf ''apply resource claim template'') e)
     }
     else deleteIfOwned P svc KResourceClaimTemplate (claimTemplateName svc))"

definition reconcileService :: "'w Platform \<Rightarrow> InferenceService \<Rightarrow> ('w pass, go_error option) state" where
  "reconcileService P svc = do {
     e \<leftarrow> apply_config P (AC_Service (desiredService svc)) FieldOwner True;
     State_Monad.return (map_option (Wrapf ''apply service'') e)
   }"

definition reportStatus ::
  "'w Platform \<Rightarrow> InferenceService \<Rightarrow> Deployment \<Rightarrow> ('w pass, Result \<times> go_error option) state" where
  "reportStatus P svc dep = do {
     set_status (\<lambda>st. st\<lparr>ReadyReplicas := dep_ReadyReplicas dep\<rparr>);
     set_status (\<lambda>st. st\<lparr>Endpoint := endpoint svc\<rparr>);
     if 0 < sint (dep_ReadyReplicas dep) then do {
       set_status (\<lambda>st. st\<lparr>Phase := ''Ready''\<rparr>);
       condition P svc CondReady ConditionTrue ''MinimumReplicasAvailable'' ''serving traffic'';
       State_Monad.return (Result driftRequeue, None)
     }
     else do {
       r \<leftarrow> podTrouble P svc;
       case r of
         Inl err \<Rightarrow> State_Monad.return (Result 0, Some err)
       | Inr (phase, reason, msg) \<Rightarrow> do {
           (if phase \<noteq> '''' then do {
             set_status (\<lambda>st. st\<lparr>Phase := phase\<rparr>);
             condition P svc CondReady ConditionFalse reason msg
           }
           else do {
             set_status (\<lambda>st. st\<lparr>Phase := ''Loading''\<rparr>);
             condition P svc CondReady ConditionFalse ''WeightsLoading'' ''no ready replicas yet''
           });
           State_Monad.return (Result notReadyRequeue, None)
         }
     }
   }"

text \<open>\<open>if err != nil { return ctrl.Result{}, err }\<close> in front of the rest of the pass.\<close>

definition unless ::
  "go_error option \<Rightarrow> ('w pass, Result \<times> go_error option) state \<Rightarrow> ('w pass, Result \<times> go_error option) state" where
  "unless e rest = (case e of Some err \<Rightarrow> State_Monad.return (Result 0, Some err) | None \<Rightarrow> rest)"

definition reconcile ::
  "'w Platform \<Rightarrow> string \<Rightarrow> InferenceService \<Rightarrow> ('w pass, Result \<times> go_error option) state" where
  "reconcile P addr svc =
    (if policyViolation svc \<noteq> '''' then do {
       condition P svc CondAdmitted ConditionFalse ''PolicyViolation'' (policyViolation svc);
       set_status (\<lambda>st. st\<lparr>Phase := ''Rejected''\<rparr>);
       State_Monad.return (Result 0, None)
     }
     else do {
       condition P svc CondAdmitted ConditionTrue ''PolicySatisfied'' ''spec passes placement policy'';
       e \<leftarrow> reconcileClaimTemplate P svc;
       unless e (do {
       (dep, requeue, err) \<leftarrow> reconcileDeployment P svc;
       if err \<noteq> None \<or> requeue then State_Monad.return (Result 5, err) else do {
       e \<leftarrow> reconcileService P svc;
       unless e (do {
       e \<leftarrow> reconcileAutoscaling P addr svc;
       unless e (do {
       e \<leftarrow> reconcileRouting P svc;
       unless e (reportStatus P svc (the dep))
       })})}})
     })"

definition Reconcile ::
  "'w Platform \<Rightarrow> string \<Rightarrow> NamespacedName \<Rightarrow> ('w pass, Result \<times> go_error option) state" where
  "Reconcile P addr req = do {
     r \<leftarrow> get_isvc P req;
     case r of
       Inl err \<Rightarrow> State_Monad.return (Result 0, IgnoreNotFound (Some err))
     | Inr svc \<Rightarrow> do {
         set_status (\<lambda>_. Status svc);
         before \<leftarrow> get_status;
         (result, err) \<leftarrow> reconcile P addr svc;
         set_status (\<lambda>st. st\<lparr>ObservedGeneration := Generation svc\<rparr>);
         st \<leftarrow> get_status;
         if \<not> Semantic_DeepEqual P before st then do {
           serr \<leftarrow> update_status P (svc\<lparr>Status := st\<rparr>);
           if serr \<noteq> None \<and> err = None then State_Monad.return (Result 0, serr)
           else State_Monad.return (result, err)
         }
         else State_Monad.return (result, err)
       }
   }"

subsection \<open>The pass from each of its calls on\<close>

definition from_routing :: "'w Platform \<Rightarrow> InferenceService \<Rightarrow> Deployment \<Rightarrow> ('w pass, Result \<times> go_error option) state" where
  "from_routing P svc d = do { e \<leftarrow> reconcileRouting P svc; unless e (reportStatus P svc d) }"

definition from_autoscaling ::
  "'w Platform \<Rightarrow> string \<Rightarrow> InferenceService \<Rightarrow> Deployment \<Rightarrow> ('w pass, Result \<times> go_error option) state" where
  "from_autoscaling P addr svc d = do { e \<leftarrow> reconcileAutoscaling P addr svc; unless e (from_routing P svc d) }"

definition from_service ::
  "'w Platform \<Rightarrow> string \<Rightarrow> InferenceService \<Rightarrow> Deployment \<Rightarrow> ('w pass, Result \<times> go_error option) state" where
  "from_service P addr svc d = do { e \<leftarrow> reconcileService P svc; unless e (from_autoscaling P addr svc d) }"

definition from_deployment ::
  "'w Platform \<Rightarrow> string \<Rightarrow> InferenceService \<Rightarrow> ('w pass, Result \<times> go_error option) state" where
  "from_deployment P addr svc = do {
     (dep, requeue, err) \<leftarrow> reconcileDeployment P svc;
     if err \<noteq> None \<or> requeue then State_Monad.return (Result 5, err) else from_service P addr svc (the dep)
   }"

definition from_claim ::
  "'w Platform \<Rightarrow> string \<Rightarrow> InferenceService \<Rightarrow> ('w pass, Result \<times> go_error option) state" where
  "from_claim P addr svc = do { e \<leftarrow> reconcileClaimTemplate P svc; unless e (from_deployment P addr svc) }"

lemmas from_defs = from_routing_def from_autoscaling_def from_service_def from_deployment_def from_claim_def

lemma reconcile_admitted:
  assumes "policyViolation svc = []"
  shows "reconcile P addr svc = State_Monad.bind
    (condition P svc CondAdmitted ConditionTrue ''PolicySatisfied'' ''spec passes placement policy'')
    (\<lambda>_. from_claim P addr svc)"
  unfolding reconcile_def from_defs by (simp only: assms simp_thms if_False)

lemma reconcile_rejected:
  "policyViolation svc \<noteq> [] \<Longrightarrow> reconcile P addr svc = do {
     condition P svc CondAdmitted ConditionFalse ''PolicyViolation'' (policyViolation svc);
     set_status (\<lambda>st. st\<lparr>Phase := ''Rejected''\<rparr>);
     State_Monad.return (Result 0, None)
   }"
  by (simp add: reconcile_def)

lemma wp_unless [wp_simps]:
  "wp (unless e m) Q s = (case e of Some err \<Rightarrow> Q (Result 0, Some err) s | None \<Rightarrow> wp m Q s)"
  by (simp add: unless_def wp_simps split: option.split)

text \<open>
  The rule for a whole pass: an assertion between every two handlers, and the postcondition
  wherever the pass may end.
\<close>

lemma reconcile_rule:
  assumes rejected: "\<And>cs w. policyViolation svc \<noteq> [] \<Longrightarrow> SetStatusCondition P
        \<lparr>cond_Type = CondAdmitted, cond_Status = ConditionFalse, cond_ObservedGeneration = Generation svc,
         cond_LastTransitionTime = 0, cond_Reason = ''PolicyViolation'', cond_Message = policyViolation svc\<rparr>
        (Conditions (status s)) (world s) = (cs, w) \<Longrightarrow>
      Q (Result 0, None) (s\<lparr>world := w, status := (status s)\<lparr>Conditions := cs, Phase := ''Rejected''\<rparr>\<rparr>)"
    and admitted: "\<And>cs w. policyViolation svc = [] \<Longrightarrow> SetStatusCondition P
        \<lparr>cond_Type = CondAdmitted, cond_Status = ConditionTrue, cond_ObservedGeneration = Generation svc,
         cond_LastTransitionTime = 0, cond_Reason = ''PolicySatisfied'',
         cond_Message = ''spec passes placement policy''\<rparr>
        (Conditions (status s)) (world s) = (cs, w) \<Longrightarrow>
      A0 (s\<lparr>world := w, status := (status s)\<lparr>Conditions := cs\<rparr>\<rparr>)"
    and claim: "\<And>t. policyViolation svc = [] \<Longrightarrow> A0 t \<Longrightarrow> wp (reconcileClaimTemplate P svc)
        (\<lambda>e u. case e of None \<Rightarrow> A1 u | Some err \<Rightarrow> Q (Result 0, Some err) u) t"
    and deployment: "\<And>t. policyViolation svc = [] \<Longrightarrow> A1 t \<Longrightarrow> wp (reconcileDeployment P svc)
        (\<lambda>(d, requeue, err) u. if err \<noteq> None \<or> requeue then Q (Result 5, err) u else A2 (the d) u) t"
    and service: "\<And>t d. policyViolation svc = [] \<Longrightarrow> A2 d t \<Longrightarrow> wp (reconcileService P svc)
        (\<lambda>e u. case e of None \<Rightarrow> A3 d u | Some err \<Rightarrow> Q (Result 0, Some err) u) t"
    and autoscaling: "\<And>t d. policyViolation svc = [] \<Longrightarrow> A3 d t \<Longrightarrow> wp (reconcileAutoscaling P addr svc)
        (\<lambda>e u. case e of None \<Rightarrow> A4 d u | Some err \<Rightarrow> Q (Result 0, Some err) u) t"
    and routing: "\<And>t d. policyViolation svc = [] \<Longrightarrow> A4 d t \<Longrightarrow> wp (reconcileRouting P svc)
        (\<lambda>e u. case e of None \<Rightarrow> A5 d u | Some err \<Rightarrow> Q (Result 0, Some err) u) t"
    and report: "\<And>t d. policyViolation svc = [] \<Longrightarrow> A5 d t \<Longrightarrow> wp (reportStatus P svc d) Q t"
  shows "wp (reconcile P addr svc) Q s"
proof (cases "policyViolation svc = []")
  case False
  then show ?thesis
    using rejected by (auto simp: reconcile_rejected condition_def wp_simps split: prod.split)
next
  case pol: True
  have routed: "A4 d t \<Longrightarrow> wp (from_routing P svc d) Q t" for d t
    unfolding from_routing_def wp_bind wp_unless
    by (rule wp_mono [OF routing [OF pol]]) (auto split: option.splits intro: report [OF pol])
  have scaled: "A3 d t \<Longrightarrow> wp (from_autoscaling P addr svc d) Q t" for d t
    unfolding from_autoscaling_def wp_bind wp_unless
    by (rule wp_mono [OF autoscaling [OF pol]]) (auto split: option.splits intro: routed)
  have served: "A2 d t \<Longrightarrow> wp (from_service P addr svc d) Q t" for d t
    unfolding from_service_def wp_bind wp_unless
    by (rule wp_mono [OF service [OF pol]]) (auto split: option.splits intro: scaled)
  have deployed: "A1 t \<Longrightarrow> wp (from_deployment P addr svc) Q t" for t
    unfolding from_deployment_def wp_bind
    by (rule wp_mono [OF deployment [OF pol]]) (auto simp: wp_simps split: if_splits intro: served)
  have claimed: "A0 t \<Longrightarrow> wp (from_claim P addr svc) Q t" for t
    unfolding from_claim_def wp_bind wp_unless
    by (rule wp_mono [OF claim [OF pol]]) (auto split: option.splits intro: deployed)
  show ?thesis
    using admitted [OF pol] claimed
    by (auto simp: reconcile_admitted [OF pol] condition_def wp_simps split: prod.split)
qed

end
