(* ===== verification/Discipline.thy ===== *)
theory Discipline
  imports Reconcile
begin

section \<open>What a pass may do to the cluster\<close>

text \<open>
  The list of calls a pass makes is constrained call by call, each against the calls before it and
  their answers. \<open>ok_call\<close> is the whole discipline; \<open>pass_step\<close> is the contract the handlers share,
  interpreted on each of them, from which \<open>reconcile\<close> inherits it. Nothing is assumed of the
  platform: the discipline holds for every behaviour of the API server, errors at any point included.
\<close>

subsection \<open>Logs\<close>

definition log_ok :: "(call list \<Rightarrow> call \<Rightarrow> bool) \<Rightarrow> call list \<Rightarrow> bool" where
  "log_ok G cs \<longleftrightarrow> (\<forall>pre c post. cs = pre @ c # post \<longrightarrow> G pre c)"

lemma log_ok_Nil [simp]: "log_ok G []"
  by (simp add: log_ok_def)

lemma log_ok_Cons [simp]: "log_ok G (c # cs) \<longleftrightarrow> G [] c \<and> log_ok (\<lambda>pre. G (c # pre)) cs"
  by (auto simp: log_ok_def Cons_eq_append_conv)

lemma log_ok_append [simp]: "log_ok G (xs @ ys) \<longleftrightarrow> log_ok G xs \<and> log_ok (\<lambda>pre. G (xs @ pre)) ys"
proof (induction xs arbitrary: G)
  case (Cons x xs)
  show ?case by (simp add: Cons.IH [of "\<lambda>pre. G (x # pre)"])
qed simp

lemma log_okD: "log_ok G cs \<Longrightarrow> cs = pre @ c # post \<Longrightarrow> G pre c"
  by (simp add: log_ok_def)

text \<open>A computation only adds to the log, and what it adds obeys \<open>G\<close>.\<close>

definition extends :: "(call list \<Rightarrow> call \<Rightarrow> bool) \<Rightarrow> 'w pass \<Rightarrow> 'w pass \<Rightarrow> bool" where
  "extends G s t \<longleftrightarrow> (\<exists>new. calls t = calls s @ new \<and> log_ok (\<lambda>pre. G (calls s @ pre)) new)"

lemma extends_refl [simp]: "calls t = calls s \<Longrightarrow> extends G s t"
  by (simp add: extends_def)

lemma extends_trans [trans]: "extends G s t \<Longrightarrow> extends G t u \<Longrightarrow> extends G s u"
  by (auto simp: extends_def)

lemma extends_subset: "extends G s t \<Longrightarrow> set (calls s) \<subseteq> set (calls t)"
  by (auto simp: extends_def)

subsection \<open>The discipline\<close>

fun carries_replicas :: "apply_config \<Rightarrow> bool" where
  "carries_replicas (AC_Deployment d) \<longleftrightarrow> ds_Replicas (dp_Spec d) \<noteq> None"
| "carries_replicas _ \<longleftrightarrow> False"

definition desired_objects :: "InferenceService \<Rightarrow> string \<Rightarrow> apply_config list" where
  "desired_objects svc addr =
     (if claims_gpu svc then [AC_ResourceClaimTemplate (desiredClaimTemplate svc)] else []) @
     [AC_Deployment (desiredDeployment svc), AC_Service (desiredService svc)] @
     (if Backend (Spec svc) = BackendOllama then [] else [AC_Unstructured (desiredScaledObject svc addr)]) @
     [AC_Unstructured (desiredInferencePool svc)]"

definition template_ready :: "InferenceService \<Rightarrow> call list \<Rightarrow> bool" where
  "template_ready svc pre \<longleftrightarrow> (claims_gpu svc \<longrightarrow>
     CApply (AC_ResourceClaimTemplate (desiredClaimTemplate svc)) FieldOwner True None \<in> set pre)"

definition seen_missing :: "InferenceService \<Rightarrow> call list \<Rightarrow> bool" where
  "seen_missing svc pre \<longleftrightarrow> (\<exists>e. IsNotFound e \<and> CGetDeployment (svc_key svc) (Inl e) \<in> set pre)"

definition ok_apply :: "InferenceService \<Rightarrow> string \<Rightarrow> call list \<Rightarrow> apply_config \<Rightarrow> string \<Rightarrow> bool \<Rightarrow> bool" where
  "ok_apply svc addr pre a m force \<longleftrightarrow>
     (if carries_replicas a
      then a = AC_Deployment (initialReplicas svc) \<and> m = initialReplicasOwner \<and> \<not> force \<and> seen_missing svc pre
      else a \<in> set (desired_objects svc addr) \<and> m = FieldOwner \<and> force) \<and>
     (fst (ac_key a) = KDeployment \<longrightarrow> template_ready svc pre)"

definition ok_delete ::
  "'w Platform \<Rightarrow> InferenceService \<Rightarrow> call list \<Rightarrow> ObjKind \<Rightarrow> NamespacedName \<Rightarrow> bool" where
  "ok_delete P svc pre kind k \<longleftrightarrow>
     (if kind = KDeployment
      then \<exists>d. CGetDeployment (svc_key svc) (Inr d) \<in> set pre \<and> k = (Namespace d, Name d) \<and>
             DeletionTimestamp d = None \<and> outdated_selector svc d
      else \<exists>obj n. CGetMeta kind (Namespace svc, n) (Inr obj) \<in> set pre \<and> k = (Namespace obj, Name obj) \<and>
             IsControlledBy P obj (svc_meta svc) \<and>
             (kind = KResourceClaimTemplate \<and> n = claimTemplateName svc \<and> \<not> claims_gpu svc \<or>
              kind = KUnstructured scaledObjectGVK \<and> n = Name svc \<and> Backend (Spec svc) = BackendOllama))"

fun ok_call :: "'w Platform \<Rightarrow> string \<Rightarrow> InferenceService \<Rightarrow> call list \<Rightarrow> call \<Rightarrow> bool" where
  "ok_call P addr svc pre (CApply a m force _) \<longleftrightarrow>
     policyViolation svc = '''' \<and> ok_apply svc addr pre a m force"
| "ok_call P addr svc pre (CDelete kind k _ _) \<longleftrightarrow>
     policyViolation svc = '''' \<and> ok_delete P svc pre kind k"
| "ok_call P addr svc pre (CUpdateStatus svc' _) \<longleftrightarrow>
     svc' = svc\<lparr>Status := Status svc'\<rparr> \<and> ObservedGeneration (Status svc') = Generation svc"
| "ok_call P addr svc pre (CListPods ns sel _) \<longleftrightarrow> ns = Namespace svc \<and> sel = selectorLabels svc"
| "ok_call P addr svc pre _ \<longleftrightarrow> True"

lemma replicas_fields [simp]:
  "ds_Replicas (dp_Spec (desiredDeployment svc)) = None"
  "ds_Replicas (dp_Spec (initialReplicas svc)) = Some (MinReplicas (Autoscaling (Spec svc)))"
  by (simp_all add: desiredDeployment_eq initialReplicas_def)

lemma initialReplicas_key [simp]: "ac_key (AC_Deployment (initialReplicas svc)) = (KDeployment, svc_key svc)"
  by (simp add: initialReplicas_def svc_key_def)

lemma template_ready_append [simp]: "template_ready svc pre \<Longrightarrow> template_ready svc (pre @ post)"
  by (auto simp: template_ready_def)

lemma wp_condition [wp_simps]:
  "wp (condition P svc t st reason msg) Q s =
    (case SetStatusCondition P \<lparr>cond_Type = t, cond_Status = st, cond_ObservedGeneration = Generation svc,
        cond_LastTransitionTime = 0, cond_Reason = reason, cond_Message = msg\<rparr>
        (Conditions (status s)) (world s) of
       (cs, w) \<Rightarrow> Q () (s\<lparr>world := w, status := (status s)\<lparr>Conditions := cs\<rparr>\<rparr>))"
  by (simp add: condition_def wp_simps)

lemmas ok_simps = ok_apply_def ok_delete_def desired_objects_def

subsection \<open>The contract of a handler\<close>

text \<open>
  What every handler of \<open>reconcile\<close> up to the status report does: it extends the log within the
  discipline, given that the claim template is there when the pod needs it, and of the status it
  touches only the conditions. \<open>needs\<close> is what the handler requires of the log.
\<close>

definition conditions_only :: "'w pass \<Rightarrow> 'w pass \<Rightarrow> bool" where
  "conditions_only s t \<longleftrightarrow> status t = (status s)\<lparr>Conditions := Conditions (status t)\<rparr>"

lemma conditions_only_refl [simp]: "status t = status s \<Longrightarrow> conditions_only s t"
  by (simp add: conditions_only_def)

lemma conditions_only_trans [trans]: "conditions_only s t \<Longrightarrow> conditions_only t u \<Longrightarrow> conditions_only s u"
  unfolding conditions_only_def by (metis InferenceServiceStatus.update_convs(5) InferenceServiceStatus.surjective)

definition good_step :: "'w Platform \<Rightarrow> string \<Rightarrow> InferenceService \<Rightarrow> 'w pass \<Rightarrow> 'w pass \<Rightarrow> bool" where
  "good_step P addr svc s t \<longleftrightarrow> extends (ok_call P addr svc) s t \<and> conditions_only s t"

lemma good_step_trans [trans]:
  "good_step P addr svc s t \<Longrightarrow> good_step P addr svc t u \<Longrightarrow> good_step P addr svc s u"
  unfolding good_step_def using extends_trans conditions_only_trans by blast

locale pass_step =
  fixes step :: "'w Platform \<Rightarrow> string \<Rightarrow> InferenceService \<Rightarrow> ('w pass, 'r) state"
    and needs :: "InferenceService \<Rightarrow> call list \<Rightarrow> bool"
  assumes good: "policyViolation svc = [] \<Longrightarrow> needs svc (calls s) \<Longrightarrow>
      wp (step P addr svc) (\<lambda>_ t. good_step P addr svc s t) s"
begin

text \<open>A handler keeps the log of an earlier state extended.\<close>

lemma extends_from:
  assumes "policyViolation svc = []" and "needs svc (calls t)" and "extends (ok_call P addr svc) s t"
  shows "wp (step P addr svc) (\<lambda>_ u. extends (ok_call P addr svc) s u) t"
  using assms(3) by (intro wp_mono [OF good [OF assms(1,2)]]) (auto simp: good_step_def intro: extends_trans)

end

lemma wp_condition_good:
  "wp (condition P svc t st reason msg) (\<lambda>_ u. good_step P' addr svc' s u) s"
  by (simp add: wp_simps good_step_def conditions_only_def split: prod.split)

lemma deleteIfOwned_good:
  assumes "policyViolation svc = []"
    and "kind = KResourceClaimTemplate \<and> n = claimTemplateName svc \<and> \<not> claims_gpu svc \<or>
      kind = KUnstructured scaledObjectGVK \<and> n = Name svc \<and> Backend (Spec svc) = BackendOllama"
  shows "wp (deleteIfOwned P svc kind n) (\<lambda>_ t. good_step P addr svc s t) s"
  using assms
  by (auto simp: deleteIfOwned_def client_ops wp_simps good_step_def extends_def ok_delete_def
      conditions_only_def split: sum.split prod.split)

lemma reconcileDeployment_good:
  assumes "policyViolation svc = []" and "template_ready svc (calls s)"
  shows "wp (reconcileDeployment P svc) (\<lambda>_ t. good_step P addr svc s t) s"
  using assms
  by (auto simp: reconcileDeployment_def createDeployment_def applyDeployment_def client_ops wp_simps
      good_step_def extends_def ok_simps conditions_only_def seen_missing_def
      split: option.split sum.split prod.split)

lemma reconcileClaimTemplate_good:
  assumes "policyViolation svc = []"
  shows "wp (reconcileClaimTemplate P svc)
    (\<lambda>e t. good_step P addr svc s t \<and> (e = None \<longrightarrow> template_ready svc (calls t))) s"
proof (cases "claims_gpu svc")
  case True
  with assms show ?thesis
    by (auto simp: reconcileClaimTemplate_def claims_gpu_def client_ops wp_simps good_step_def
        extends_def ok_simps conditions_only_def template_ready_def split: prod.split)
next
  case False
  then have "wp (deleteIfOwned P svc KResourceClaimTemplate (claimTemplateName svc))
      (\<lambda>_ t. good_step P addr svc s t) s"
    by (intro deleteIfOwned_good [OF assms]) simp
  with False show ?thesis
    by (auto simp: reconcileClaimTemplate_def claims_gpu_def template_ready_def elim!: wp_mono)
qed

lemma reconcileService_good:
  assumes "policyViolation svc = []"
  shows "wp (reconcileService P svc) (\<lambda>_ t. good_step P addr svc s t) s"
  using assms
  by (auto simp: reconcileService_def client_ops wp_simps good_step_def extends_def ok_simps
      conditions_only_def split: prod.split)

lemma reconcileRouting_good:
  assumes "policyViolation svc = []"
  shows "wp (reconcileRouting P svc) (\<lambda>_ t. good_step P addr svc s t) s"
  using assms
  by (auto simp: reconcileRouting_def client_ops wp_simps good_step_def extends_def ok_simps
      conditions_only_def split: option.split prod.split)

lemma reconcileAutoscaling_good:
  assumes pol: "policyViolation svc = []"
  shows "wp (reconcileAutoscaling P addr svc) (\<lambda>_ t. good_step P addr svc s t) s"
proof (cases "Backend (Spec svc) = BackendOllama")
  case True
  have del: "wp (deleteIfOwned P svc (KUnstructured scaledObjectGVK) (Name svc))
      (\<lambda>_ u. good_step P addr svc s u) t" if "good_step P addr svc s t" for t
    using that True good_step_trans
    by (intro wp_mono [OF deleteIfOwned_good [OF pol]]) blast+
  show ?thesis
    using True del unfolding reconcileAutoscaling_def deleteUnstructuredIfOwned_def
    by (simp add: wp_bind) (rule wp_mono [OF wp_condition_good], blast)
next
  case False
  with pol show ?thesis
    by (auto simp: reconcileAutoscaling_def client_ops wp_simps good_step_def extends_def ok_simps
        conditions_only_def split: option.split sum.split prod.split ConditionStatus.split)
qed

interpretation deploying: pass_step "\<lambda>P addr svc. reconcileDeployment P svc" template_ready
  by unfold_locales (rule reconcileDeployment_good)

interpretation claiming: pass_step "\<lambda>P addr svc. reconcileClaimTemplate P svc" "\<lambda>_ _. True"
  by unfold_locales (auto elim: wp_mono [OF reconcileClaimTemplate_good])

interpretation serving: pass_step "\<lambda>P addr svc. reconcileService P svc" "\<lambda>_ _. True"
  by unfold_locales (rule reconcileService_good)

interpretation scaling: pass_step reconcileAutoscaling "\<lambda>_ _. True"
  by unfold_locales (rule reconcileAutoscaling_good)

interpretation routing: pass_step "\<lambda>P addr svc. reconcileRouting P svc" "\<lambda>_ _. True"
  by unfold_locales (rule reconcileRouting_good)

subsection \<open>A whole pass\<close>

lemma reportStatus_extends: "wp (reportStatus P svc dep) (\<lambda>_ t. extends (ok_call P addr svc) s t) s"
  by (auto simp: reportStatus_def podTrouble_def client_ops wp_simps extends_def
      split: sum.split prod.split)

lemma reconcile_extends: "wp (reconcile P addr svc) (\<lambda>_ t. extends (ok_call P addr svc) s t) s"
  (is "wp _ (\<lambda>_. ?E) s")
proof (rule reconcile_rule [where ?A0.0 = ?E and ?A1.0 = "\<lambda>t. ?E t \<and> template_ready svc (calls t)"
      and ?A2.0 = "\<lambda>_. ?E" and ?A3.0 = "\<lambda>_. ?E" and ?A4.0 = "\<lambda>_. ?E" and ?A5.0 = "\<lambda>_. ?E"])
  fix t assume pol: "policyViolation svc = []" and "?E t"
  then show "wp (reconcileClaimTemplate P svc)
      (\<lambda>e u. case e of None \<Rightarrow> ?E u \<and> template_ready svc (calls u) | Some err \<Rightarrow> ?E u) t"
    by (intro wp_mono [OF reconcileClaimTemplate_good [OF pol, of P addr]])
      (auto simp: good_step_def intro: extends_trans split: option.split)
next
  fix t assume "policyViolation svc = []" and "?E t \<and> template_ready svc (calls t)"
  then show "wp (reconcileDeployment P svc)
      (\<lambda>(d, requeue, err) u. if err \<noteq> None \<or> requeue then ?E u else ?E u) t"
    using deploying.extends_from [of svc t P addr s] by (simp add: case_prod_unfold)
next
  fix t d assume "policyViolation svc = []" and "?E t"
  then show "wp (reportStatus P svc d) (\<lambda>_. ?E) t"
    by (intro wp_mono [OF reportStatus_extends [of P svc d addr]]) (rule extends_trans)
qed (auto simp: option.case_eq_if intro: serving.extends_from scaling.extends_from routing.extends_from)

subsection \<open>The log of a pass\<close>

definition zero_status :: InferenceServiceStatus where
  "zero_status = \<lparr>ObservedGeneration = 0, ReadyReplicas = 0, Endpoint = [], Phase = [], Conditions = []\<rparr>"

definition start :: "'w \<Rightarrow> 'w pass" where
  "start w = \<lparr>world = w, status = zero_status, calls = []\<rparr>"

definition pass_calls :: "'w Platform \<Rightarrow> string \<Rightarrow> NamespacedName \<Rightarrow> 'w \<Rightarrow> call list" where
  "pass_calls P addr req w = calls (snd (run_state (Reconcile P addr req) (start w)))"

definition pass_outcome :: "'w Platform \<Rightarrow> string \<Rightarrow> NamespacedName \<Rightarrow> 'w \<Rightarrow> Result \<times> go_error option" where
  "pass_outcome P addr req w = fst (run_state (Reconcile P addr req) (start w))"

definition pass_world :: "'w Platform \<Rightarrow> string \<Rightarrow> NamespacedName \<Rightarrow> 'w \<Rightarrow> 'w" where
  "pass_world P addr req w = world (snd (run_state (Reconcile P addr req) (start w)))"

definition pass_status :: "'w Platform \<Rightarrow> string \<Rightarrow> NamespacedName \<Rightarrow> 'w \<Rightarrow> InferenceServiceStatus" where
  "pass_status P addr req w = status (snd (run_state (Reconcile P addr req) (start w)))"

lemmas pass_defs = pass_calls_def pass_outcome_def pass_world_def pass_status_def

lemma wp_pass: "wp (Reconcile P addr req) Q (start w) \<Longrightarrow>
    Q (pass_outcome P addr req w) (snd (run_state (Reconcile P addr req) (start w)))"
  by (simp add: wp_def pass_outcome_def split: prod.splits)

definition read_service :: "NamespacedName \<Rightarrow> InferenceService \<Rightarrow> call" where
  "read_service req svc = CGetInferenceService req (Inr svc)"

lemma read_service_inj [simp]: "read_service req a = read_service req b \<longleftrightarrow> a = b"
  by (simp add: read_service_def)

text \<open>
  A pass that could read its service is the pass of \<open>reconcile\<close> from the state \<open>started\<close>, followed by
  at most one status update.
\<close>

definition started :: "NamespacedName \<Rightarrow> InferenceService \<Rightarrow> 'w \<Rightarrow> 'w pass" where
  "started req svc w = \<lparr>world = w, status = Status svc, calls = [read_service req svc]\<rparr>"

lemma started_fields [simp]:
  "world (started req svc w) = w" "status (started req svc w) = Status svc"
  "calls (started req svc w) = [read_service req svc]"
  by (simp_all add: started_def)

definition observed :: "InferenceService \<Rightarrow> 'w pass \<Rightarrow> InferenceServiceStatus" where
  "observed svc t = (status t)\<lparr>ObservedGeneration := Generation svc\<rparr>"

lemma observed_fields [simp]:
  "Phase (observed svc t) = Phase (status t)" "Conditions (observed svc t) = Conditions (status t)"
  "ObservedGeneration (observed svc t) = Generation svc"
  by (simp_all add: observed_def)

definition final_update :: "'w Platform \<Rightarrow> InferenceService \<Rightarrow> 'w pass \<Rightarrow> go_error option \<Rightarrow> call list" where
  "final_update P svc t serr = (if Semantic_DeepEqual P (Status svc) (observed svc t) then []
     else [CUpdateStatus (svc\<lparr>Status := observed svc t\<rparr>) serr])"

lemma pass_of_reconcile:
  assumes "Get_InferenceService P req w = (Inr svc, w1)" and "wp (reconcile P addr svc) Q (started req svc w1)"
  obtains r err t serr where "Q (r, err) t"
    and "pass_calls P addr req w = calls t @ final_update P svc t serr"
    and "pass_outcome P addr req w = (if err = None \<and> serr \<noteq> None then (Result 0, serr) else (r, err))"
    and "pass_status P addr req w = observed svc t"
    and "pass_world P addr req w = world t \<or>
      (\<exists>svc'. pass_world P addr req w = snd (Update_Status P svc' (world t)))"
proof -
  obtain r err t where run: "run_state (reconcile P addr svc) (started req svc w1) = ((r, err), t)"
    by (metis surj_pair)
  define serr where "serr = (if Semantic_DeepEqual P (Status svc) (observed svc t) then None
    else fst (Update_Status P (svc\<lparr>Status := observed svc t\<rparr>) (world t)))"
  have "wp (Reconcile P addr req) (\<lambda>out u. calls u = calls t @ final_update P svc t serr \<and>
      out = (if err = None \<and> serr \<noteq> None then (Result 0, serr) else (r, err)) \<and>
      status u = observed svc t \<and>
      (world u = world t \<or> (\<exists>svc'. world u = snd (Update_Status P svc' (world t))))) (start w)"
    using run assms(1) unfolding Reconcile_def client_ops
    by (auto simp: wp_simps start_def started_def read_service_def wp_def [of "reconcile P addr svc"]
        observed_def serr_def final_update_def split: prod.split)
      (metis snd_conv)+
  from wp_pass [OF this] show thesis
    using wp_run [OF run assms(2)] by (intro that) (auto simp: pass_defs)
qed

lemma Reconcile_log:
  "wp (Reconcile P addr req) (\<lambda>_ t.
     (\<exists>e. calls t = [CGetInferenceService req (Inl e)]) \<or>
     (\<exists>svc rest. calls t = read_service req svc # rest \<and>
        log_ok (\<lambda>pre. ok_call P addr svc (read_service req svc # pre)) rest)) (start w)"
proof -
  let ?Q = "\<lambda>svc t. \<exists>rest. calls t = read_service req svc # rest \<and>
      log_ok (\<lambda>pre. ok_call P addr svc (read_service req svc # pre)) rest"
  have body: "wp (reconcile P addr svc) (\<lambda>_ t. ?Q svc t) s"
    if "calls s = [read_service req svc]" for svc s
    using that by (intro wp_mono [OF reconcile_extends [of P addr]]) (simp add: extends_def)
  show ?thesis
    unfolding Reconcile_def client_ops
    by (auto simp: wp_simps start_def read_service_def [symmetric] split: prod.split sum.split
        intro!: wp_mono [OF body])
qed

lemma pass_calls_cases:
  obtains e where "pass_calls P addr req w = [CGetInferenceService req (Inl e)]"
  | svc rest where "pass_calls P addr req w = read_service req svc # rest"
      "log_ok (\<lambda>pre. ok_call P addr svc (read_service req svc # pre)) rest"
  using wp_pass [OF Reconcile_log [of P addr req w]] by (auto simp: pass_calls_def)

text \<open>Every call of a pass but the first read obeys the discipline for the service read.\<close>

lemma pass_log:
  assumes got: "Get_InferenceService P req w = (Inr svc, w1)"
  obtains rest where "pass_calls P addr req w = read_service req svc # rest"
    "log_ok (\<lambda>pre. ok_call P addr svc (read_service req svc # pre)) rest"
proof (cases rule: pass_calls_cases [of P addr req w])
  case (1 e)
  from pass_of_reconcile [OF got reconcile_extends [of P addr]] obtain t ups
    where "extends (ok_call P addr svc) (started req svc w1) t" "pass_calls P addr req w = calls t @ ups"
    by metis
  with 1 show ?thesis by (auto simp: extends_def read_service_def)
next
  case (2 svc' rest)
  from pass_of_reconcile [OF got reconcile_extends [of P addr]] obtain t ups
    where "extends (ok_call P addr svc) (started req svc w1) t" "pass_calls P addr req w = calls t @ ups"
    by metis
  with 2(1) have "svc' = svc" by (auto simp: extends_def)
  with 2 show ?thesis by (intro that) simp_all
qed

lemma pass_call:
  assumes "Get_InferenceService P req w = (Inr svc, w1)" and "pass_calls P addr req w = pre @ c # post"
    and "\<And>r. c \<noteq> CGetInferenceService req r"
  shows "ok_call P addr svc pre c"
proof -
  obtain rest where log: "pass_calls P addr req w = read_service req svc # rest"
    and ok: "log_ok (\<lambda>pre. ok_call P addr svc (read_service req svc # pre)) rest"
    by (rule pass_log [OF assms(1)])
  show ?thesis
  proof (cases pre)
    case Nil
    with assms(2,3) log show ?thesis by (auto simp: read_service_def)
  next
    case (Cons a pre')
    with assms(2) log have "a = read_service req svc" "rest = pre' @ c # post" by simp_all
    with Cons log_okD [OF ok] show ?thesis by simp
  qed
qed

end
