(* ===== verification/Setup.thy ===== *)
theory Setup
  imports Discipline
begin

section \<open>Watches\<close>

text \<open>
  \<open>SetupWithManager\<close>: the builder's chain as the list of what is watched, in order. \<open>RESTMapping\<close> is the
  manager's REST mapper, \<open>Complete\<close> the builder's last call; both are outside the repository.
\<close>

datatype watch = For | Owns ObjKind

text \<open>The loop over the add-on kinds: one whose mapping fails is logged and skipped.\<close>

fun watch_addons :: "(GroupVersionKind \<Rightarrow> go_error option) \<Rightarrow> GroupVersionKind list \<Rightarrow> watch list \<Rightarrow> watch list" where
  "watch_addons RESTMapping [] b = b"
| "watch_addons RESTMapping (gvk # gvks) b =
    (case RESTMapping gvk of
       Some _ \<Rightarrow> watch_addons RESTMapping gvks b
     | None \<Rightarrow> watch_addons RESTMapping gvks (b @ [Owns (KUnstructured gvk)]))"

definition SetupWithManager ::
  "(GroupVersionKind \<Rightarrow> go_error option) \<Rightarrow> (watch list \<Rightarrow> go_error option) \<Rightarrow> go_error option" where
  "SetupWithManager RESTMapping Complete =
    (let b = [For, Owns KDeployment, Owns KService, Owns KResourceClaimTemplate];
         b = watch_addons RESTMapping [scaledObjectGVK, inferencePoolGVK] b
     in Complete b)"

definition watched :: "(GroupVersionKind \<Rightarrow> go_error option) \<Rightarrow> watch list" where
  "watched RESTMapping = watch_addons RESTMapping [scaledObjectGVK, inferencePoolGVK]
     [For, Owns KDeployment, Owns KService, Owns KResourceClaimTemplate]"

lemma watch_addons_filter:
  "watch_addons m gs b = b @ map (\<lambda>g. Owns (KUnstructured g)) (filter (\<lambda>g. m g = None) gs)"
  by (induction gs arbitrary: b) (simp_all split: option.split)

lemma SetupWithManager_watched: "SetupWithManager m complete = complete (watched m)"
  by (simp add: SetupWithManager_def watched_def Let_def)

text \<open>Whether the kind of an object can be watched: built in, or known to the mapper.\<close>

fun mapped :: "(GroupVersionKind \<Rightarrow> go_error option) \<Rightarrow> ObjKind \<Rightarrow> bool" where
  "mapped m (KUnstructured g) \<longleftrightarrow> m g = None"
| "mapped m _ \<longleftrightarrow> True"

lemma set_watched: "set (watched m) = {For, Owns KDeployment, Owns KService, Owns KResourceClaimTemplate} \<union>
    Owns ` KUnstructured ` {g \<in> {scaledObjectGVK, inferencePoolGVK}. m g = None}"
  by (auto simp: watched_def watch_addons_filter)

lemma gvks_differ [simp]: "scaledObjectGVK \<noteq> inferencePoolGVK" "inferencePoolGVK \<noteq> scaledObjectGVK"
  by (simp_all add: scaledObjectGVK_def inferencePoolGVK_def)

lemma desired_kinds:
  assumes "a \<in> set (desired_objects svc addr)"
  shows "fst (ac_key a) \<in> {KDeployment, KService, KResourceClaimTemplate, KUnstructured scaledObjectGVK,
    KUnstructured inferencePoolGVK}"
  using assms unfolding desired_objects_def
  by (auto simp: template.key deployment.key service.key scaler.key pool.key split: if_splits
      simp del: ac_key.simps)

lemma desired_watched:
  assumes "a \<in> set (desired_objects svc addr)"
  shows "Owns (fst (ac_key a)) \<in> set (watched m) \<longleftrightarrow> mapped m (fst (ac_key a))"
  using desired_kinds [OF assms] by (auto simp: set_watched)

end
