(* ===== verification/Operator.thy ===== *)
theory Operator
  imports Setup
begin

section \<open>The operator process\<close>

text \<open>
  \<open>cmd/operator/main.go\<close>: the command line, the manager and the controller's registration. The
  \<open>flag\<close> package is the language's, so its parser is written out; the flags that controller-runtime
  and zap register beside the operator's three are a parameter, and so are the outcomes of the calls
  into controller-runtime. What the process did is the list of its events, in order.
\<close>

subsection \<open>The command line\<close>

record Flags =
  metricsAddr :: string
  probeAddr :: string
  prometheusAddr :: string

definition default_flags :: Flags where
  "default_flags = \<lparr>metricsAddr = '':8080'', probeAddr = '':8081'',
     prometheusAddr = ''http://prometheus.monitoring.svc.cluster.local:9090''\<rparr>"

definition StringVar :: "string \<Rightarrow> (string \<Rightarrow> Flags \<Rightarrow> Flags) option" where
  "StringVar name =
    (if name = ''metrics-bind-address'' then Some (\<lambda>v f. f\<lparr>metricsAddr := v\<rparr>)
     else if name = ''health-probe-bind-address'' then Some (\<lambda>v f. f\<lparr>probeAddr := v\<rparr>)
     else if name = ''prometheus-address'' then Some (\<lambda>v f. f\<lparr>prometheusAddr := v\<rparr>)
     else None)"

datatype lib_flag = LibFlag (IsBoolFlag: bool) (accepts: "string \<Rightarrow> bool")

datatype parse_error = ErrHelp | ErrFlag string

text \<open>A flag's name ends at the first equals sign after its first character.\<close>

definition split_value :: "string \<Rightarrow> string \<times> string option" where
  "split_value s =
    (take 1 s @ takeWhile (\<lambda>c. c \<noteq> CHR ''='') (drop 1 s),
     case dropWhile (\<lambda>c. c \<noteq> CHR ''='') (drop 1 s) of [] \<Rightarrow> None | _ # v \<Rightarrow> Some v)"

fun parse_flags :: "(string \<Rightarrow> lib_flag option) \<Rightarrow> string list \<Rightarrow> Flags \<Rightarrow> parse_error + Flags" where
  "parse_flags lib [] f = Inr f"
| "parse_flags lib (s # args) f =
    (if length s < 2 \<or> hd s \<noteq> CHR ''-'' then Inr f
     else if s = ''--'' then Inr f
     else
       let body = (if s ! 1 = CHR ''-'' then drop 2 s else drop 1 s) in
       if body = [] \<or> hd body = CHR ''-'' \<or> hd body = CHR ''='' then Inl (ErrFlag (''bad flag syntax: '' @ s))
       else
         (case split_value body of (name, value) \<Rightarrow>
           (case StringVar name of
              Some assign \<Rightarrow>
                (case value of
                   Some v \<Rightarrow> parse_flags lib args (assign v f)
                 | None \<Rightarrow>
                     (case args of
                        [] \<Rightarrow> Inl (ErrFlag (''flag needs an argument: -'' @ name))
                      | v # rest \<Rightarrow> parse_flags lib rest (assign v f)))
            | None \<Rightarrow>
                (case lib name of
                   None \<Rightarrow>
                     if name = ''help'' \<or> name = ''h'' then Inl ErrHelp
                     else Inl (ErrFlag (''flag provided but not defined: -'' @ name))
                 | Some l \<Rightarrow>
                     if IsBoolFlag l then
                       if accepts l (case value of Some v \<Rightarrow> v | None \<Rightarrow> ''true'') then parse_flags lib args f
                       else Inl (ErrFlag (''invalid boolean value for -'' @ name))
                     else
                       (case value of
                          Some v \<Rightarrow> if accepts l v then parse_flags lib args f
                            else Inl (ErrFlag (''invalid value for flag -'' @ name))
                        | None \<Rightarrow>
                            (case args of
                               [] \<Rightarrow> Inl (ErrFlag (''flag needs an argument: -'' @ name))
                             | v # rest \<Rightarrow> if accepts l v then parse_flags lib rest f
                                 else Inl (ErrFlag (''invalid value for flag -'' @ name))))))))"

subsection \<open>The process\<close>

record ManagerOptions =
  opt_MetricsBindAddress :: string
  opt_HealthProbeBindAddress :: string
  opt_LeaderElection :: bool
  opt_LeaderElectionID :: string

record Environment =
  Scheme_AddClientGo :: "go_error option"
  Scheme_AddServing :: "go_error option"
  Lib_Flags :: "string \<Rightarrow> lib_flag option"
  Config_Error :: "go_error option"
  New_Manager :: "ManagerOptions \<Rightarrow> go_error option"
  REST_Mapping :: "GroupVersionKind \<Rightarrow> go_error option"
  Builder_Complete :: "watch list \<Rightarrow> go_error option"
  Manager_Start :: "go_error option"

datatype event =
    ENewManager ManagerOptions
  | ESetup (setup_address: string)
  | EHealthz
  | EReadyz
  | EStart

datatype outcome = Returned | Exit nat | Panicked go_error

definition main_opts :: "Flags \<Rightarrow> ManagerOptions" where
  "main_opts f = \<lparr>opt_MetricsBindAddress = metricsAddr f, opt_HealthProbeBindAddress = probeAddr f,
     opt_LeaderElection = True, opt_LeaderElectionID = ''inference-platform.serving.platform.io''\<rparr>"

definition main :: "Environment \<Rightarrow> string list \<Rightarrow> outcome \<times> event list" where
  "main E args =
    (case parse_flags (Lib_Flags E) args default_flags of
       Inl ErrHelp \<Rightarrow> (Exit 0, [])
     | Inl (ErrFlag _) \<Rightarrow> (Exit 2, [])
     | Inr f \<Rightarrow>
         if Config_Error E \<noteq> None then (Exit 1, [])
         else
           let evs = [ENewManager (main_opts f)] in
           if New_Manager E (main_opts f) \<noteq> None then (Exit 1, evs)
           else
             let evs = evs @ [ESetup (prometheusAddr f)] in
             if SetupWithManager (REST_Mapping E) (Builder_Complete E) \<noteq> None then (Exit 1, evs)
             else
               let evs = evs @ [EHealthz, EReadyz, EStart] in
               if Manager_Start E \<noteq> None then (Exit 1, evs) else (Returned, evs))"

text \<open>\<open>init\<close> runs before \<open>main\<close>: \<open>utilruntime.Must\<close> panics.\<close>

definition init_scheme :: "Environment \<Rightarrow> go_error option" where
  "init_scheme E = (case Scheme_AddClientGo E of Some e \<Rightarrow> Some e | None \<Rightarrow> Scheme_AddServing E)"

definition program :: "Environment \<Rightarrow> string list \<Rightarrow> outcome \<times> event list" where
  "program E args = (case init_scheme E of Some e \<Rightarrow> (Panicked e, []) | None \<Rightarrow> main E args)"

subsection \<open>What the flags say\<close>

definition flag_names :: "string list" where
  "flag_names = [''metrics-bind-address'', ''health-probe-bind-address'', ''prometheus-address'']"

definition flag_arg :: "string \<times> string \<Rightarrow> string" where
  "flag_arg nv = ''--'' @ fst nv @ ''='' @ snd nv"

definition set_flag :: "string \<times> string \<Rightarrow> Flags \<Rightarrow> Flags" where
  "set_flag nv f = (case StringVar (fst nv) of Some assign \<Rightarrow> assign (snd nv) f | None \<Rightarrow> f)"

text \<open>The value a command line gives a flag: the last one named, else the default.\<close>

definition given :: "string \<Rightarrow> string \<Rightarrow> (string \<times> string) list \<Rightarrow> string" where
  "given d name nvs = (case map_of (rev nvs) name of Some v \<Rightarrow> v | None \<Rightarrow> d)"

lemma parse_flag_arg:
  assumes "n \<in> set flag_names"
  shows "parse_flags lib (flag_arg (n, v) # args) f = parse_flags lib args (set_flag (n, v) f)"
  using assms
  by (auto simp: flag_names_def flag_arg_def split_value_def set_flag_def StringVar_def)

lemma parse_flag_args:
  assumes "set (map fst nvs) \<subseteq> set flag_names"
  shows "parse_flags lib (map flag_arg nvs) f = Inr (fold set_flag nvs f)"
  using assms
proof (induction nvs arbitrary: f)
  case (Cons nv nvs)
  then show ?case
    using parse_flag_arg [of "fst nv" lib "snd nv" "map flag_arg nvs" f] by simp
qed simp

lemma given_snoc: "given d n (nvs @ [(m, v)]) = (if n = m then v else given d n nvs)"
  by (simp add: given_def)

lemma fold_set_flag:
  "fold set_flag nvs f = \<lparr>metricsAddr = given (metricsAddr f) ''metrics-bind-address'' nvs,
     probeAddr = given (probeAddr f) ''health-probe-bind-address'' nvs,
     prometheusAddr = given (prometheusAddr f) ''prometheus-address'' nvs\<rparr>"
proof (induction nvs rule: rev_induct)
  case (snoc nv nvs)
  then show ?case by (cases nv) (simp add: set_flag_def StringVar_def given_snoc)
qed (simp add: given_def)

subsection \<open>The order of events\<close>

lemma main_runs:
  assumes "parse_flags (Lib_Flags E) args default_flags = Inr f"
  shows "main E args =
    (if Config_Error E \<noteq> None then (Exit 1, [])
     else if New_Manager E (main_opts f) \<noteq> None then (Exit 1, [ENewManager (main_opts f)])
     else if Builder_Complete E (watched (REST_Mapping E)) \<noteq> None
       then (Exit 1, [ENewManager (main_opts f), ESetup (prometheusAddr f)])
     else (if Manager_Start E = None then Returned else Exit 1,
       [ENewManager (main_opts f), ESetup (prometheusAddr f), EHealthz, EReadyz, EStart]))"
  by (simp add: main_def assms SetupWithManager_watched)

lemma program_runs:
  obtains (stopped) "snd (program E args) = []" "fst (program E args) \<noteq> Returned"
  | (parsed) f where "parse_flags (Lib_Flags E) args default_flags = Inr f"
      "init_scheme E = None" "program E args = main E args"
proof (cases "init_scheme E")
  case (Some e)
  then show ?thesis by (intro stopped) (simp_all add: program_def)
next
  case None
  show ?thesis
  proof (cases "parse_flags (Lib_Flags E) args default_flags")
    case (Inl e)
    with None show ?thesis by (intro stopped) (cases e; simp add: program_def main_def)+
  next
    case (Inr f)
    with None show ?thesis by (intro parsed) (simp_all add: program_def)
  qed
qed

lemma setup_event:
  assumes "ESetup addr \<in> set (snd (program E args))"
  obtains f where "parse_flags (Lib_Flags E) args default_flags = Inr f" "addr = prometheusAddr f"
  using assms by (cases rule: program_runs [of E args]) (auto simp: main_runs split: if_splits)

lemma start_event:
  assumes "EStart \<in> set (snd (program E args))"
  obtains f where "parse_flags (Lib_Flags E) args default_flags = Inr f"
    "Builder_Complete E (watched (REST_Mapping E)) = None" "New_Manager E (main_opts f) = None"
    "program E args = (if Manager_Start E = None then Returned else Exit 1,
      [ENewManager (main_opts f), ESetup (prometheusAddr f), EHealthz, EReadyz, EStart])"
  using assms by (cases rule: program_runs [of E args]) (auto simp: main_runs split: if_splits)

lemma returned_started:
  assumes "fst (program E args) = Returned"
  shows "EStart \<in> set (snd (program E args)) \<and> Manager_Start E = None"
  using assms by (cases rule: program_runs [of E args]) (auto simp: main_runs split: if_splits)

end
