(* ===== verification/Contracts.thy ===== *)
theory Contracts
  imports Discipline
begin

section \<open>The contracts of the platform, and what a pass achieves under them\<close>

text \<open>
  What the operator relies on of code outside this repository, as locales over the \<open>Platform\<close>
  record: \<open>condition_setter\<close> is the documented behaviour of \<open>meta.SetStatusCondition\<close>,
  \<open>server_side_apply\<close> the rules of server-side apply and of field ownership for the one field two
  controllers want, a Deployment's \<open>replicas\<close>. The lemmas proved inside them are about the
  operator's own handlers. Theory \<open>Cluster\<close> interprets both.
\<close>

subsection \<open>Status conditions\<close>

definition find_condition :: "string \<Rightarrow> Condition list \<Rightarrow> Condition option" where
  "find_condition t cs = find (\<lambda>c. cond_Type c = t) cs"

text \<open>
  The conditions as a reader of the status sees them, a map keyed by the type; the transition time
  is the platform's.
\<close>

definition report :: "Condition list \<Rightarrow> string \<rightharpoonup> ConditionStatus \<times> string \<times> string" where
  "report cs t = map_option (\<lambda>c. (cond_Status c, cond_Reason c, cond_Message c)) (find_condition t cs)"

locale condition_setter =
  fixes set_cond :: "Condition \<Rightarrow> Condition list \<Rightarrow> 'w \<Rightarrow> Condition list \<times> 'w"
  assumes sets: "set_cond c cs w = (cs', w') \<Longrightarrow>
      \<exists>t. find_condition (cond_Type c) cs' = Some (c\<lparr>cond_LastTransitionTime := t\<rparr>)"
    and others: "set_cond c cs w = (cs', w') \<Longrightarrow> ty \<noteq> cond_Type c \<Longrightarrow>
      find_condition ty cs' = find_condition ty cs"
    and types: "set_cond c cs w = (cs', w') \<Longrightarrow>
      map cond_Type cs' = (if cond_Type c \<in> set (map cond_Type cs) then map cond_Type cs
                           else map cond_Type cs @ [cond_Type c])"
begin

lemma set_report:
  assumes "set_cond c cs w = (cs', w')"
  shows "report cs' = (report cs)(cond_Type c \<mapsto> (cond_Status c, cond_Reason c, cond_Message c))"
proof
  fix t
  show "report cs' t = ((report cs)(cond_Type c \<mapsto> (cond_Status c, cond_Reason c, cond_Message c))) t"
    using sets [OF assms] others [OF assms, of t] by (auto simp: report_def)
qed

text \<open>The condition types stay distinct: the list is a map keyed by type, as the CRD declares it.\<close>

lemma set_distinct:
  assumes "set_cond c cs w = (cs', w')" and "distinct (map cond_Type cs)"
  shows "distinct (map cond_Type cs')"
  using types [OF assms(1)] assms(2) by simp

end

subsection \<open>Server-side apply and the replica count\<close>

text \<open>
  \<open>view w k\<close> is the replica count of the Deployment \<open>k\<close> with the managers that own the field, or
  nothing when there is no such Deployment. Applying a configuration without the field releases it
  and resets it to one when no other manager owned it; applying it with the field, unforced, takes
  a share of it and fails on a different value owned by another manager.
\<close>

fun applied_replicas :: "apply_config \<Rightarrow> int32 option" where
  "applied_replicas (AC_Deployment d) = ds_Replicas (dp_Spec d)"
| "applied_replicas _ = None"

definition release :: "string \<Rightarrow> (int32 \<times> string list) \<Rightarrow> (int32 \<times> string list)" where
  "release m = (\<lambda>(n, own). if own \<noteq> [] \<and> set own \<subseteq> {m} then (1, []) else (n, removeAll m own))"

text \<open>
  Two relations between the worlds before and after, for the counts the operator does not own: each
  is kept, or each is kept or its Deployment is gone.
\<close>

definition keeps :: "('w \<Rightarrow> NamespacedName \<Rightarrow> (int32 \<times> string list) option) \<Rightarrow> 'w \<Rightarrow> 'w \<Rightarrow> bool" where
  "keeps view w w' \<longleftrightarrow> (\<forall>k n own. view w k = Some (n, own) \<and> FieldOwner \<notin> set own \<longrightarrow>
     (\<exists>own'. view w' k = Some (n, own') \<and> FieldOwner \<notin> set own'))"

definition keeps_or_gone ::
  "('w \<Rightarrow> NamespacedName \<Rightarrow> (int32 \<times> string list) option) \<Rightarrow> 'w \<Rightarrow> 'w \<Rightarrow> bool" where
  "keeps_or_gone view w w' \<longleftrightarrow> (\<forall>k n own. view w k = Some (n, own) \<and> FieldOwner \<notin> set own \<longrightarrow>
     view w' k = None \<or> (\<exists>own'. view w' k = Some (n, own') \<and> FieldOwner \<notin> set own'))"

definition kept :: "('w \<Rightarrow> NamespacedName \<Rightarrow> (int32 \<times> string list) option) \<Rightarrow> 'w pass \<Rightarrow> 'w pass \<Rightarrow> bool" where
  "kept view s t \<longleftrightarrow> keeps view (world s) (world t)"

text \<open>The operator's field manager owns no replica count.\<close>

definition unowned :: "('w \<Rightarrow> NamespacedName \<Rightarrow> (int32 \<times> string list) option) \<Rightarrow> 'w \<Rightarrow> bool" where
  "unowned view w \<longleftrightarrow> (\<forall>k n own. view w k = Some (n, own) \<longrightarrow> FieldOwner \<notin> set own)"

lemma unownedD: "unowned view w \<Longrightarrow> view w k = Some (n, own) \<Longrightarrow> FieldOwner \<notin> set own"
  by (cases k) (auto simp: unowned_def)

lemma owners_differ [simp]: "initialReplicasOwner \<noteq> FieldOwner" "FieldOwner \<noteq> initialReplicasOwner"
  by (simp_all add: initialReplicasOwner_def FieldOwner_def)

text \<open>The count a new Deployment starts with, owned by the manager that set it.\<close>

definition starts_with :: "int32 \<Rightarrow> (int32 \<times> string list) option \<Rightarrow> bool" where
  "starts_with n v \<longleftrightarrow> (\<exists>own. v = Some (n, own) \<and> initialReplicasOwner \<in> set own \<and> FieldOwner \<notin> set own)"

text \<open>What a pass does to them: it keeps them all unless it ended in an error or to recreate.\<close>

definition pass_keeps ::
  "('w \<Rightarrow> NamespacedName \<Rightarrow> (int32 \<times> string list) option) \<Rightarrow> 'w \<Rightarrow> Result \<times> go_error option \<Rightarrow> 'w \<Rightarrow> bool" where
  "pass_keeps view w out w' \<longleftrightarrow> keeps_or_gone view w w' \<and>
     (snd out = None \<and> fst out \<noteq> Result 5 \<longrightarrow> keeps view w w')"

lemma keepsD: "keeps view w w' \<Longrightarrow> view w k = Some (n, own) \<Longrightarrow> FieldOwner \<notin> set own \<Longrightarrow>
    \<exists>own'. view w' k = Some (n, own') \<and> FieldOwner \<notin> set own'"
  unfolding keeps_def by blast

lemma pass_keepsD: "pass_keeps view w (r, None) w' \<Longrightarrow> r \<noteq> Result 5 \<Longrightarrow> keeps view w w'"
  by (simp add: pass_keeps_def)

lemma keeps_same: "view w' = view w \<Longrightarrow> keeps view w w'"
  by (auto simp: keeps_def)

lemma keeps_trans: "keeps view u v \<Longrightarrow> keeps view v w \<Longrightarrow> keeps view u w"
  unfolding keeps_def by metis

lemma keeps_gone_trans: "keeps view u v \<Longrightarrow> keeps_or_gone view v w \<Longrightarrow> keeps_or_gone view u w"
  unfolding keeps_def keeps_or_gone_def by metis

lemma keeps_weaken: "keeps view u v \<Longrightarrow> keeps_or_gone view u v"
  unfolding keeps_def keeps_or_gone_def by blast

locale server_side_apply =
  fixes P :: "'w Platform" and view :: "'w \<Rightarrow> NamespacedName \<Rightarrow> (int32 \<times> string list) option"
  assumes get_isvc_view: "view (snd (Get_InferenceService P k w)) = view w"
    and get_deployment_view: "view (snd (Get_Deployment P k w)) = view w"
    and get_unstructured_view: "view (snd (Get_Unstructured P g k w)) = view w"
    and get_meta_view: "view (snd (Get_Meta P kd k w)) = view w"
    and list_view: "view (snd (List_Pods P ns sel w)) = view w"
    and update_status_view: "view (snd (Update_Status P svc w)) = view w"
    and set_condition_view: "view (snd (SetStatusCondition P c cs w)) = view w"
    and get_missing: "Get_Deployment P k w = (Inl e, w') \<Longrightarrow> IsNotFound e \<Longrightarrow> view w k = None"
    and get_found: "Get_Deployment P k w = (Inr d, w') \<Longrightarrow> (Namespace d, Name d) = k \<and> view w k \<noteq> None"
    and apply_failed: "Apply_Config P a m f w = (Some e, w') \<Longrightarrow> view w' = view w"
    and apply_other: "fst (ac_key a) \<noteq> KDeployment \<Longrightarrow> view (snd (Apply_Config P a m f w)) = view w"
    and apply_elsewhere: "ac_key a \<noteq> (KDeployment, k) \<Longrightarrow> view (snd (Apply_Config P a m f w)) k = view w k"
    and apply_without: "Apply_Config P a m f w = (None, w') \<Longrightarrow> ac_key a = (KDeployment, k) \<Longrightarrow>
      applied_replicas a = None \<Longrightarrow>
      view w' k = Some (case view w k of None \<Rightarrow> (1, []) | Some v \<Rightarrow> release m v)"
    and apply_with: "Apply_Config P a m False w = (None, w') \<Longrightarrow> ac_key a = (KDeployment, k) \<Longrightarrow>
      applied_replicas a = Some n \<Longrightarrow> view w k = Some (n0, own) \<Longrightarrow>
      (\<exists>own'. view w' k = Some (n, own') \<and> set own' = insert m (set own)) \<and>
      (set own \<subseteq> {m} \<or> n = n0)"
    and apply_with_new: "Apply_Config P a m f w = (None, w') \<Longrightarrow> ac_key a = (KDeployment, k) \<Longrightarrow>
      applied_replicas a = Some n \<Longrightarrow> view w k = None \<Longrightarrow> view w' k = Some (n, [m])"
    and delete_other: "kd \<noteq> KDeployment \<Longrightarrow> view (snd (Delete_Object P kd k p w)) = view w"
    and delete_view: "view (snd (Delete_Object P KDeployment k p w)) k \<in> {None, view w k}"
    and delete_elsewhere: "k' \<noteq> k \<Longrightarrow> view (snd (Delete_Object P KDeployment k p w)) k' = view w k'"
begin

text \<open>An apply of the operator that leaves replicas out keeps every count it does not own.\<close>

lemma apply_keeps:
  assumes ap: "Apply_Config P a FieldOwner f w = (e, w')" and none: "applied_replicas a = None"
  shows "keeps view w w'"
proof (cases "e = None \<and> fst (ac_key a) = KDeployment")
  case False
  then have "view w' = view w"
    using ap apply_failed [of a FieldOwner f w] apply_other [of a FieldOwner f w]
    by (cases e) (auto dest: arg_cong [where f = snd])
  then show ?thesis by (rule keeps_same)
next
  case True
  then obtain k where key: "ac_key a = (KDeployment, k)" by (cases "ac_key a") auto
  have at_k: "view w' k = Some (case view w k of None \<Rightarrow> (1, []) | Some v \<Rightarrow> release FieldOwner v)"
    using apply_without [OF _ key none] ap True by blast
  have elsewhere: "view w' k' = view w k'" if "k' \<noteq> k" for k'
    using apply_elsewhere [of a k' FieldOwner f w] key ap that by simp
  show ?thesis
    unfolding keeps_def
  proof (intro allI impI, elim conjE)
    fix k' n own
    assume v: "view w k' = Some (n, own)" and own: "FieldOwner \<notin> set own"
    show "\<exists>own'. view w' k' = Some (n, own') \<and> FieldOwner \<notin> set own'"
    proof (cases "k' = k")
      case False
      with v own elsewhere show ?thesis by simp
    next
      case True
      have "\<not> (own \<noteq> [] \<and> set own \<subseteq> {FieldOwner})" using own by (cases own) auto
      with True v own at_k show ?thesis by (auto simp: release_def)
    qed
  qed
qed

lemma desired_no_replicas [simp]:
  "applied_replicas (AC_Deployment (desiredDeployment svc)) = None"
  "applied_replicas (AC_Deployment (initialReplicas svc)) = Some (MinReplicas (Autoscaling (Spec svc)))"
  by simp_all

text \<open>The world after a call, in the two shapes the weakest preconditions leave.\<close>

lemma call_keeps:
  "Get_Deployment P k w = (r, w') \<Longrightarrow> keeps view w w'"
  "Get_Unstructured P g k w = (ru, w') \<Longrightarrow> keeps view w w'"
  "Get_Meta P kd k w = (rm, w') \<Longrightarrow> keeps view w w'"
  "Get_InferenceService P k w = (ri, w') \<Longrightarrow> keeps view w w'"
  "List_Pods P ns sel w = (rl, w') \<Longrightarrow> keeps view w w'"
  "Update_Status P svc w = (e, w') \<Longrightarrow> keeps view w w'"
  "SetStatusCondition P c cs w = (cs', w') \<Longrightarrow> keeps view w w'"
  "kd \<noteq> KDeployment \<Longrightarrow> Delete_Object P kd k p w = (e, w') \<Longrightarrow> keeps view w w'"
  using get_deployment_view [of k w] get_unstructured_view [of g k w] get_meta_view [of kd k w]
    get_isvc_view [of k w] list_view [of ns sel w] update_status_view [of svc w]
    set_condition_view [of c cs w] delete_other [of kd k p w]
  by (auto intro!: keeps_same)

lemma keeps_refl [simp]: "keeps view w w"
  by (rule keeps_same) simp

text \<open>Every handler but the Deployment's leaves the counts alone altogether.\<close>

lemma call_view:
  "Get_Deployment P k w = (r, w') \<Longrightarrow> view w' = view w"
  "Get_Unstructured P g k w = (ru, w') \<Longrightarrow> view w' = view w"
  "Get_Meta P kd k w = (rm, w') \<Longrightarrow> view w' = view w"
  "Get_InferenceService P k w = (ri, w') \<Longrightarrow> view w' = view w"
  "List_Pods P ns sel w = (rl, w') \<Longrightarrow> view w' = view w"
  "Update_Status P svc w = (e, w') \<Longrightarrow> view w' = view w"
  "SetStatusCondition P c cs w = (cs', w') \<Longrightarrow> view w' = view w"
  "Apply_Config P a m f w = (e, w') \<Longrightarrow> fst (ac_key a) \<noteq> KDeployment \<Longrightarrow> view w' = view w"
  "Delete_Object P kd k p w = (e, w') \<Longrightarrow> kd \<noteq> KDeployment \<Longrightarrow> view w' = view w"
  using get_deployment_view [of k w] get_unstructured_view [of g k w] get_meta_view [of kd k w]
    get_isvc_view [of k w] list_view [of ns sel w] update_status_view [of svc w]
    set_condition_view [of c cs w] delete_other [of kd k p w] apply_other [of a m f w]
  by simp_all

lemma handlers_view:
  "wp (reconcileClaimTemplate P svc) (\<lambda>_ t. view (world t) = view (world s)) s"
  "wp (reconcileService P svc) (\<lambda>_ t. view (world t) = view (world s)) s"
  "wp (reconcileAutoscaling P addr svc) (\<lambda>_ t. view (world t) = view (world s)) s"
  "wp (reconcileRouting P svc) (\<lambda>_ t. view (world t) = view (world s)) s"
  "wp (reportStatus P svc d) (\<lambda>_ t. view (world t) = view (world s)) s"
  by (auto simp: reconcileClaimTemplate_def reconcileService_def reconcileAutoscaling_def
      deleteUnstructuredIfOwned_def deleteIfOwned_def reconcileRouting_def reportStatus_def podTrouble_def
      client_ops wp_simps call_view
      split: option.split sum.split prod.split ConditionStatus.split)

lemma applyDeployment_keeps: "wp (applyDeployment P svc) (\<lambda>_ t. keeps view (world s) (world t)) s"
  by (auto simp: applyDeployment_def client_ops wp_simps split: prod.split option.split sum.split
      dest!: apply_keeps call_keeps intro: keeps_trans)

text \<open>The one apply that carries replicas, on a Deployment that was missing when the pass looked.\<close>

lemma apply_initial:
  assumes missing: "view w (svc_key svc) = None" and "keeps view w w1"
    and ap: "Apply_Config P (AC_Deployment (initialReplicas svc)) m f w1 = (e, w2)"
  shows "keeps view w w2"
  unfolding keeps_def
proof (intro allI impI, elim conjE)
  fix k n own
  assume v: "view w k = Some (n, own)" and own: "FieldOwner \<notin> set own"
  with missing have "ac_key (AC_Deployment (initialReplicas svc)) \<noteq> (KDeployment, k)"
    by (auto simp only: initialReplicas_key)
  then have "view w2 k = view w1 k"
    using apply_elsewhere [of "AC_Deployment (initialReplicas svc)" k m f w1] ap by auto
  with \<open>keeps view w w1\<close> v own show "\<exists>own'. view w2 k = Some (n, own') \<and> FieldOwner \<notin> set own'"
    unfolding keeps_def by metis
qed

lemma createDeployment_keeps:
  assumes "view (world s) (svc_key svc) = None"
  shows "wp (createDeployment P svc) (\<lambda>_ t. keeps view (world s) (world t)) s"
  using assms
  by (auto simp: createDeployment_def client_ops wp_simps split: prod.split option.split
      dest!: apply_keeps intro: apply_initial)

lemma delete_keeps_or_gone:
  assumes "Delete_Object P KDeployment k p w = (e, w')"
  shows "keeps_or_gone view w w'"
  unfolding keeps_or_gone_def
proof (intro allI impI, elim conjE)
  fix k' n own
  assume "view w k' = Some (n, own)" and "FieldOwner \<notin> set own"
  with delete_view [of k p w] delete_elsewhere [of k' k p w] assms
  show "view w' k' = None \<or> (\<exists>own'. view w' k' = Some (n, own') \<and> FieldOwner \<notin> set own')"
    by (cases "k' = k") auto
qed

lemma reconcileDeployment_keeps:
  "wp (reconcileDeployment P svc) (\<lambda>(d, requeue, err) t.
     if err \<noteq> None \<or> requeue then keeps_or_gone view (world s) (world t)
     else keeps view (world s) (world t)) s"
proof -
  let ?K = "\<lambda>t. keeps view (world s) (world t)"
  let ?Q = "\<lambda>(d :: Deployment option, requeue, err :: go_error option) t.
    if err \<noteq> None \<or> requeue then keeps_or_gone view (world s) (world t) else ?K t"
  have weaken: "?K t \<Longrightarrow> ?Q x t" for x t by (auto intro: keeps_weaken split: prod.split)
  have applied: "wp (applyDeployment P svc) ?Q t" if "?K t" for t
    by (rule wp_mono [OF applyDeployment_keeps], rule weaken, rule keeps_trans [OF that])
  have created: "wp (createDeployment P svc) (\<lambda>e u.
      wp (case e of Some err \<Rightarrow> State_Monad.return (None, False, Some err) | None \<Rightarrow> applyDeployment P svc) ?Q u) t"
    if "view (world t) (svc_key svc) = None" "?K t" for t
  proof (rule wp_mono [OF createDeployment_keeps [OF that(1)]])
    fix e and u :: "'w pass"
    assume "keeps view (world t) (world u)"
    with that(2) have "?K u" by (rule keeps_trans)
    then show "wp (case e of Some err \<Rightarrow> State_Monad.return (None, False, Some err)
        | None \<Rightarrow> applyDeployment P svc) ?Q u"
      using applied [of u] by (cases e) (simp_all add: wp_return keeps_weaken)
  qed
  obtain r w1 where got: "Get_Deployment P (svc_key svc) (world s) = (r, w1)" by fastforce
  define t where "t = s\<lparr>world := w1, calls := calls s @ [CGetDeployment (svc_key svc) r]\<rparr>"
  have kt: "?K t" using call_keeps(1) [OF got] by (simp add: t_def)
  have same: "view (world t) = view (world s)" using get_deployment_view [of "svc_key svc" "world s"] got
    by (simp add: t_def)
  have "wp (case r of
       Inl err \<Rightarrow>
         if IsNotFound err then do {
           e \<leftarrow> createDeployment P svc;
           case e of
             Some err \<Rightarrow> State_Monad.return (None, False, Some err)
           | None \<Rightarrow> applyDeployment P svc
         }
         else State_Monad.return (None, False, Some err)
     | Inr current \<Rightarrow>
         if DeletionTimestamp current \<noteq> None then State_Monad.return (None, True, None)
         else if outdated_selector svc current then do {
           condition P svc CondReady ConditionFalse ''RecreatingDeployment''
             ''deployment selector changed; the deployment is being recreated'';
           e \<leftarrow> delete_object P KDeployment (Namespace current, Name current) PropagationBackground;
           State_Monad.return (None, True, IgnoreNotFound e)
         }
         else applyDeployment P svc) ?Q t"
  proof (cases r)
    case (Inl err)
    then show ?thesis
      using kt keeps_weaken [OF kt] created [of t] get_missing [of "svc_key svc" "world s" err w1] got same
      by (simp add: wp_simps)
  next
    case (Inr current)
    have "keeps_or_gone view (world s) w3"
      if "SetStatusCondition P c cs (world t) = (cs', w2)"
        and "Delete_Object P KDeployment k p w2 = (e, w3)" for c cs cs' w2 k p e w3
      using kt call_keeps(7) [OF that(1)] delete_keeps_or_gone [OF that(2)]
      by (blast intro: keeps_gone_trans keeps_trans)
    then show ?thesis
      using Inr kt keeps_weaken [OF kt] applied [of t]
      by (auto simp: wp_simps condition_def delete_object_def split: prod.split)
  qed
  then show ?thesis
    by (simp add: reconcileDeployment_def get_deployment_def wp_bind wp_client_call got t_def)
qed

text \<open>Each handler, started where the counts are still kept.\<close>

lemma pass_keepsI: "keeps view w w' \<Longrightarrow> pass_keeps view w out w'"
  by (simp add: pass_keeps_def keeps_weaken)

lemma kept_or_ends:
  assumes "wp m (\<lambda>_ u. view (world u) = view (world t)) t" and "kept view s t"
  shows "wp m (\<lambda>e u. case e of None \<Rightarrow> kept view s u
    | Some err \<Rightarrow> pass_keeps view (world s) (Result 0, Some err) (world u)) t"
  using assms(2) by (intro wp_mono [OF assms(1)])
    (auto simp: kept_def keeps_def intro!: pass_keepsI split: option.split)

lemma reconcile_keeps:
  "wp (reconcile P addr svc) (\<lambda>out t. pass_keeps view (world s) out (world t)) s"
proof (rule reconcile_rule [where ?A0.0 = "kept view s" and ?A1.0 = "kept view s"
      and ?A2.0 = "\<lambda>_. kept view s" and ?A3.0 = "\<lambda>_. kept view s" and ?A4.0 = "\<lambda>_. kept view s"
      and ?A5.0 = "\<lambda>_. kept view s"])
  fix t assume k: "kept view s t"
  then show "wp (reconcileDeployment P svc)
      (\<lambda>(d, requeue, err) u. if err \<noteq> None \<or> requeue then pass_keeps view (world s) (Result 5, err) (world u)
         else kept view s u) t"
    by (intro wp_mono [OF reconcileDeployment_keeps])
      (auto simp: kept_def pass_keeps_def intro: keeps_gone_trans keeps_trans split: if_splits)
  fix d
  show "wp (reportStatus P svc d) (\<lambda>out u. pass_keeps view (world s) out (world u)) t"
    using k by (intro wp_mono [OF handlers_view(5)]) (auto simp: kept_def keeps_def intro!: pass_keepsI)
qed (auto simp: kept_def dest!: call_keeps intro: pass_keepsI kept_or_ends [OF handlers_view(1)]
    kept_or_ends [OF handlers_view(2)] kept_or_ends [OF handlers_view(3)] kept_or_ends [OF handlers_view(4)])

text \<open>A whole pass, status update included.\<close>

lemma pass_keeps_start:
  assumes got: "Get_InferenceService P req w = (Inr svc, w1)"
  shows "pass_keeps view w (pass_outcome P addr req w) (pass_world P addr req w)"
proof (rule pass_of_reconcile [OF got reconcile_keeps])
  fix r err t serr
  assume k: "pass_keeps view (world (started req svc w1)) (r, err) (world t)"
    and out: "pass_outcome P addr req w = (if err = None \<and> serr \<noteq> None then (Result 0, serr) else (r, err))"
    and "pass_world P addr req w = world t \<or>
      (\<exists>svc'. pass_world P addr req w = snd (Update_Status P svc' (world t)))"
  then have "view (pass_world P addr req w) = view (world t)" using update_status_view by auto
  moreover have "view w1 = view w" by (rule call_view(4) [OF got])
  ultimately show ?thesis
    using k out by (auto simp: pass_keeps_def keeps_def keeps_or_gone_def)
qed

lemma pass_keeps_or_gone: "keeps_or_gone view w (pass_world P addr req w)"
proof (cases "Get_InferenceService P req w")
  case (Pair r w1)
  show ?thesis
  proof (cases r)
    case (Inr svc)
    with Pair pass_keeps_start [of req w svc w1 addr] show ?thesis by (simp add: pass_keeps_def)
  next
    case (Inl e)
    with Pair have "pass_world P addr req w = w1"
      by (simp add: pass_world_def Reconcile_def get_isvc_def client_call_def start_def
          State_Monad.bind_def State_Monad.return_def)
    with call_keeps(4) [of req w r w1] Pair show ?thesis by (simp add: keeps_weaken)
  qed
qed

subsubsection \<open>No handler makes the operator an owner of a count\<close>

lemma apply_unowned:
  assumes ap: "Apply_Config P a FieldOwner f w = (e, w')" and none: "applied_replicas a = None"
    and u: "unowned view w"
  shows "unowned view w'"
  unfolding unowned_def
proof (intro allI impI)
  fix k n own
  assume v: "view w' k = Some (n, own)"
  show "FieldOwner \<notin> set own"
  proof (cases "e = None \<and> ac_key a = (KDeployment, k)")
    case True
    then have "view w' k = Some (case view w k of None \<Rightarrow> (1, []) | Some v \<Rightarrow> release FieldOwner v)"
      using apply_without [OF _ _ none] ap by blast
    with v u show ?thesis by (auto simp: release_def dest: unownedD split: option.splits prod.splits if_splits)
  next
    case False
    then have "view w' k = view w k"
      using ap apply_elsewhere [of a k FieldOwner f w] apply_failed [of a FieldOwner f w]
      by (cases e) auto
    with v u show ?thesis by (auto dest: unownedD)
  qed
qed

lemma apply_initial_unowned:
  assumes ap: "Apply_Config P (AC_Deployment (initialReplicas svc)) initialReplicasOwner False w = (e, w')"
    and u: "unowned view w"
  shows "unowned view w'"
  unfolding unowned_def
proof (intro allI impI)
  let ?a = "AC_Deployment (initialReplicas svc)"
  fix k n own
  assume v: "view w' k = Some (n, own)"
  show "FieldOwner \<notin> set own"
  proof (cases "e = None \<and> k = svc_key svc")
    case True
    with ap have key: "ac_key ?a = (KDeployment, k)"
      and ap': "Apply_Config P ?a initialReplicasOwner False w = (None, w')"
      by (simp_all only: initialReplicas_key simp_thms)
    show ?thesis
    proof (cases "view w k")
      case None
      with apply_with_new [OF ap' key desired_no_replicas(2)] v show ?thesis by simp
    next
      case (Some v0)
      then obtain n0 own0 where *: "view w k = Some (n0, own0)" by (cases v0) simp
      with apply_with [OF ap' key desired_no_replicas(2) *] v u show ?thesis by (auto dest: unownedD)
    qed
  next
    case False
    then have "view w' k = view w k"
      using ap apply_elsewhere [of ?a k initialReplicasOwner False w] apply_failed [of ?a initialReplicasOwner False w]
      by (cases e) (auto simp: initialReplicas_key simp del: ac_key.simps)
    with v u show ?thesis by (auto dest: unownedD)
  qed
qed

lemma delete_unowned:
  assumes "Delete_Object P kd k p w = (e, w')" and "unowned view w"
  shows "unowned view w'"
proof (cases "kd = KDeployment")
  case False
  with delete_other [of kd k p w] assms show ?thesis by (simp add: unowned_def)
next
  case True
  show ?thesis
    unfolding unowned_def
  proof (intro allI impI)
    fix k' n own assume "view w' k' = Some (n, own)"
    moreover have "view w' k' \<in> {None, view w k'}"
      using True assms(1) delete_view [of k p w] delete_elsewhere [of k' k p w] by (cases "k' = k") auto
    ultimately show "FieldOwner \<notin> set own"
      using unownedD [OF assms(2), of k' n own] by auto
  qed
qed

lemma unowned_same: "view w' = view w \<Longrightarrow> unowned view w' = unowned view w"
  by (simp add: unowned_def)

lemma deployment_unowned:
  assumes "unowned view (world s)"
  shows "wp (createDeployment P svc) (\<lambda>_ t. unowned view (world t)) s"
    and "wp (applyDeployment P svc) (\<lambda>_ t. unowned view (world t)) s"
  using assms by (auto simp: createDeployment_def applyDeployment_def client_ops wp_simps
      unowned_same [OF call_view(1)] split: option.split sum.split prod.split
      dest: apply_unowned [OF _ desired_no_replicas(1)] apply_initial_unowned)

lemma reconcileDeployment_unowned:
  assumes "unowned view (world s)"
  shows "wp (reconcileDeployment P svc) (\<lambda>_ t. unowned view (world t)) s"
  using assms
  by (auto simp: reconcileDeployment_def client_ops wp_simps unowned_same [OF call_view(1)]
      unowned_same [OF call_view(7)] split: option.split sum.split prod.split intro: delete_unowned
      intro!: wp_mono [OF deployment_unowned(1)] deployment_unowned(2))

lemma still_unowned:
  assumes "wp m (\<lambda>_ u. view (world u) = view (world t)) t" and "unowned view (world t)"
  shows "wp m (\<lambda>_ u. unowned view (world u)) t"
  using assms(2) by (intro wp_mono [OF assms(1)]) (simp add: unowned_def)

lemma reconcile_unowned:
  assumes "unowned view (world s)"
  shows "wp (reconcile P addr svc) (\<lambda>_ t. unowned view (world t)) s"
proof -
  let ?U = "\<lambda>t. unowned view (world t)"
  have on: "wp m (\<lambda>e u. case e of None \<Rightarrow> ?U u | Some err \<Rightarrow> ?U u) t"
    if "wp m (\<lambda>_ u. view (world u) = view (world t)) t" "?U t"
    for t and m :: "('w pass, go_error option) state"
    by (rule wp_mono [OF still_unowned [OF that]]) (simp split: option.split)
  show ?thesis
  proof (rule reconcile_rule [where ?A0.0 = ?U and ?A1.0 = ?U and ?A2.0 = "\<lambda>_. ?U" and ?A3.0 = "\<lambda>_. ?U"
        and ?A4.0 = "\<lambda>_. ?U" and ?A5.0 = "\<lambda>_. ?U"])
    fix t :: "'w pass" and d assume u: "?U t"
    show "wp (reconcileDeployment P svc) (\<lambda>(d, requeue, err) u. if err \<noteq> None \<or> requeue then ?U u else ?U u) t"
      by (rule wp_mono [OF reconcileDeployment_unowned [OF u]]) simp
    show "wp (reportStatus P svc d) (\<lambda>_. ?U) t"
      by (rule still_unowned [OF handlers_view(5) u])
  qed (use assms in \<open>auto simp: unowned_same [OF call_view(7)] intro: on handlers_view\<close>)
qed

lemma pass_unowned:
  assumes "unowned view w"
  shows "unowned view (pass_world P addr req w)"
proof -
  have body: "unowned view (world s) \<Longrightarrow> wp (reconcile P addr svc) (\<lambda>_ t. unowned view (world t)) s" for svc s
    by (rule reconcile_unowned)
  have "wp (Reconcile P addr req) (\<lambda>_ t. unowned view (world t)) (start w)"
    using assms unfolding Reconcile_def client_ops
    by (auto simp: wp_simps start_def unowned_same [OF call_view(4)] unowned_same [OF call_view(6)]
        split: prod.split sum.split intro!: wp_mono [OF body])
  then show ?thesis by (auto simp: pass_world_def dest: wp_pass)
qed

subsubsection \<open>The count a new Deployment starts with\<close>

lemma apply_desired_new:
  assumes "Apply_Config P (AC_Deployment (desiredDeployment svc)) FieldOwner True w = (None, w')"
    and "view w (svc_key svc) = None"
  shows "view w' (svc_key svc) = Some (1, [])"
  using apply_without [OF assms(1) _ desired_no_replicas(1), of "svc_key svc"] assms(2)
  by (simp add: desiredDeployment_eq svc_key_def)

lemma apply_initial_new:
  assumes "Apply_Config P (AC_Deployment (initialReplicas svc)) initialReplicasOwner False w = (None, w')"
    and "view w (svc_key svc) = Some (1, [])"
  shows "starts_with (MinReplicas (Autoscaling (Spec svc))) (view w' (svc_key svc))"
  using apply_with [OF assms(1) initialReplicas_key desired_no_replicas(2) assms(2)]
  by (auto simp: starts_with_def)

lemma apply_desired_again:
  assumes "Apply_Config P (AC_Deployment (desiredDeployment svc)) FieldOwner True w = (None, w')"
    and "starts_with n (view w (svc_key svc))"
  shows "starts_with n (view w' (svc_key svc))"
proof -
  from assms(2) obtain own where v: "view w (svc_key svc) = Some (n, own)"
    and own: "initialReplicasOwner \<in> set own" "FieldOwner \<notin> set own"
    by (auto simp: starts_with_def)
  have "\<not> set own \<subseteq> {FieldOwner}" using own(1) by auto
  with own show ?thesis
    using apply_without [OF assms(1) _ desired_no_replicas(1), of "svc_key svc"] v
    by (simp add: desiredDeployment_eq svc_key_def starts_with_def release_def)
qed

lemma createDeployment_creates:
  assumes "view (world s) (svc_key svc) = None"
  shows "wp (createDeployment P svc) (\<lambda>e t. e = None \<longrightarrow>
    starts_with (MinReplicas (Autoscaling (Spec svc))) (view (world t) (svc_key svc))) s"
  using assms
  by (auto simp: createDeployment_def client_ops wp_simps split: option.split prod.split
      dest!: apply_initial_new [OF _ apply_desired_new])

lemma applyDeployment_starts_with:
  assumes "starts_with n (view (world s) (svc_key svc))"
  shows "wp (applyDeployment P svc) (\<lambda>(d, requeue, err) t. err = None \<longrightarrow>
    starts_with n (view (world t) (svc_key svc))) s"
  using assms
  by (auto simp: applyDeployment_def client_ops wp_simps call_view(1) split: option.split sum.split prod.split
      dest: apply_desired_again)

lemma reconcileDeployment_creates:
  assumes "view (world s) (svc_key svc) = None"
  shows "wp (reconcileDeployment P svc) (\<lambda>(d, requeue, err) t. err = None \<and> \<not> requeue \<longrightarrow>
    starts_with (MinReplicas (Autoscaling (Spec svc))) (view (world t) (svc_key svc))) s"
proof -
  let ?Q = "\<lambda>(d :: Deployment option, requeue, err) t. err = None \<and> \<not> requeue \<longrightarrow>
    starts_with (MinReplicas (Autoscaling (Spec svc))) (view (world t) (svc_key svc))"
  have created: "wp (createDeployment P svc) (\<lambda>e. wp (case e of
      Some err \<Rightarrow> State_Monad.return (None, False, Some err) | None \<Rightarrow> applyDeployment P svc) ?Q) t"
    if "view (world t) (svc_key svc) = None" for t
  proof (rule wp_mono [OF createDeployment_creates [OF that]])
    fix e :: "go_error option" and u :: "'w pass"
    assume s: "e = None \<longrightarrow> starts_with (MinReplicas (Autoscaling (Spec svc))) (view (world u) (svc_key svc))"
    show "wp (case e of Some err \<Rightarrow> State_Monad.return (None, False, Some err)
        | None \<Rightarrow> applyDeployment P svc) ?Q u"
    proof (cases e)
      case None
      with s have "starts_with (MinReplicas (Autoscaling (Spec svc))) (view (world u) (svc_key svc))" by simp
      from wp_mono [OF applyDeployment_starts_with [OF this], of ?Q] None show ?thesis by auto
    qed (simp add: wp_simps)
  qed
  obtain r w1 where got: "Get_Deployment P (svc_key svc) (world s) = (r, w1)" by fastforce
  with assms get_found [of "svc_key svc" "world s"] obtain err where r: "r = Inl err" by (cases r) auto
  show ?thesis
    using got created assms call_view(1) [OF got]
    by (auto simp: reconcileDeployment_def client_ops wp_simps r)
qed

lemma reconcile_creates:
  assumes "view (world s) (svc_key svc) = None"
  shows "wp (reconcile P addr svc) (\<lambda>out t. snd out = None \<and> policyViolation svc = [] \<and> fst out \<noteq> Result 5 \<longrightarrow>
    starts_with (MinReplicas (Autoscaling (Spec svc))) (view (world t) (svc_key svc))) s"
proof -
  let ?N = "\<lambda>t :: 'w pass. view (world t) (svc_key svc) = None"
  let ?S = "\<lambda>t :: 'w pass. starts_with (MinReplicas (Autoscaling (Spec svc))) (view (world t) (svc_key svc))"
  let ?Q = "\<lambda>out t. snd out = None \<and> policyViolation svc = [] \<and> fst out \<noteq> Result 5 \<longrightarrow> ?S t"
  have on: "wp m (\<lambda>e u. case e of None \<Rightarrow> R u | Some err \<Rightarrow> ?Q (Result 0, Some err) u) t"
    if "wp m (\<lambda>_ u. view (world u) = view (world t)) t" "\<And>u. view (world u) = view (world t) \<Longrightarrow> R u"
    for t R and m :: "('w pass, go_error option) state"
    by (rule wp_mono [OF that(1)]) (auto intro: that(2) split: option.split)
  show ?thesis
  proof (rule reconcile_rule [where ?A0.0 = ?N and ?A1.0 = ?N and ?A2.0 = "\<lambda>_. ?S" and ?A3.0 = "\<lambda>_. ?S"
        and ?A4.0 = "\<lambda>_. ?S" and ?A5.0 = "\<lambda>_. ?S"])
    fix t :: "'w pass" and d assume "?S t"
    then show "wp (reportStatus P svc d) ?Q t"
      by (intro wp_mono [OF handlers_view(5)]) auto
  next
    fix t :: "'w pass" assume n: "?N t"
    show "wp (reconcileDeployment P svc) (\<lambda>(d, requeue, err) u.
        if err \<noteq> None \<or> requeue then ?Q (Result 5, err) u else ?S u) t"
      by (rule wp_mono [OF reconcileDeployment_creates [OF n]]) auto
  qed (use assms in \<open>auto simp: call_view(7) intro!: on handlers_view\<close>)
qed

lemma pass_creates:
  assumes got: "Get_InferenceService P req w = (Inr svc, w1)" and "view w (svc_key svc) = None"
    and "policyViolation svc = []" and out: "pass_outcome P addr req w = (r, None)" and "r \<noteq> Result 5"
  shows "starts_with (MinReplicas (Autoscaling (Spec svc))) (view (pass_world P addr req w) (svc_key svc))"
proof -
  have new: "view (world (started req svc w1)) (svc_key svc) = None"
    using assms(2) call_view(4) [OF got] by simp
  show ?thesis
  proof (rule pass_of_reconcile [OF got reconcile_creates [OF new]])
    fix r' err t serr
    assume "snd (r', err) = None \<and> policyViolation svc = [] \<and> fst (r', err) \<noteq> Result 5 \<longrightarrow>
        starts_with (MinReplicas (Autoscaling (Spec svc))) (view (world t) (svc_key svc))"
      and "pass_outcome P addr req w = (if err = None \<and> serr \<noteq> None then (Result 0, serr) else (r', err))"
      and w: "pass_world P addr req w = world t \<or>
        (\<exists>svc'. pass_world P addr req w = snd (Update_Status P svc' (world t)))"
    with out assms(3,5) have "starts_with (MinReplicas (Autoscaling (Spec svc))) (view (world t) (svc_key svc))"
      by (auto split: if_splits)
    with w show ?thesis using update_status_view by auto
  qed
qed

end

end
