(* ===== verification/Outcome.thy ===== *)
theory Outcome
  imports Contracts
begin

section \<open>What a completed pass has achieved\<close>

text \<open>
  A pass that ends with the drift or the not-ready requeue and no error went through every handler.
  The contract of a handler that must succeed for the pass to go on is \<open>applying_step\<close>, which extends
  \<open>pass_step\<close>: when it succeeds, its objects have been applied. The second half is the status the
  pass reports, over the contract \<open>condition_setter\<close>.
\<close>

subsection \<open>Desired objects are applied\<close>

text \<open>
  An apply counts when the server accepted it, or when the kind is one of the add-ons and is not
  installed.
\<close>

definition settled :: "call list \<Rightarrow> apply_config \<Rightarrow> bool" where
  "settled log a \<longleftrightarrow> CApply a FieldOwner True None \<in> set log \<or>
     (\<exists>u e. a = AC_Unstructured u \<and> IsNoMatchError e \<and> CApply a FieldOwner True (Some e) \<in> set log)"

definition all_settled :: "apply_config list \<Rightarrow> call list \<Rightarrow> bool" where
  "all_settled as log \<longleftrightarrow> (\<forall>a \<in> set as. settled log a)"

lemma settled_mono: "settled log a \<Longrightarrow> set log \<subseteq> set log' \<Longrightarrow> settled log' a"
  by (auto simp: settled_def)

lemma all_settled_simps [simp]:
  "all_settled [] log"
  "all_settled (a # as) log \<longleftrightarrow> settled log a \<and> all_settled as log"
  "all_settled (as @ bs) log \<longleftrightarrow> all_settled as log \<and> all_settled bs log"
  by (auto simp: all_settled_def)

lemma all_settled_mono: "all_settled as log \<Longrightarrow> set log \<subseteq> set log' \<Longrightarrow> all_settled as log'"
  by (auto simp: all_settled_def intro: settled_mono)

locale applying_step = pass_step step needs
  for step :: "'w Platform \<Rightarrow> string \<Rightarrow> InferenceService \<Rightarrow> ('w pass, 'r) state"
    and needs :: "InferenceService \<Rightarrow> call list \<Rightarrow> bool" +
  fixes succeeds :: "'r \<Rightarrow> bool" and objects :: "InferenceService \<Rightarrow> string \<Rightarrow> apply_config list"
  assumes applies: "wp (step P addr svc)
    (\<lambda>r t. succeeds r \<longrightarrow> all_settled (objects svc addr) (calls t)) s"
begin

lemma applies_from:
  assumes pol: "policyViolation svc = []" and n: "needs svc (calls t)" and "all_settled as (calls t)"
  shows "wp (step P addr svc)
    (\<lambda>r u. succeeds r \<longrightarrow> all_settled (as @ objects svc addr) (calls u)) t"
proof (rule wp_mono [OF wp_conj [OF good [OF pol n, of P addr] applies]])
  fix r u
  assume *: "good_step P addr svc t u \<and>
    (succeeds r \<longrightarrow> all_settled (objects svc addr) (calls u))"
  then have "set (calls t) \<subseteq> set (calls u)" by (auto simp: good_step_def dest: extends_subset)
  with * assms(3) show "succeeds r \<longrightarrow> all_settled (as @ objects svc addr) (calls u)"
    by (auto intro: all_settled_mono)
qed

end

lemma reconcileDeployment_applies:
  "wp (reconcileDeployment P svc) (\<lambda>(d, requeue, err) t. err = None \<and> \<not> requeue \<longrightarrow>
     d \<noteq> None \<and> all_settled [AC_Deployment (desiredDeployment svc)] (calls t)) s"
  by (auto simp: reconcileDeployment_def createDeployment_def applyDeployment_def client_ops wp_simps
      settled_def split: option.split sum.split prod.split)

lemma reconcileClaimTemplate_applies:
  "wp (reconcileClaimTemplate P svc) (\<lambda>e t. e = None \<longrightarrow>
     all_settled (if claims_gpu svc then [AC_ResourceClaimTemplate (desiredClaimTemplate svc)] else [])
       (calls t)) s"
proof (cases "claims_gpu svc")
  case True
  then show ?thesis
    by (auto simp: reconcileClaimTemplate_def claims_gpu_def client_ops wp_simps settled_def split: prod.split)
next
  case False
  then show ?thesis by (simp add: wp_def split: prod.split)
qed

lemma reconcileService_applies:
  "wp (reconcileService P svc) (\<lambda>e t. e = None \<longrightarrow> all_settled [AC_Service (desiredService svc)] (calls t)) s"
  by (auto simp: reconcileService_def client_ops wp_simps settled_def split: prod.split)

lemma reconcileRouting_applies:
  "wp (reconcileRouting P svc) (\<lambda>e t. e = None \<longrightarrow>
     all_settled [AC_Unstructured (desiredInferencePool svc)] (calls t)) s"
  by (auto simp: reconcileRouting_def client_ops wp_simps settled_def split: option.split prod.split)

lemma reconcileAutoscaling_applies:
  "wp (reconcileAutoscaling P addr svc) (\<lambda>e t. e = None \<longrightarrow>
     all_settled (if Backend (Spec svc) = BackendOllama then []
       else [AC_Unstructured (desiredScaledObject svc addr)]) (calls t)) s"
proof (cases "Backend (Spec svc) = BackendOllama")
  case True
  then show ?thesis by (simp add: wp_def split: prod.split)
next
  case False
  then show ?thesis
    by (auto simp: reconcileAutoscaling_def client_ops wp_simps settled_def
        split: option.split sum.split prod.split ConditionStatus.split)
qed

interpretation deploys: applying_step "\<lambda>P addr svc. reconcileDeployment P svc" template_ready
  "\<lambda>(d, requeue, err). err = None \<and> \<not> requeue" "\<lambda>svc _. [AC_Deployment (desiredDeployment svc)]"
  by unfold_locales (rule wp_mono [OF reconcileDeployment_applies], auto)

interpretation claims: applying_step "\<lambda>P addr svc. reconcileClaimTemplate P svc" "\<lambda>_ _. True"
  "\<lambda>e. e = None"
  "\<lambda>svc _. if claims_gpu svc then [AC_ResourceClaimTemplate (desiredClaimTemplate svc)] else []"
  by unfold_locales (rule reconcileClaimTemplate_applies)

interpretation serves: applying_step "\<lambda>P addr svc. reconcileService P svc" "\<lambda>_ _. True"
  "\<lambda>e. e = None" "\<lambda>svc _. [AC_Service (desiredService svc)]"
  by unfold_locales (rule reconcileService_applies)

interpretation scales: applying_step reconcileAutoscaling "\<lambda>_ _. True" "\<lambda>e. e = None"
  "\<lambda>svc addr. if Backend (Spec svc) = BackendOllama then []
     else [AC_Unstructured (desiredScaledObject svc addr)]"
  by unfold_locales (rule reconcileAutoscaling_applies)

interpretation routes: applying_step "\<lambda>P addr svc. reconcileRouting P svc" "\<lambda>_ _. True"
  "\<lambda>e. e = None" "\<lambda>svc _. [AC_Unstructured (desiredInferencePool svc)]"
  by unfold_locales (rule reconcileRouting_applies)

text \<open>A pass is complete when it ends without error in one of the two steady requeues.\<close>

definition completed :: "Result \<times> go_error option \<Rightarrow> bool" where
  "completed = (\<lambda>(r, err). err = None \<and> RequeueAfter r \<in> {driftRequeue, notReadyRequeue})"

lemma not_completed [simp]:
  "\<not> completed (Result 0, err)" "\<not> completed (Result 5, err)" "\<not> completed (r, Some e)"
  by (simp_all add: completed_def driftRequeue_def notReadyRequeue_def)

definition claim_objects :: "InferenceService \<Rightarrow> apply_config list" where
  "claim_objects svc = (if claims_gpu svc then [AC_ResourceClaimTemplate (desiredClaimTemplate svc)] else [])"

definition scaler_objects :: "InferenceService \<Rightarrow> string \<Rightarrow> apply_config list" where
  "scaler_objects svc addr = (if Backend (Spec svc) = BackendOllama then []
     else [AC_Unstructured (desiredScaledObject svc addr)])"

lemma desired_objects_parts:
  "desired_objects svc addr = (((claim_objects svc @ [AC_Deployment (desiredDeployment svc)]) @
     [AC_Service (desiredService svc)]) @ scaler_objects svc addr) @ [AC_Unstructured (desiredInferencePool svc)]"
  by (simp add: desired_objects_def claim_objects_def scaler_objects_def)

lemma reportStatus_calls: "wp (reportStatus P svc d) (\<lambda>_ t. set (calls s) \<subseteq> set (calls t)) s"
  by (rule wp_mono [OF reportStatus_extends [where addr = "[]"]]) (rule extends_subset)

lemma goes_on:
  assumes "wp m (\<lambda>e u. e = None \<longrightarrow> R u) t"
  shows "wp m (\<lambda>e u. case e of None \<Rightarrow> R u | Some err \<Rightarrow> completed (Result 0, Some err) \<longrightarrow> S u) t"
  by (rule wp_mono [OF assms]) (simp split: option.split)

lemma reconcile_completes:
  "wp (reconcile P addr svc) (\<lambda>r t. completed r \<longrightarrow> all_settled (desired_objects svc addr) (calls t)) s"
proof -
  let ?c = "claim_objects svc"
  let ?d = "?c @ [AC_Deployment (desiredDeployment svc)]"
  let ?s = "?d @ [AC_Service (desiredService svc)]"
  let ?a = "?s @ scaler_objects svc addr"
  let ?r = "?a @ [AC_Unstructured (desiredInferencePool svc)]"
  let ?Q = "\<lambda>r t. completed r \<longrightarrow> all_settled (desired_objects svc addr) (calls t)"
  show ?thesis
  proof (rule reconcile_rule [where ?A0.0 = "\<lambda>_. True"
        and ?A1.0 = "\<lambda>t. template_ready svc (calls t) \<and> all_settled ?c (calls t)"
        and ?A2.0 = "\<lambda>_ t. all_settled ?d (calls t)" and ?A3.0 = "\<lambda>_ t. all_settled ?s (calls t)"
        and ?A4.0 = "\<lambda>_ t. all_settled ?a (calls t)" and ?A5.0 = "\<lambda>_ t. all_settled ?r (calls t)"])
    fix t :: "'a pass" assume pol: "policyViolation svc = []"
    show "wp (reconcileClaimTemplate P svc) (\<lambda>e u. case e of
        None \<Rightarrow> template_ready svc (calls u) \<and> all_settled ?c (calls u) | Some err \<Rightarrow> ?Q (Result 0, Some err) u) t"
      by (rule goes_on, rule wp_mono [OF wp_conj [OF reconcileClaimTemplate_good [OF pol, of P "[]"]
            reconcileClaimTemplate_applies]]) (simp add: claim_objects_def)
  next
    fix t :: "'a pass" assume pol: "policyViolation svc = []"
      and *: "template_ready svc (calls t) \<and> all_settled ?c (calls t)"
    show "wp (reconcileDeployment P svc) (\<lambda>(d, requeue, err) u.
        if err \<noteq> None \<or> requeue then ?Q (Result 5, err) u else all_settled ?d (calls u)) t"
      by (rule wp_mono [OF deploys.applies_from [OF pol conjunct1 [OF *] conjunct2 [OF *]]]) auto
  next
    fix t :: "'a pass" and d assume pol: "policyViolation svc = []" and *: "all_settled ?d (calls t)"
    show "wp (reconcileService P svc) (\<lambda>e u. case e of
        None \<Rightarrow> all_settled ?s (calls u) | Some err \<Rightarrow> ?Q (Result 0, Some err) u) t"
      by (rule goes_on, rule serves.applies_from [OF pol TrueI *])
  next
    fix t :: "'a pass" and d assume pol: "policyViolation svc = []" and *: "all_settled ?s (calls t)"
    show "wp (reconcileAutoscaling P addr svc) (\<lambda>e u. case e of
        None \<Rightarrow> all_settled ?a (calls u) | Some err \<Rightarrow> ?Q (Result 0, Some err) u) t"
      unfolding scaler_objects_def
      by (rule goes_on, rule scales.applies_from [OF pol TrueI *])
  next
    fix t :: "'a pass" and d assume pol: "policyViolation svc = []" and *: "all_settled ?a (calls t)"
    show "wp (reconcileRouting P svc) (\<lambda>e u. case e of
        None \<Rightarrow> all_settled ?r (calls u) | Some err \<Rightarrow> ?Q (Result 0, Some err) u) t"
      by (rule goes_on, rule routes.applies_from [OF pol TrueI *])
  next
    fix t :: "'a pass" and d assume *: "all_settled ?r (calls t)"
    show "wp (reportStatus P svc d) ?Q t"
      by (rule wp_mono [OF reportStatus_calls])
        (use * in \<open>auto simp only: desired_objects_parts intro: all_settled_mono\<close>)
  qed simp_all
qed

lemma pass_completes:
  assumes "Get_InferenceService P req w = (Inr svc, w1)" and "completed (pass_outcome P addr req w)"
  shows "all_settled (desired_objects svc addr) (pass_calls P addr req w)"
proof (rule pass_of_reconcile [OF assms(1) reconcile_completes])
  fix r err t serr
  assume "completed (r, err) \<longrightarrow> all_settled (desired_objects svc addr) (calls t)"
    and calls: "pass_calls P addr req w = calls t @ final_update P svc t serr"
    and "pass_outcome P addr req w = (if err = None \<and> serr \<noteq> None then (Result 0, serr) else (r, err))"
  with assms(2) have "all_settled (desired_objects svc addr) (calls t)" by (auto split: if_splits)
  with calls show ?thesis by (auto intro: all_settled_mono)
qed


text \<open>A rejected service: one read, at most the status update, nothing to retry.\<close>

lemma pass_rejected_calls:
  assumes got: "Get_InferenceService P req w = (Inr svc, w1)" and pol: "policyViolation svc \<noteq> []"
  obtains t serr where "pass_calls P addr req w = read_service req svc # final_update P svc t serr"
    and "pass_outcome P addr req w = (Result 0, serr)"
proof -
  have "wp (reconcile P addr svc) (\<lambda>out t. calls t = [read_service req svc] \<and> out = (Result 0, None))
      (started req svc w1)"
    using pol by (simp add: reconcile_rejected wp_simps condition_def split: prod.split)
  then show thesis
  proof (rule pass_of_reconcile [OF got])
    fix r err t serr
    assume "calls t = [read_service req svc] \<and> (r, err) = (Result 0, None)"
      and "pass_calls P addr req w = calls t @ final_update P svc t serr"
      and "pass_outcome P addr req w = (if err = None \<and> serr \<noteq> None then (Result 0, serr) else (r, err))"
    then show thesis by (intro that [of t serr]) (auto split: if_splits)
  qed
qed

subsection \<open>The reported status\<close>

text \<open>
  What each condition says, as a function of the answers the pass received: KEDA's verdict on the
  scaler, the presence of the routing add-on, the readiness of the Deployment and the state of the pods.
\<close>

type_synonym verdict = "ConditionStatus \<times> string \<times> string"

fun keda_condition :: "verdict \<Rightarrow> verdict" where
  "keda_condition (ConditionTrue, _, _) =
     (ConditionTrue, ''ScalerReady'', ''KEDA scales on queue depth, KV cache usage and p95 TTFT'')"
| "keda_condition (ConditionFalse, reason, message) =
     (ConditionFalse, ''ScalerNotReady'', ''KEDA reports '' @ reason @ '': '' @ message)"
| "keda_condition (ConditionUnknown, _, _) =
     (ConditionUnknown, ''WaitingForKEDA'', ''ScaledObject applied; KEDA has not reported on it yet'')"

definition no_match_on :: "call list \<Rightarrow> unstructured \<Rightarrow> bool" where
  "no_match_on log u \<longleftrightarrow>
     (\<exists>e. IsNoMatchError e \<and> CApply (AC_Unstructured u) FieldOwner True (Some e) \<in> set log)"

definition scaling_verdict ::
  "'w Platform \<Rightarrow> string \<Rightarrow> InferenceService \<Rightarrow> call list \<Rightarrow> verdict \<Rightarrow> bool" where
  "scaling_verdict P addr svc log v \<longleftrightarrow>
    (if Backend (Spec svc) = BackendOllama then
       v = (ConditionFalse, ''BackendNotSupported'',
            ''Ollama exports no queue metrics; replicas stay at minReplicas'')
     else
       no_match_on log (desiredScaledObject svc addr) \<and>
       v = (ConditionFalse, ''KEDANotInstalled'',
            ''the keda.sh ScaledObject CRD is not installed; replicas stay at minReplicas'') \<or>
       (\<exists>so. CGetUnstructured scaledObjectGVK (svc_key svc) (Inr so) \<in> set log \<and>
          keda_condition (scaledObjectReady P so) = v))"

definition routing_verdict :: "InferenceService \<Rightarrow> call list \<Rightarrow> verdict \<Rightarrow> bool" where
  "routing_verdict svc log v \<longleftrightarrow>
     no_match_on log (desiredInferencePool svc) \<and>
     v = (ConditionFalse, ''InferencePoolNotInstalled'',
          ''the InferencePool CRD is not installed; the Service is the only entry point'') \<or>
     CApply (AC_Unstructured (desiredInferencePool svc)) FieldOwner True None \<in> set log \<and>
     v = (ConditionTrue, ''InferencePoolApplied'', ''pods are registered in an InferencePool'')"

text \<open>The phase, the Ready condition and the requeue delay for a number of ready replicas.\<close>

definition waiting_verdict :: "Pod list \<Rightarrow> string \<times> verdict" where
  "waiting_verdict pods = (case pods_verdict pods of (phase, reason, msg) \<Rightarrow>
     if phase \<noteq> [] then (phase, ConditionFalse, reason, msg)
     else (''Loading'', ConditionFalse, ''WeightsLoading'', ''no ready replicas yet''))"

definition ready_verdict ::
  "InferenceService \<Rightarrow> call list \<Rightarrow> int32 \<Rightarrow> string \<Rightarrow> verdict \<Rightarrow> int \<Rightarrow> bool" where
  "ready_verdict svc log n phase v delay \<longleftrightarrow>
     (if 0 < sint n then
        phase = ''Ready'' \<and> v = (ConditionTrue, ''MinimumReplicasAvailable'', ''serving traffic'') \<and>
        delay = driftRequeue
      else delay = notReadyRequeue \<and>
        (\<exists>pods. CListPods (Namespace svc) (selectorLabels svc) (Inr pods) \<in> set log \<and>
           waiting_verdict pods = (phase, v)))"

lemma verdict_mono:
  assumes "set log \<subseteq> set log'"
  shows "scaling_verdict P addr svc log v \<Longrightarrow> scaling_verdict P addr svc log' v"
    and "routing_verdict svc log v \<Longrightarrow> routing_verdict svc log' v"
    and "ready_verdict svc log n phase v d \<Longrightarrow> ready_verdict svc log' n phase v d"
  using assms by (auto simp: scaling_verdict_def routing_verdict_def ready_verdict_def no_match_on_def
      split: if_splits)

lemma map_upd_same_eq [simp]: "m(k \<mapsto> x) = m(k \<mapsto> y) \<longleftrightarrow> x = y"
  by (auto dest: map_upd_eqD1)

lemma keda_condition_of: "scaledObjectReady P so = r \<Longrightarrow> keda_condition (scaledObjectReady P so) = keda_condition r"
  by simp

lemma waiting_verdict_of: "pods_verdict pods = (phase, reason, msg) \<Longrightarrow> waiting_verdict pods =
    (if phase \<noteq> [] then (phase, ConditionFalse, reason, msg)
     else (''Loading'', ConditionFalse, ''WeightsLoading'', ''no ready replicas yet''))"
  by (simp add: waiting_verdict_def)

locale status_reporting = condition_setter "SetStatusCondition P" for P :: "'w Platform"
begin

lemma reconcileAutoscaling_report:
  "wp (reconcileAutoscaling P addr svc) (\<lambda>e u. e = None \<longrightarrow> (\<exists>v.
     report (Conditions (status u)) = (report (Conditions (status s)))(CondAutoscaling \<mapsto> v) \<and>
     scaling_verdict P addr svc (calls u) v)) s"
proof (cases "Backend (Spec svc) = BackendOllama")
  case True
  then show ?thesis
    by (auto simp: reconcileAutoscaling_def deleteUnstructuredIfOwned_def deleteIfOwned_def client_ops
        wp_simps scaling_verdict_def split: sum.split prod.split dest!: set_report)
next
  case False
  then show ?thesis
    by (auto simp: reconcileAutoscaling_def client_ops wp_simps scaling_verdict_def no_match_on_def
        split: option.split sum.split prod.split ConditionStatus.split dest!: set_report keda_condition_of)
qed

lemma reconcileRouting_report:
  "wp (reconcileRouting P svc) (\<lambda>e u. e = None \<longrightarrow> (\<exists>v.
     report (Conditions (status u)) = (report (Conditions (status s)))(CondRouting \<mapsto> v) \<and>
     routing_verdict svc (calls u) v)) s"
  by (auto simp: reconcileRouting_def client_ops wp_simps routing_verdict_def no_match_on_def
      split: option.split prod.split dest!: set_report)

lemma reportStatus_report:
  "wp (reportStatus P svc d) (\<lambda>(r, err) u. err = None \<longrightarrow> (\<exists>v.
     report (Conditions (status u)) = (report (Conditions (status s)))(CondReady \<mapsto> v) \<and>
     ready_verdict svc (calls u) (ReadyReplicas (status u)) (Phase (status u)) v (RequeueAfter r) \<and>
     ReadyReplicas (status u) = dep_ReadyReplicas d \<and> Endpoint (status u) = endpoint svc)) s"
  by (auto simp: reportStatus_def podTrouble_def client_ops wp_simps ready_verdict_def
      split: sum.split prod.split dest!: set_report waiting_verdict_of)

end

text \<open>The status a completed pass leaves.\<close>

definition steady_status ::
  "'w Platform \<Rightarrow> string \<Rightarrow> InferenceService \<Rightarrow> call list \<Rightarrow> int \<Rightarrow> InferenceServiceStatus \<Rightarrow> bool" where
  "steady_status P addr svc log delay st \<longleftrightarrow>
     Endpoint st = endpoint svc \<and>
     report (Conditions st) CondAdmitted =
       Some (ConditionTrue, ''PolicySatisfied'', ''spec passes placement policy'') \<and>
     (\<exists>v. report (Conditions st) CondAutoscaling = Some v \<and> scaling_verdict P addr svc log v) \<and>
     (\<exists>v. report (Conditions st) CondRouting = Some v \<and> routing_verdict svc log v) \<and>
     (\<exists>v. report (Conditions st) CondReady = Some v \<and>
        ready_verdict svc log (ReadyReplicas st) (Phase st) v delay)"

lemma steady_status_mono:
  "steady_status P addr svc log d st \<Longrightarrow> set log \<subseteq> set log' \<Longrightarrow>
    steady_status P addr svc log' d (st\<lparr>ObservedGeneration := g\<rparr>)"
  by (auto simp: steady_status_def dest: verdict_mono(1) verdict_mono(2) verdict_mono(3))

definition admitted_report :: "InferenceServiceStatus \<Rightarrow> bool" where
  "admitted_report st \<longleftrightarrow> report (Conditions st) CondAdmitted =
     Some (ConditionTrue, ''PolicySatisfied'', ''spec passes placement policy'')"

definition scaled_report :: "'w Platform \<Rightarrow> string \<Rightarrow> InferenceService \<Rightarrow> call list \<Rightarrow> InferenceServiceStatus \<Rightarrow> bool" where
  "scaled_report P addr svc log st \<longleftrightarrow> admitted_report st \<and>
     (\<exists>v. report (Conditions st) CondAutoscaling = Some v \<and> scaling_verdict P addr svc log v)"

definition routed_report :: "'w Platform \<Rightarrow> string \<Rightarrow> InferenceService \<Rightarrow> call list \<Rightarrow> InferenceServiceStatus \<Rightarrow> bool" where
  "routed_report P addr svc log st \<longleftrightarrow> scaled_report P addr svc log st \<and>
     (\<exists>v. report (Conditions st) CondRouting = Some v \<and> routing_verdict svc log v)"

lemmas report_defs = admitted_report_def scaled_report_def routed_report_def

text \<open>The handlers that say nothing in the status when they let the pass go on.\<close>

lemma quiet_handlers:
  "wp (reconcileClaimTemplate P svc) (\<lambda>e u. status u = status s) s"
  "wp (reconcileService P svc) (\<lambda>e u. status u = status s) s"
  "wp (reconcileDeployment P svc) (\<lambda>(d, requeue, err) u. err = None \<and> \<not> requeue \<longrightarrow> status u = status s) s"
  by (auto simp: reconcileClaimTemplate_def reconcileService_def reconcileDeployment_def deleteIfOwned_def
      createDeployment_def applyDeployment_def client_ops wp_simps
      split: option.split sum.split prod.split)

context status_reporting
begin

lemma reconcile_steady:
  "wp (reconcile P addr svc) (\<lambda>out t. completed out \<longrightarrow>
     steady_status P addr svc (calls t) (RequeueAfter (fst out)) (status t)) s"
proof -
  let ?Q = "\<lambda>out t. completed out \<longrightarrow>
     steady_status P addr svc (calls t) (RequeueAfter (fst out)) (status t)"
  let ?A = "\<lambda>t :: 'w pass. admitted_report (status t)"
  let ?S = "\<lambda>t. scaled_report P addr svc (calls t) (status t)"
  let ?R = "\<lambda>t. routed_report P addr svc (calls t) (status t)"
  show ?thesis
  proof (rule reconcile_rule [where ?A0.0 = ?A and ?A1.0 = ?A and ?A2.0 = "\<lambda>_. ?A" and ?A3.0 = "\<lambda>_. ?A"
        and ?A4.0 = "\<lambda>_. ?S" and ?A5.0 = "\<lambda>_. ?R"])
    fix t :: "'w pass" assume a: "?A t"
    show "wp (reconcileClaimTemplate P svc) (\<lambda>e u. case e of
        None \<Rightarrow> ?A u | Some err \<Rightarrow> ?Q (Result 0, Some err) u) t"
      by (rule wp_mono [OF quiet_handlers(1)]) (simp add: a split: option.split)
    show "wp (reconcileDeployment P svc) (\<lambda>(d, requeue, err) u.
        if err \<noteq> None \<or> requeue then ?Q (Result 5, err) u else ?A u) t"
      by (rule wp_mono [OF quiet_handlers(3)]) (auto simp: a)
    fix d :: Deployment
    show "wp (reconcileService P svc) (\<lambda>e u. case e of
        None \<Rightarrow> ?A u | Some err \<Rightarrow> ?Q (Result 0, Some err) u) t"
      by (rule wp_mono [OF quiet_handlers(2)]) (simp add: a split: option.split)
    show "wp (reconcileAutoscaling P addr svc) (\<lambda>e u. case e of
        None \<Rightarrow> ?S u | Some err \<Rightarrow> ?Q (Result 0, Some err) u) t"
      by (rule wp_mono [OF reconcileAutoscaling_report])
        (use a in \<open>auto simp: report_defs cond_types split: option.split\<close>)
  next
    fix t :: "'w pass" and d assume pol: "policyViolation svc = []" and a: "?S t"
    show "wp (reconcileRouting P svc) (\<lambda>e u. case e of
        None \<Rightarrow> ?R u | Some err \<Rightarrow> ?Q (Result 0, Some err) u) t"
      by (rule wp_mono [OF wp_conj [OF reconcileRouting_good [OF pol, of P addr] reconcileRouting_report]])
        (use a in \<open>auto simp: report_defs good_step_def cond_types split: option.split
          dest!: extends_subset dest: verdict_mono(1)\<close>)
  next
    fix t :: "'w pass" and d assume a: "?R t"
    show "wp (reportStatus P svc d) ?Q t"
      by (rule wp_mono [OF wp_conj [OF reportStatus_calls reportStatus_report]])
        (use a in \<open>auto simp: report_defs steady_status_def completed_def cond_types dest: verdict_mono(1,2)\<close>)
  qed (auto simp: admitted_report_def dest!: set_report)
qed

lemma pass_steady:
  assumes "Get_InferenceService P req w = (Inr svc, w1)" and "completed (pass_outcome P addr req w)"
  shows "steady_status P addr svc (pass_calls P addr req w)
    (RequeueAfter (fst (pass_outcome P addr req w))) (pass_status P addr req w)"
proof (rule pass_of_reconcile [OF assms(1) reconcile_steady])
  fix r err t serr
  assume "completed (r, err) \<longrightarrow>
      steady_status P addr svc (calls t) (RequeueAfter (fst (r, err))) (status t)"
    and outcome: "pass_outcome P addr req w = (if err = None \<and> serr \<noteq> None then (Result 0, serr) else (r, err))"
    and calls: "pass_calls P addr req w = calls t @ final_update P svc t serr"
    and st: "pass_status P addr req w = observed svc t"
  with assms(2) have "steady_status P addr svc (calls t) (RequeueAfter r) (status t)"
    by (auto split: if_splits)
  with outcome assms(2) show ?thesis
    unfolding calls st observed_def by (auto split: if_splits intro!: steady_status_mono)
qed

text \<open>A rejected service: the message is in the status, and nothing else was said or done.\<close>

lemma pass_rejected:
  assumes "Get_InferenceService P req w = (Inr svc, w1)" and "policyViolation svc \<noteq> []"
  shows "Phase (pass_status P addr req w) = ''Rejected''"
    and "report (Conditions (pass_status P addr req w)) =
      (report (Conditions (Status svc)))(CondAdmitted \<mapsto> (ConditionFalse, ''PolicyViolation'', policyViolation svc))"
proof -
  have "wp (reconcile P addr svc) (\<lambda>_ t. Phase (status t) = ''Rejected'' \<and> report (Conditions (status t)) =
      (report (Conditions (Status svc)))(CondAdmitted \<mapsto> (ConditionFalse, ''PolicyViolation'', policyViolation svc)))
      (started req svc w1)"
    using assms(2) by (auto simp: reconcile_rejected wp_simps split: prod.split dest!: set_report)
  from pass_of_reconcile [OF assms(1) this]
  have "Phase (pass_status P addr req w) = ''Rejected'' \<and> report (Conditions (pass_status P addr req w)) =
      (report (Conditions (Status svc)))(CondAdmitted \<mapsto> (ConditionFalse, ''PolicyViolation'', policyViolation svc))"
    by (metis observed_fields)
  then show "Phase (pass_status P addr req w) = ''Rejected''"
    and "report (Conditions (pass_status P addr req w)) =
      (report (Conditions (Status svc)))(CondAdmitted \<mapsto> (ConditionFalse, ''PolicyViolation'', policyViolation svc))"
    by simp_all
qed

text \<open>The condition list stays keyed by type through a pass.\<close>

lemma handlers_distinct:
  assumes "distinct (map cond_Type (Conditions (status s)))"
  shows "wp (reconcileDeployment P svc) (\<lambda>_ t. distinct (map cond_Type (Conditions (status t)))) s"
    and "wp (reconcileAutoscaling P addr svc) (\<lambda>_ t. distinct (map cond_Type (Conditions (status t)))) s"
    and "wp (reconcileRouting P svc) (\<lambda>_ t. distinct (map cond_Type (Conditions (status t)))) s"
    and "wp (reportStatus P svc d) (\<lambda>_ t. distinct (map cond_Type (Conditions (status t)))) s"
  using assms
  by (auto simp: reconcileDeployment_def createDeployment_def applyDeployment_def reconcileAutoscaling_def
      deleteUnstructuredIfOwned_def deleteIfOwned_def reconcileRouting_def reportStatus_def podTrouble_def
      client_ops wp_simps split: option.split sum.split prod.split ConditionStatus.split dest!: set_distinct)

lemma reconcile_distinct:
  assumes "distinct (map cond_Type (Conditions (status s)))"
  shows "wp (reconcile P addr svc) (\<lambda>_ t. distinct (map cond_Type (Conditions (status t)))) s"
proof -
  let ?D = "\<lambda>t :: 'w pass. distinct (map cond_Type (Conditions (status t)))"
  show ?thesis
  proof (rule reconcile_rule [where ?A0.0 = ?D and ?A1.0 = ?D and ?A2.0 = "\<lambda>_. ?D" and ?A3.0 = "\<lambda>_. ?D"
        and ?A4.0 = "\<lambda>_. ?D" and ?A5.0 = "\<lambda>_. ?D"])
    fix t :: "'w pass" and d assume a: "?D t"
    show "wp (reconcileClaimTemplate P svc) (\<lambda>e u. case e of None \<Rightarrow> ?D u | Some err \<Rightarrow> ?D u) t"
      by (rule wp_mono [OF quiet_handlers(1)]) (simp add: a split: option.split)
    show "wp (reconcileService P svc) (\<lambda>e u. case e of None \<Rightarrow> ?D u | Some err \<Rightarrow> ?D u) t"
      by (rule wp_mono [OF quiet_handlers(2)]) (simp add: a split: option.split)
    show "wp (reconcileDeployment P svc) (\<lambda>(d, requeue, err) u. if err \<noteq> None \<or> requeue then ?D u else ?D u) t"
      by (rule wp_mono [OF handlers_distinct(1) [OF a]]) simp
    show "wp (reconcileAutoscaling P addr svc) (\<lambda>e u. case e of None \<Rightarrow> ?D u | Some err \<Rightarrow> ?D u) t"
      by (rule wp_mono [OF handlers_distinct(2) [OF a]]) (simp split: option.split)
    show "wp (reconcileRouting P svc) (\<lambda>e u. case e of None \<Rightarrow> ?D u | Some err \<Rightarrow> ?D u) t"
      by (rule wp_mono [OF handlers_distinct(3) [OF a]]) (simp split: option.split)
    show "wp (reportStatus P svc d) (\<lambda>_. ?D) t"
      by (rule handlers_distinct(4) [OF a])
  qed (use assms in \<open>auto dest!: set_distinct\<close>)
qed

lemma pass_distinct:
  assumes "Get_InferenceService P req w = (Inr svc, w1)" and "distinct (map cond_Type (Conditions (Status svc)))"
  shows "distinct (map cond_Type (Conditions (pass_status P addr req w)))"
  using pass_of_reconcile [OF assms(1) reconcile_distinct] assms(2)
  by (metis observed_fields(2) started_fields(2))

end

end
