(* ===== verification/Cluster.thy ===== *)
theory Cluster
  imports Outcome
begin

section \<open>A reference cluster\<close>

text \<open>
  An executable cluster that behaves as the documentation of the API server says where the operator
  depends on it: server-side apply with field ownership of \<open>replicas\<close>, the immutable selector of a
  Deployment, no-match errors for kinds that are not installed, conditions keyed by type. It is not
  a model of code in this repository; it shows that the contracts of \<open>Contracts\<close> can all hold
  together, and it is the platform on which the properties are evaluated.
\<close>

record stored =
  st_UID :: string
  st_Owners :: "OwnerReference list"
  st_Deletion :: "int option"
  st_Selector :: "string gomap option"
  st_Replicas :: "int32 \<times> string list"
  st_Ready :: int32
  st_Status :: "json gomap"
  st_Applied :: "(string \<times> apply_config) list"

record cluster =
  cl_Services :: "(NamespacedName \<times> InferenceService) list"
  cl_Objects :: "(object_key \<times> stored) list"
  cl_Pods :: "(string \<times> Pod) list"
  cl_Installed :: "GroupVersionKind list"
  cl_Clock :: int

definition cl_installed :: "cluster \<Rightarrow> ObjKind \<Rightarrow> bool" where
  "cl_installed c kind = (case kind of KUnstructured g \<Rightarrow> g \<in> set (cl_Installed c) | _ \<Rightarrow> True)"

definition find_stored :: "cluster \<Rightarrow> ObjKind \<Rightarrow> NamespacedName \<Rightarrow> go_error + stored" where
  "find_stored c kind k =
    (if \<not> cl_installed c kind then Inl (NoMatch ''no matches for kind'')
     else case map_of (cl_Objects c) (kind, k) of
       None \<Rightarrow> Inl (NotFound ''not found'')
     | Some o' \<Rightarrow> Inr o')"

definition stored_meta :: "NamespacedName \<Rightarrow> stored \<Rightarrow> ObjectMeta" where
  "stored_meta k o' = \<lparr>Name = snd k, Namespace = fst k, UID = st_UID o', Generation = 1,
     DeletionTimestamp = st_Deletion o', OwnerReferences = st_Owners o'\<rparr>"

definition stored_deployment :: "NamespacedName \<Rightarrow> stored \<Rightarrow> Deployment" where
  "stored_deployment k o' = \<lparr>Name = snd k, Namespace = fst k, UID = st_UID o', Generation = 1,
     DeletionTimestamp = st_Deletion o', OwnerReferences = st_Owners o',
     dep_Selector = st_Selector o', dep_ReadyReplicas = st_Ready o'\<rparr>"

subsection \<open>Reads\<close>

definition cl_get_service :: "NamespacedName \<Rightarrow> cluster \<Rightarrow> (go_error + InferenceService) \<times> cluster" where
  "cl_get_service k c =
    ((case map_of (cl_Services c) k of None \<Rightarrow> Inl (NotFound ''not found'') | Some svc \<Rightarrow> Inr svc), c)"

definition cl_get_deployment :: "NamespacedName \<Rightarrow> cluster \<Rightarrow> (go_error + Deployment) \<times> cluster" where
  "cl_get_deployment k c = (map_sum id (stored_deployment k) (find_stored c KDeployment k), c)"

definition cl_get_unstructured ::
  "GroupVersionKind \<Rightarrow> NamespacedName \<Rightarrow> cluster \<Rightarrow> (go_error + unstructured) \<times> cluster" where
  "cl_get_unstructured g k c =
    (map_sum id (\<lambda>o'. \<lparr>u_GVK = g, u_Object = [(''status'', JObj (st_Status o'))]\<rparr>)
       (find_stored c (KUnstructured g) k), c)"

definition cl_get_meta :: "ObjKind \<Rightarrow> NamespacedName \<Rightarrow> cluster \<Rightarrow> (go_error + ObjectMeta) \<times> cluster" where
  "cl_get_meta kind k c = (map_sum id (stored_meta k) (find_stored c kind k), c)"

definition cl_list_pods :: "string \<Rightarrow> string gomap \<Rightarrow> cluster \<Rightarrow> (go_error + Pod list) \<times> cluster" where
  "cl_list_pods ns sel c =
    (Inr (map snd (filter (\<lambda>(n, p). n = ns \<and> selects sel (pod_Labels p)) (cl_Pods c))), c)"

subsection \<open>Writes\<close>

definition owner_of_ac :: "OwnerReferenceAC \<Rightarrow> OwnerReference" where
  "owner_of_ac r = \<lparr>ref_UID = or_UID r, ref_Controller = Some (or_Controller r)\<rparr>"

fun applied_selector :: "apply_config \<Rightarrow> string gomap option" where
  "applied_selector (AC_Deployment d) = ds_Selector (dp_Spec d)"
| "applied_selector _ = None"

definition new_stored :: "apply_config \<Rightarrow> string \<Rightarrow> stored" where
  "new_stored a m = \<lparr>st_UID = ''uid-'' @ snd (snd (ac_key a)), st_Owners = map owner_of_ac (ac_owners a),
     st_Deletion = None, st_Selector = applied_selector a,
     st_Replicas = (case applied_replicas a of None \<Rightarrow> (1, []) | Some n \<Rightarrow> (n, [m])),
     st_Ready = 0, st_Status = [], st_Applied = [(m, a)]\<rparr>"

text \<open>The replica count after an apply, or nothing for a conflict with another manager.\<close>

definition merge_replicas ::
  "string \<Rightarrow> bool \<Rightarrow> int32 option \<Rightarrow> int32 \<times> string list \<Rightarrow> (int32 \<times> string list) option" where
  "merge_replicas m force want cur = (case want of
     None \<Rightarrow> Some (release m cur)
   | Some n \<Rightarrow> (case cur of (n0, own) \<Rightarrow>
       if n = n0 \<or> set own \<subseteq> {m} then Some (n, List.insert m own)
       else if force then Some (n, [m]) else None))"

definition selector_kept :: "apply_config \<Rightarrow> stored \<Rightarrow> bool" where
  "selector_kept a o' = (case (applied_selector a, st_Selector o') of
     (Some s, Some s') \<Rightarrow> maps_Equal s s' | _ \<Rightarrow> True)"

definition merge_stored :: "apply_config \<Rightarrow> string \<Rightarrow> int32 \<times> string list \<Rightarrow> stored \<Rightarrow> stored" where
  "merge_stored a m r o' = o'\<lparr>st_Replicas := r,
     st_Owners := (if ac_owners a = [] then st_Owners o' else map owner_of_ac (ac_owners a)),
     st_Applied := AList.update m a (st_Applied o')\<rparr>"

definition cl_apply :: "apply_config \<Rightarrow> string \<Rightarrow> bool \<Rightarrow> cluster \<Rightarrow> go_error option \<times> cluster" where
  "cl_apply a m force c = (let k = ac_key a in
     if \<not> cl_installed c (fst k) then (Some (NoMatch ''no matches for kind''), c)
     else case map_of (cl_Objects c) k of
       None \<Rightarrow> (None, c\<lparr>cl_Objects := AList.update k (new_stored a m) (cl_Objects c)\<rparr>)
     | Some o' \<Rightarrow>
         if \<not> selector_kept a o' then (Some (Failure ''field is immutable''), c)
         else case merge_replicas m force (applied_replicas a) (st_Replicas o') of
           None \<Rightarrow> (Some (Failure ''conflict''), c)
         | Some r \<Rightarrow> (None, c\<lparr>cl_Objects := AList.update k (merge_stored a m r o') (cl_Objects c)\<rparr>))"

definition cl_delete ::
  "ObjKind \<Rightarrow> NamespacedName \<Rightarrow> DeletePropagation \<Rightarrow> cluster \<Rightarrow> go_error option \<times> cluster" where
  "cl_delete kind k p c = (case find_stored c kind k of
     Inl e \<Rightarrow> (Some e, c)
   | Inr _ \<Rightarrow> (None, c\<lparr>cl_Objects := AList.delete (kind, k) (cl_Objects c)\<rparr>))"

definition cl_update_status :: "InferenceService \<Rightarrow> cluster \<Rightarrow> go_error option \<times> cluster" where
  "cl_update_status svc c = (case map_of (cl_Services c) (svc_key svc) of
     None \<Rightarrow> (Some (NotFound ''not found''), c)
   | Some cur \<Rightarrow> (None, c\<lparr>cl_Services :=
       AList.update (svc_key svc) (cur\<lparr>Status := Status svc\<rparr>) (cl_Services c)\<rparr>))"

text \<open>\<open>meta.SetStatusCondition\<close>: update in place or append, and move the time when the status flips.\<close>

fun set_condition :: "int \<Rightarrow> Condition \<Rightarrow> Condition list \<Rightarrow> Condition list" where
  "set_condition now c [] = [c\<lparr>cond_LastTransitionTime := now\<rparr>]"
| "set_condition now c (d # ds) =
    (if cond_Type d = cond_Type c
     then c\<lparr>cond_LastTransitionTime :=
       (if cond_Status d = cond_Status c then cond_LastTransitionTime d else now)\<rparr> # ds
     else d # set_condition now c ds)"

definition cl_set_condition :: "Condition \<Rightarrow> Condition list \<Rightarrow> cluster \<Rightarrow> Condition list \<times> cluster" where
  "cl_set_condition c cs w = (set_condition (cl_Clock w) c cs, w)"

definition controlled_by :: "ObjectMeta \<Rightarrow> ObjectMeta \<Rightarrow> bool" where
  "controlled_by obj owner = (case find (\<lambda>r. ref_Controller r = Some True) (OwnerReferences obj) of
     None \<Rightarrow> False | Some r \<Rightarrow> ref_UID r = UID owner)"

definition nested_slice :: "json gomap \<Rightarrow> string list \<Rightarrow> json list" where
  "nested_slice m path = (case json_path (JObj m) path of Some (JArr l) \<Rightarrow> l | _ \<Rightarrow> [])"

definition kube :: "cluster Platform" where
  "kube = \<lparr>Get_InferenceService = cl_get_service, Get_Deployment = cl_get_deployment,
     Get_Unstructured = cl_get_unstructured, Get_Meta = cl_get_meta, List_Pods = cl_list_pods,
     Apply_Config = cl_apply, Delete_Object = cl_delete, Update_Status = cl_update_status,
     SetStatusCondition = cl_set_condition, Semantic_DeepEqual = (=), IsControlledBy = controlled_by,
     NestedSlice = nested_slice\<rparr>"

lemma kube_fields [simp]:
  "Get_InferenceService kube = cl_get_service" "Get_Deployment kube = cl_get_deployment"
  "Get_Unstructured kube = cl_get_unstructured" "Get_Meta kube = cl_get_meta"
  "List_Pods kube = cl_list_pods" "Apply_Config kube = cl_apply" "Delete_Object kube = cl_delete"
  "Update_Status kube = cl_update_status" "SetStatusCondition kube = cl_set_condition"
  "Semantic_DeepEqual kube = (=)" "IsControlledBy kube = controlled_by" "NestedSlice kube = nested_slice"
  by (simp_all add: kube_def)

subsection \<open>The cluster keeps the contracts\<close>

lemma set_condition_same:
  "\<exists>t. find_condition (cond_Type c) (set_condition now c cs) = Some (c\<lparr>cond_LastTransitionTime := t\<rparr>)"
  by (induction cs) (auto simp: find_condition_def)

lemma set_condition_other:
  "ty \<noteq> cond_Type c \<Longrightarrow> find_condition ty (set_condition now c cs) = find_condition ty cs"
  by (induction cs) (auto simp: find_condition_def)

lemma set_condition_types:
  "map cond_Type (set_condition now c cs) =
    (if cond_Type c \<in> set (map cond_Type cs) then map cond_Type cs else map cond_Type cs @ [cond_Type c])"
  by (induction cs) auto

interpretation kube: status_reporting kube
  by unfold_locales
    (auto simp: cl_set_condition_def set_condition_types intro: set_condition_same set_condition_other)

definition replicas_view :: "cluster \<Rightarrow> NamespacedName \<Rightarrow> (int32 \<times> string list) option" where
  "replicas_view c k = map_option st_Replicas (map_of (cl_Objects c) (KDeployment, k))"

lemma view_find:
  "replicas_view c k = (case find_stored c KDeployment k of Inl _ \<Rightarrow> None | Inr o' \<Rightarrow> Some (st_Replicas o'))"
  by (simp add: replicas_view_def find_stored_def cl_installed_def split: option.split)

lemma view_same_objects: "cl_Objects c' = cl_Objects c \<Longrightarrow> replicas_view c' = replicas_view c"
  by (simp add: replicas_view_def fun_eq_iff)

text \<open>An apply, by what happens to the object under its key.\<close>

lemma cl_apply_cases:
  obtains e where "cl_apply a m f c = (Some e, c)"
  | "cl_apply a m f c = (None, c\<lparr>cl_Objects := AList.update (ac_key a) (new_stored a m) (cl_Objects c)\<rparr>)"
    "map_of (cl_Objects c) (ac_key a) = None"
  | o' r where
    "cl_apply a m f c = (None, c\<lparr>cl_Objects := AList.update (ac_key a) (merge_stored a m r o') (cl_Objects c)\<rparr>)"
    "map_of (cl_Objects c) (ac_key a) = Some o'"
    "merge_replicas m f (applied_replicas a) (st_Replicas o') = Some r"
proof (cases "map_of (cl_Objects c) (ac_key a)")
  case None
  then show ?thesis using that(1,2) by (cases "cl_installed c (fst (ac_key a))") (simp_all add: cl_apply_def)
next
  case (Some o')
  then show ?thesis
    using that(1) that(3) [of _ o']
    by (cases "cl_installed c (fst (ac_key a))"; cases "selector_kept a o'";
        cases "merge_replicas m f (applied_replicas a) (st_Replicas o')")
      (simp_all add: cl_apply_def)
qed

lemma merge_stored_replicas [simp]: "st_Replicas (merge_stored a m r o') = r"
  by (simp add: merge_stored_def)

lemma view_update:
  "replicas_view (c\<lparr>cl_Objects := AList.update key o' (cl_Objects c)\<rparr>) k =
    (if key = (KDeployment, k) then Some (st_Replicas o') else replicas_view c k)"
  by (auto simp: replicas_view_def update_conv')

lemma cl_apply_elsewhere: "ac_key a \<noteq> (KDeployment, k) \<Longrightarrow>
    replicas_view (snd (cl_apply a m f c)) k = replicas_view c k"
  by (cases rule: cl_apply_cases [of a m f c]) (auto simp: view_update)

lemma cl_apply_without:
  assumes "cl_apply a m f c = (None, c')" and "ac_key a = (KDeployment, k)" and "applied_replicas a = None"
  shows "replicas_view c' k =
    Some (case replicas_view c k of None \<Rightarrow> (1, []) | Some v \<Rightarrow> release m v)"
  using assms by (cases rule: cl_apply_cases [of a m f c])
    (auto simp: replicas_view_def update_conv' new_stored_def merge_replicas_def)

lemma cl_apply_with:
  assumes "cl_apply a m False c = (None, c')" and "ac_key a = (KDeployment, k)"
    and "applied_replicas a = Some n" and "replicas_view c k = Some (n0, own)"
  shows "(\<exists>own'. replicas_view c' k = Some (n, own') \<and> set own' = insert m (set own)) \<and>
    (set own \<subseteq> {m} \<or> n = n0)"
  using assms by (cases rule: cl_apply_cases [of a m False c])
    (auto simp: replicas_view_def update_conv' merge_replicas_def split: if_splits)

lemma cl_apply_with_new:
  assumes "cl_apply a m f c = (None, c')" and "ac_key a = (KDeployment, k)"
    and "applied_replicas a = Some n" and "replicas_view c k = None"
  shows "replicas_view c' k = Some (n, [m])"
  using assms by (cases rule: cl_apply_cases [of a m f c])
    (auto simp: replicas_view_def update_conv' new_stored_def)

lemma cl_delete_view:
  "replicas_view (snd (cl_delete kind k p c)) k' =
    (if kind = KDeployment \<and> k' = k then None else replicas_view c k')"
  by (auto simp: cl_delete_def find_stored_def replicas_view_def delete_conv' cl_installed_def
      split: sum.split if_splits option.splits)

interpretation kube_apply: server_side_apply kube replicas_view
proof unfold_locales
  fix a m f and c :: cluster and k
  show "fst (ac_key a) \<noteq> KDeployment \<Longrightarrow> replicas_view (snd (Apply_Config kube a m f c)) = replicas_view c"
    unfolding kube_fields by (intro ext cl_apply_elsewhere) (cases "ac_key a", simp)
  show "Apply_Config kube a m f c = (Some e, w') \<Longrightarrow> replicas_view w' = replicas_view c" for e w'
    by (cases rule: cl_apply_cases [of a m f c]) auto
  show "ac_key a \<noteq> (KDeployment, k) \<Longrightarrow> replicas_view (snd (Apply_Config kube a m f c)) k = replicas_view c k"
    by (simp add: cl_apply_elsewhere)
  show "Apply_Config kube a m f c = (None, w') \<Longrightarrow> ac_key a = (KDeployment, k) \<Longrightarrow>
      applied_replicas a = None \<Longrightarrow> replicas_view w' k =
      Some (case replicas_view c k of None \<Rightarrow> (1, []) | Some v \<Rightarrow> release m v)" for w'
    by (simp add: cl_apply_without)
  show "Apply_Config kube a m False c = (None, w') \<Longrightarrow> ac_key a = (KDeployment, k) \<Longrightarrow>
      applied_replicas a = Some n \<Longrightarrow> replicas_view c k = Some (n0, own) \<Longrightarrow>
      (\<exists>own'. replicas_view w' k = Some (n, own') \<and> set own' = insert m (set own)) \<and>
      (set own \<subseteq> {m} \<or> n = n0)" for n n0 own w'
    by (simp add: cl_apply_with)
  show "Get_Deployment kube k c = (Inl e, w') \<Longrightarrow> IsNotFound e \<Longrightarrow> replicas_view c k = None" for e w'
    by (simp add: cl_get_deployment_def view_find map_sum_def split: sum.splits)
  show "Get_Deployment kube k c = (Inr d, w') \<Longrightarrow> (Namespace d, Name d) = k \<and> replicas_view c k \<noteq> None" for d w'
    by (auto simp: cl_get_deployment_def stored_deployment_def view_find map_sum_def split: sum.splits)
  show "Apply_Config kube a m f c = (None, w') \<Longrightarrow> ac_key a = (KDeployment, k) \<Longrightarrow>
      applied_replicas a = Some n \<Longrightarrow> replicas_view c k = None \<Longrightarrow> replicas_view w' k = Some (n, [m])" for n w'
    by (simp add: cl_apply_with_new)
  show "kd \<noteq> KDeployment \<Longrightarrow> replicas_view (snd (Delete_Object kube kd k p c)) = replicas_view c" for kd p
    by (intro ext) (simp add: cl_delete_view)
qed (auto simp: cl_delete_view cl_get_service_def cl_get_deployment_def cl_get_unstructured_def
    cl_get_meta_def cl_list_pods_def cl_update_status_def cl_set_condition_def
    intro!: view_same_objects split: option.split)

end
