(* ===== verification/Progress.thy ===== *)
theory Progress
  imports Cluster
begin

section \<open>A pass completes on a healthy cluster\<close>

text \<open>
  On the reference cluster an admitted service whose Deployment is missing, or exists with the
  current selector and is not being deleted, is reconciled by one pass to the end: no error path is
  taken, whichever add-ons are installed. This is what makes the conditional results about completed
  passes say something.
\<close>

definition settled_deployment :: "InferenceService \<Rightarrow> cluster \<Rightarrow> bool" where
  "settled_deployment svc c \<longleftrightarrow>
     (case map_of (cl_Objects c) (KDeployment, svc_key svc) of
        None \<Rightarrow> True
      | Some o' \<Rightarrow> st_Deletion o' = None \<and>
          (case st_Selector o' of None \<Rightarrow> False | Some m \<Rightarrow> maps_Equal m (selectorLabels svc)))"

definition known :: "InferenceService \<Rightarrow> cluster \<Rightarrow> bool" where
  "known svc c \<longleftrightarrow> map_of (cl_Services c) (svc_key svc) \<noteq> None"

definition healthy :: "InferenceService \<Rightarrow> cluster \<Rightarrow> bool" where
  "healthy svc c \<longleftrightarrow> known svc c \<and> settled_deployment svc c"

lemma selector_kept_plain: "applied_selector a = None \<Longrightarrow> selector_kept a o'"
  by (simp add: selector_kept_def)

lemma merge_plain: "merge_replicas m f None cur = Some (release m cur)"
  by (simp add: merge_replicas_def)

text \<open>An apply without replicas or selector is accepted wherever its kind is installed.\<close>

lemma cl_apply_plain:
  assumes "applied_selector a = None" and "applied_replicas a = None"
  shows "\<exists>c'. cl_apply a m f c = (if cl_installed c (fst (ac_key a)) then None else Some (NoMatch ''no matches for kind''), c')"
  using assms by (simp add: cl_apply_def Let_def selector_kept_plain merge_plain split: option.split)

lemma merge_stored_fields [simp]:
  "st_Deletion (merge_stored a m r o') = st_Deletion o'" "st_Selector (merge_stored a m r o') = st_Selector o'"
  by (simp_all add: merge_stored_def)

lemma healthy_update [simp]:
  "fst key \<noteq> KDeployment \<Longrightarrow>
    healthy svc (c\<lparr>cl_Objects := AList.update key o' (cl_Objects c)\<rparr>) = healthy svc c"
  "kind \<noteq> KDeployment \<Longrightarrow>
    healthy svc (c\<lparr>cl_Objects := AList.delete (kind, k) (cl_Objects c)\<rparr>) = healthy svc c"
  by (cases key; simp add: healthy_def known_def settled_deployment_def update_conv')
    (simp add: healthy_def known_def settled_deployment_def delete_conv')

lemma cl_apply_healthy:
  assumes "fst (ac_key a) \<noteq> KDeployment" and "cl_apply a m f c = (e, c')" and "healthy svc c"
  shows "healthy svc c'"
  using assms by (cases rule: cl_apply_cases [of a m f c]) auto

text \<open>The Deployment: an accepted apply leaves it settled and present.\<close>

definition running :: "InferenceService \<Rightarrow> cluster \<Rightarrow> bool" where
  "running svc c \<longleftrightarrow> healthy svc c \<and> map_of (cl_Objects c) (KDeployment, svc_key svc) \<noteq> None"

definition desired_stored :: "InferenceService \<Rightarrow> cluster \<Rightarrow> string \<Rightarrow> stored" where
  "desired_stored svc c m = (case map_of (cl_Objects c) (KDeployment, svc_key svc) of
     None \<Rightarrow> new_stored (AC_Deployment (desiredDeployment svc)) m
   | Some o' \<Rightarrow> merge_stored (AC_Deployment (desiredDeployment svc)) m (release m (st_Replicas o')) o')"

lemma desiredDeployment_key:
  "ac_key (AC_Deployment (desiredDeployment svc)) = (KDeployment, svc_key svc)"
  "applied_selector (AC_Deployment (desiredDeployment svc)) = Some (selectorLabels svc)"
  "applied_selector (AC_Deployment (initialReplicas svc)) = None"
  "applied_replicas (AC_Deployment (desiredDeployment svc)) = None"
  by (simp_all add: desiredDeployment_eq svc_key_def initialReplicas_def)

lemma cl_apply_desired:
  assumes "healthy svc c"
  shows "cl_apply (AC_Deployment (desiredDeployment svc)) m f c =
    (None, c\<lparr>cl_Objects := AList.update (KDeployment, svc_key svc) (desired_stored svc c m) (cl_Objects c)\<rparr>)"
  using assms
  by (auto simp: cl_apply_def Let_def desiredDeployment_key cl_installed_def healthy_def
      settled_deployment_def selector_kept_def merge_plain maps_Equal_iff desired_stored_def
      simp del: ac_key.simps applied_replicas.simps applied_selector.simps split: option.splits)

lemma desired_running:
  assumes "healthy svc c"
  shows "running svc (c\<lparr>cl_Objects :=
    AList.update (KDeployment, svc_key svc) (desired_stored svc c m) (cl_Objects c)\<rparr>)"
  using assms
  by (simp add: running_def healthy_def known_def settled_deployment_def update_conv' desired_stored_def
      new_stored_def maps_Equal_iff desiredDeployment_key
      del: ac_key.simps applied_replicas.simps applied_selector.simps split: option.splits)

lemma cl_apply_initial:
  assumes "running svc c" and "replicas_view c (svc_key svc) = Some (n, [])"
  shows "\<exists>c'. cl_apply (AC_Deployment (initialReplicas svc)) m f c = (None, c') \<and> running svc c'"
  using assms
  by (auto simp: cl_apply_def Let_def cl_installed_def selector_kept_def merge_replicas_def running_def
      healthy_def known_def settled_deployment_def update_conv' desiredDeployment_key replicas_view_def
      initialReplicas_key
      simp del: ac_key.simps applied_selector.simps split: option.splits)

text \<open>The handlers, in the order of the pass.\<close>

lemma deleteIfOwned_healthy:
  assumes "kind \<noteq> KDeployment" and "healthy svc (world s)"
  shows "wp (deleteIfOwned kube sv kind n) (\<lambda>e t. e = None \<and> healthy svc (world t)) s"
  using assms
  by (auto simp: deleteIfOwned_def client_ops wp_simps cl_get_meta_def cl_delete_def find_stored_def
      IgnoreNotFound_def stored_meta_def map_sum_def split: sum.splits option.splits prod.split if_splits)

lemma cl_get_deployment_running:
  "running svc c \<Longrightarrow> \<exists>d. cl_get_deployment (svc_key svc) c = (Inr d, c)"
  by (auto simp: cl_get_deployment_def find_stored_def cl_installed_def running_def)

lemma applyDeployment_healthy:
  assumes "healthy svc (world s)"
  shows "wp (applyDeployment kube svc) (\<lambda>(d, requeue, err) t. \<not> requeue \<and> err = None \<and> running svc (world t)) s"
  using desired_running [OF assms, of FieldOwner] cl_get_deployment_running [OF desired_running [OF assms, of FieldOwner]]
  by (auto simp: applyDeployment_def client_ops wp_simps cl_apply_desired [OF assms] split: prod.split)

lemma createDeployment_healthy:
  assumes "healthy svc (world s)" and "map_of (cl_Objects (world s)) (KDeployment, svc_key svc) = None"
  shows "wp (createDeployment kube svc) (\<lambda>e t. e = None \<and> healthy svc (world t)) s"
proof -
  let ?c = "(world s)\<lparr>cl_Objects := AList.update (KDeployment, svc_key svc)
    (desired_stored svc (world s) FieldOwner) (cl_Objects (world s))\<rparr>"
  have "replicas_view ?c (svc_key svc) = Some (1, [])"
    using assms(2) by (simp add: replicas_view_def update_conv' desired_stored_def new_stored_def
        desiredDeployment_key del: applied_replicas.simps)
  from cl_apply_initial [OF desired_running [OF assms(1)] this, of initialReplicasOwner False]
  show ?thesis
    by (auto simp: createDeployment_def client_ops wp_simps cl_apply_desired [OF assms(1)] running_def)
qed


lemma reconcileDeployment_healthy:
  assumes "healthy svc (world s)"
  shows "wp (reconcileDeployment kube svc)
    (\<lambda>(d, requeue, err) t. \<not> requeue \<and> err = None \<and> healthy svc (world t)) s"
proof -
  have applied: "wp (applyDeployment kube svc)
      (\<lambda>(d, requeue, err) t. \<not> requeue \<and> err = None \<and> healthy svc (world t)) t" if "healthy svc (world t)" for t
    by (rule wp_mono [OF applyDeployment_healthy [OF that]]) (auto simp: running_def)
  have created: "wp (createDeployment kube svc)
      (\<lambda>e. wp (case e of None \<Rightarrow> applyDeployment kube svc | Some err \<Rightarrow> State_Monad.return (None, False, Some err))
         (\<lambda>(d, requeue, err) t. \<not> requeue \<and> err = None \<and> healthy svc (world t))) t"
    if "healthy svc (world t)" "map_of (cl_Objects (world t)) (KDeployment, svc_key svc) = None" for t
    by (rule wp_mono [OF createDeployment_healthy [OF that]]) (auto intro: applied)
  show ?thesis
  proof (cases "map_of (cl_Objects (world s)) (KDeployment, svc_key svc)")
    case None
    then show ?thesis
      using assms by (auto simp: reconcileDeployment_def client_ops wp_simps cl_get_deployment_def
          find_stored_def cl_installed_def intro!: created)
  next
    case (Some o')
    with assms have "st_Deletion o' = None"
      and "\<exists>m. st_Selector o' = Some m \<and> maps_Equal m (selectorLabels svc)"
      by (auto simp: healthy_def settled_deployment_def split: option.splits)
    with Some show ?thesis
      using assms by (auto simp: reconcileDeployment_def client_ops wp_simps cl_get_deployment_def
          find_stored_def cl_installed_def stored_deployment_def outdated_selector_def intro!: applied)
  qed
qed

lemma reconcileClaimTemplate_healthy:
  assumes "healthy svc (world s)"
  shows "wp (reconcileClaimTemplate kube svc) (\<lambda>e t. e = None \<and> healthy svc (world t)) s"
  using assms cl_apply_plain [of "AC_ResourceClaimTemplate (desiredClaimTemplate svc)" FieldOwner True "world s"]
  by (auto simp: reconcileClaimTemplate_def client_ops wp_simps cl_installed_def split: prod.split
      intro: deleteIfOwned_healthy dest: cl_apply_healthy [rotated])

lemma reconcileService_healthy:
  assumes "healthy svc (world s)"
  shows "wp (reconcileService kube svc) (\<lambda>e t. e = None \<and> healthy svc (world t)) s"
  using assms cl_apply_plain [of "AC_Service (desiredService svc)" FieldOwner True "world s"]
  by (auto simp: reconcileService_def client_ops wp_simps cl_installed_def split: prod.split
      dest: cl_apply_healthy [rotated])

lemma reconcileRouting_healthy:
  assumes "healthy svc (world s)"
  shows "wp (reconcileRouting kube svc) (\<lambda>e t. e = None \<and> healthy svc (world t)) s"
  using assms cl_apply_plain [of "AC_Unstructured (desiredInferencePool svc)" FieldOwner True "world s"]
  by (auto simp: reconcileRouting_def client_ops wp_simps cl_set_condition_def
      split: prod.split option.split if_splits dest: cl_apply_healthy [rotated])


lemma cl_apply_stored:
  assumes "cl_apply a m f c = (None, c')"
  shows "map_of (cl_Objects c') (ac_key a) \<noteq> None" and "cl_installed c' (fst (ac_key a))"
proof -
  show "map_of (cl_Objects c') (ac_key a) \<noteq> None"
    using assms by (cases rule: cl_apply_cases [of a m f c]) (auto simp: update_conv')
  have "cl_installed c (fst (ac_key a))" using assms by (simp add: cl_apply_def Let_def split: if_splits)
  moreover have "cl_Installed c' = cl_Installed c"
    using assms by (cases rule: cl_apply_cases [of a m f c]) auto
  ultimately show "cl_installed c' (fst (ac_key a))" by (simp add: cl_installed_def split: ObjKind.splits)
qed

lemma scaler_found:
  assumes "cl_apply (AC_Unstructured (desiredScaledObject svc addr)) m f c = (None, c')"
  shows "\<exists>so. cl_get_unstructured scaledObjectGVK (svc_key svc) c' = (Inr so, c')"
  using cl_apply_stored [OF assms]
  by (auto simp: cl_get_unstructured_def find_stored_def scaler.key svc_key_def simp del: ac_key.simps)

lemma reconcileAutoscaling_healthy:
  assumes "healthy svc (world s)"
  shows "wp (reconcileAutoscaling kube addr svc) (\<lambda>e t. e = None \<and> healthy svc (world t)) s"
proof (cases "Backend (Spec svc) = BackendOllama")
  case True
  with assms show ?thesis
    by (simp add: reconcileAutoscaling_def deleteUnstructuredIfOwned_def wp_simps cl_set_condition_def
        deleteIfOwned_healthy)
next
  case False
  obtain e c' where ap: "cl_apply (AC_Unstructured (desiredScaledObject svc addr)) FieldOwner True (world s) = (e, c')"
    by fastforce
  have h: "healthy svc c'" by (rule cl_apply_healthy [OF _ ap assms]) simp
  show ?thesis
  proof (cases e)
    case None
    with ap obtain so where "cl_get_unstructured scaledObjectGVK (svc_key svc) c' = (Inr so, c')"
      using scaler_found by blast
    with None ap False h show ?thesis
      by (simp add: reconcileAutoscaling_def client_ops wp_simps cl_set_condition_def
          split: prod.split ConditionStatus.split)
  next
    case (Some err)
    then have "IsNoMatchError err"
      using ap cl_apply_plain [of "AC_Unstructured (desiredScaledObject svc addr)" FieldOwner True "world s"]
      by (auto split: if_splits)
    with Some ap False h show ?thesis
      by (simp add: reconcileAutoscaling_def client_ops wp_simps cl_set_condition_def)
  qed
qed

lemma reportStatus_completes:
  assumes "healthy svc (world s)"
  shows "wp (reportStatus kube svc d) (\<lambda>out t. completed out \<and> healthy svc (world t)) s"
  using assms
  by (auto simp: reportStatus_def podTrouble_def client_ops wp_simps cl_list_pods_def cl_set_condition_def
      completed_def split: prod.split)

lemma reconcile_healthy:
  assumes "policyViolation svc = []" and "healthy svc (world s)"
  shows "wp (reconcile kube addr svc) (\<lambda>out t. completed out \<and> healthy svc (world t)) s"
proof -
  let ?H = "\<lambda>t. healthy svc (world t)"
  have on: "wp m (\<lambda>e u. case e of None \<Rightarrow> ?H u | Some err \<Rightarrow> R err u) t"
    if "wp m (\<lambda>e u. e = None \<and> ?H u) t" for m t R
    by (rule wp_mono [OF that]) auto
  show ?thesis
  proof (rule reconcile_rule [where ?A0.0 = ?H and ?A1.0 = ?H and ?A2.0 = "\<lambda>_. ?H" and ?A3.0 = "\<lambda>_. ?H"
        and ?A4.0 = "\<lambda>_. ?H" and ?A5.0 = "\<lambda>_. ?H"])
    fix t :: "cluster pass" assume h: "?H t"
    show "wp (reconcileDeployment kube svc) (\<lambda>(d, requeue, err) u.
        if err \<noteq> None \<or> requeue then completed (Result 5, err) \<and> healthy svc (world u) else ?H u) t"
      by (rule wp_mono [OF reconcileDeployment_healthy [OF h]]) auto
  qed (use assms in \<open>auto simp: cl_set_condition_def reconcileClaimTemplate_healthy reconcileService_healthy
      reconcileAutoscaling_healthy reconcileRouting_healthy reportStatus_completes intro!: on\<close>)
qed

lemma pass_completes_healthy:
  assumes "map_of (cl_Services c) req = Some svc" and "svc_key svc = req"
    and "policyViolation svc = []" and "settled_deployment svc c"
  shows "completed (pass_outcome kube addr req c)"
proof -
  have "healthy svc c" using assms by (auto simp: healthy_def known_def)
  then have "wp (reconcile kube addr svc) (\<lambda>out t. completed out \<and> healthy svc (world t)) (started req svc c)"
    by (intro reconcile_healthy [OF assms(3)]) simp
  then have "wp (reconcile kube addr svc) (\<lambda>out t. completed out \<and> known svc (world t)) (started req svc c)"
    by (rule wp_mono) (simp add: healthy_def)
  then have "wp (Reconcile kube addr req) (\<lambda>out t. completed out) (start c)"
    unfolding Reconcile_def client_ops
    by (auto simp: wp_simps cl_get_service_def assms(1) start_def started_def read_service_def
        cl_update_status_def known_def svc_key_def split: option.split elim!: wp_mono)
  then show ?thesis by (rule wp_pass)
qed

end
