(* ===== verification/Lifecycle.thy ===== *)
theory Lifecycle
  imports Progress
begin

section \<open>The life of a cluster: the operator among other actors\<close>

text \<open>
  The steps a cluster takes: a pass of the operator for some service, a write of the replica count
  by another field manager such as the Horizontal Pod Autoscaler, and anything else other actors do
  (specs, pods, readiness, KEDA's reports, installed kinds, the clock, objects made, changed and
  removed by others). Between two steps anything may happen in any order. The invariant is the
  design of \<open>createDeployment\<close>: the manager the operator applies under never owns a replica count.
\<close>

definition write_scale :: "NamespacedName \<Rightarrow> string \<Rightarrow> int32 \<Rightarrow> cluster \<Rightarrow> cluster" where
  "write_scale k m n c = (case map_of (cl_Objects c) (KDeployment, k) of
     None \<Rightarrow> c
   | Some o' \<Rightarrow> c\<lparr>cl_Objects := AList.update (KDeployment, k) (o'\<lparr>st_Replicas := (n, [m])\<rparr>) (cl_Objects c)\<rparr>)"

text \<open>
  What everybody else may do: anything but take a replica count under the operator's name. Deployments
  may come, go and be scaled.
\<close>

definition others_write :: "cluster \<Rightarrow> cluster \<Rightarrow> bool" where
  "others_write c c' \<longleftrightarrow> (\<forall>k n own. replicas_view c' k = Some (n, own) \<and> FieldOwner \<in> set own \<longrightarrow>
     replicas_view c k = Some (n, own))"

inductive cluster_step :: "string \<Rightarrow> cluster \<Rightarrow> cluster \<Rightarrow> bool" for addr where
  operator: "cluster_step addr c (pass_world kube addr req c)"
| scaler: "m \<noteq> FieldOwner \<Longrightarrow> cluster_step addr c (write_scale k m n c)"
| environment: "others_write c c' \<Longrightarrow> cluster_step addr c c'"

inductive reachable :: "string \<Rightarrow> cluster \<Rightarrow> bool" for addr where
  initial: "cl_Objects c = [] \<Longrightarrow> reachable addr c"
| further: "reachable addr c \<Longrightarrow> cluster_step addr c c' \<Longrightarrow> reachable addr c'"

inductive_cases cluster_stepE: "cluster_step addr c c'"

lemma write_scale_view:
  "replicas_view (write_scale k m n c) k' =
    (if k' = k \<and> replicas_view c k \<noteq> None then Some (n, [m]) else replicas_view c k')"
  by (auto simp: write_scale_def replicas_view_def update_conv' split: option.split)

lemma unowned_initial: "cl_Objects c = [] \<Longrightarrow> unowned replicas_view c"
  by (simp add: unowned_def replicas_view_def)

lemma write_scale_unowned: "m \<noteq> FieldOwner \<Longrightarrow> unowned replicas_view c \<Longrightarrow> unowned replicas_view (write_scale k m n c)"
  by (auto simp: unowned_def write_scale_view split: if_splits)

lemma others_write_unowned: "others_write c c' \<Longrightarrow> unowned replicas_view c \<Longrightarrow> unowned replicas_view c'"
  unfolding unowned_def others_write_def by blast

lemma step_unowned:
  assumes "cluster_step addr c c'" and "unowned replicas_view c"
  shows "unowned replicas_view c'"
  using assms
  by (elim cluster_stepE) (auto intro: kube_apply.pass_unowned write_scale_unowned others_write_unowned)

lemma reachable_unowned: "reachable addr c \<Longrightarrow> unowned replicas_view c"
  by (induction rule: reachable.induct) (auto intro: unowned_initial step_unowned)

text \<open>So a pass, wherever it comes, leaves every count there is as it is, or its Deployment gone.\<close>

lemma reachable_pass_keeps:
  assumes "reachable addr c" and "replicas_view c k = Some (n, own)"
  shows "replicas_view (pass_world kube addr req c) k = None \<or>
    (\<exists>own'. replicas_view (pass_world kube addr req c) k = Some (n, own'))"
  using kube_apply.pass_keeps_or_gone [of c addr req] assms(2)
    unownedD [OF reachable_unowned [OF assms(1)] assms(2)]
  unfolding keeps_or_gone_def by blast

text \<open>
  A run of the operator alone, over any list of requests: the count of a Deployment that is still
  there at every step is the one it had.
\<close>

fun passes :: "string \<Rightarrow> NamespacedName list \<Rightarrow> cluster \<Rightarrow> cluster" where
  "passes addr [] c = c"
| "passes addr (req # reqs) c = passes addr reqs (pass_world kube addr req c)"

fun throughout :: "(cluster \<Rightarrow> bool) \<Rightarrow> string \<Rightarrow> NamespacedName list \<Rightarrow> cluster \<Rightarrow> bool" where
  "throughout I addr [] c \<longleftrightarrow> I c"
| "throughout I addr (req # reqs) c \<longleftrightarrow> I c \<and> throughout I addr reqs (pass_world kube addr req c)"

lemma passes_keep:
  assumes "reachable addr c" and "replicas_view c k = Some (n, own)"
    and "throughout (\<lambda>c. replicas_view c k \<noteq> None) addr reqs c"
  shows "\<exists>own'. replicas_view (passes addr reqs c) k = Some (n, own')"
  using assms
proof (induction reqs arbitrary: c own)
  case (Cons req reqs)
  let ?c = "pass_world kube addr req c"
  have "replicas_view ?c k \<noteq> None" using Cons.prems(3) by (cases reqs) auto
  with reachable_pass_keeps [OF Cons.prems(1,2), of req] obtain own' where "replicas_view ?c k = Some (n, own')"
    by blast
  moreover have "reachable addr ?c"
    using Cons.prems(1) by (auto intro: reachable.further cluster_step.operator)
  ultimately show ?case using Cons.IH [of ?c own'] Cons.prems(3) by simp
qed auto

end
