(* ===== verification/Convergence.thy ===== *)
theory Convergence
  imports Lifecycle Setup
begin

section \<open>Convergence: passes reach the desired state and rest there\<close>

text \<open>
  The reconciler is level-triggered: it sends the whole desired state every time and relies on the
  API server to store nothing when nothing differs. Here the reference cluster runs the passes. Each
  handler is responsible for one key (locale \<open>placing_step\<close>): it touches no other, it leaves its object
  as desired when it succeeds, and it changes nothing when its object is already so. A completed pass
  therefore leaves every object as desired, and a pass over such a cluster changes no object at all.
\<close>

subsection \<open>Objects in place\<close>

definition placed :: "apply_config \<Rightarrow> cluster \<Rightarrow> bool" where
  "placed a c \<longleftrightarrow> (cl_installed c (fst (ac_key a)) \<longrightarrow>
     (\<exists>o'. map_of (cl_Objects c) (ac_key a) = Some o' \<and> map_of (st_Applied o') FieldOwner = Some a \<and>
        st_Owners o' = map owner_of_ac (ac_owners a) \<and> FieldOwner \<notin> set (snd (st_Replicas o'))))"

definition removed :: "InferenceService \<Rightarrow> ObjKind \<Rightarrow> string \<Rightarrow> cluster \<Rightarrow> bool" where
  "removed svc kind n c \<longleftrightarrow> (\<forall>o'. find_stored c kind (Namespace svc, n) = Inr o' \<longrightarrow>
     \<not> controlled_by (stored_meta (Namespace svc, n) o') (svc_meta svc))"

definition claim_in_place :: "InferenceService \<Rightarrow> cluster \<Rightarrow> bool" where
  "claim_in_place svc c \<longleftrightarrow>
     (if DeviceClass (Spec svc) \<noteq> [] then placed (AC_ResourceClaimTemplate (desiredClaimTemplate svc)) c
      else removed svc KResourceClaimTemplate (claimTemplateName svc) c)"

definition scaler_in_place :: "string \<Rightarrow> InferenceService \<Rightarrow> cluster \<Rightarrow> bool" where
  "scaler_in_place addr svc c \<longleftrightarrow>
     (if Backend (Spec svc) = BackendOllama then removed svc (KUnstructured scaledObjectGVK) (Name svc) c
      else placed (AC_Unstructured (desiredScaledObject svc addr)) c)"

definition in_place :: "string \<Rightarrow> InferenceService \<Rightarrow> cluster \<Rightarrow> bool" where
  "in_place addr svc c \<longleftrightarrow> claim_in_place svc c \<and> placed (AC_Deployment (desiredDeployment svc)) c \<and>
     placed (AC_Service (desiredService svc)) c \<and> scaler_in_place addr svc c \<and>
     placed (AC_Unstructured (desiredInferencePool svc)) c"

subsection \<open>Frames\<close>

definition frame :: "object_key set \<Rightarrow> cluster \<Rightarrow> cluster \<Rightarrow> bool" where
  "frame K c c' \<longleftrightarrow> cl_Services c' = cl_Services c \<and> cl_Installed c' = cl_Installed c \<and>
     (\<forall>k. k \<notin> K \<longrightarrow> map_of (cl_Objects c') k = map_of (cl_Objects c) k)"

lemma frame_refl [simp]: "frame K c c"
  by (simp add: frame_def)

lemma frame_trans: "frame K c d \<Longrightarrow> frame K d e \<Longrightarrow> frame K c e"
  by (simp add: frame_def)

lemma frame_mono: "frame K c d \<Longrightarrow> K \<subseteq> L \<Longrightarrow> frame L c d"
  by (auto simp: frame_def)

lemma frame_update [simp]:
  "k \<in> K \<Longrightarrow> frame K c (c\<lparr>cl_Objects := AList.update k o' (cl_Objects c)\<rparr>)"
  "k \<in> K \<Longrightarrow> frame K c (c\<lparr>cl_Objects := AList.delete k (cl_Objects c)\<rparr>)"
  by (auto simp: frame_def update_conv' delete_conv')

lemma frame_apply: "cl_apply a m f c = (e, c') \<Longrightarrow> ac_key a \<in> K \<Longrightarrow> frame K c c'"
  by (cases rule: cl_apply_cases [of a m f c]) auto

lemma frame_delete: "cl_delete kind k p c = (e, c') \<Longrightarrow> (kind, k) \<in> K \<Longrightarrow> frame K c c'"
  by (auto simp: cl_delete_def split: sum.splits)

lemma frame_object: "frame K c c' \<Longrightarrow> k \<notin> K \<Longrightarrow> map_of (cl_Objects c') k = map_of (cl_Objects c) k"
  unfolding frame_def by blast

lemma frame_installed: "frame K c c' \<Longrightarrow> cl_installed c' = cl_installed c"
  by (intro ext) (simp add: frame_def cl_installed_def split: ObjKind.split)

lemma cl_installed_objects [simp]: "cl_installed (c\<lparr>cl_Objects := os\<rparr>) = cl_installed c"
  by (intro ext) (simp add: cl_installed_def split: ObjKind.split)

lemma placed_frame: "frame K c c' \<Longrightarrow> ac_key a \<notin> K \<Longrightarrow> placed a c' = placed a c"
  by (simp add: placed_def frame_object frame_installed)

lemma find_stored_frame: "frame K c c' \<Longrightarrow> (kind, k) \<notin> K \<Longrightarrow> find_stored c' kind k = find_stored c kind k"
  by (simp add: find_stored_def frame_object frame_installed)

lemma removed_frame: "frame K c c' \<Longrightarrow> (kind, Namespace svc, n) \<notin> K \<Longrightarrow> removed svc kind n c' = removed svc kind n c"
  by (simp add: removed_def find_stored_frame)

subsection \<open>Applying and deleting\<close>

lemma release_unowned: "release FieldOwner v = (n, own) \<Longrightarrow> FieldOwner \<notin> set own"
  by (cases v) (auto simp: release_def split: if_splits)

lemma release_idle: "FieldOwner \<notin> set (snd v) \<Longrightarrow> release FieldOwner v = v"
  by (cases v; cases "snd v") (auto simp: release_def)

lemma apply_places:
  assumes "cl_apply a FieldOwner f c = (None, c')" and "applied_replicas a = None" and "ac_owners a \<noteq> []"
  shows "placed a c'"
  using assms by (cases rule: cl_apply_cases [of a FieldOwner f c])
    (auto simp: placed_def new_stored_def merge_stored_def update_conv' merge_plain dest: release_unowned)

lemma apply_no_match:
  assumes "cl_apply a m f c = (Some e, c')" and "IsNoMatchError e"
  shows "placed a c'"
  using assms by (auto simp: cl_apply_def Let_def placed_def split: if_splits option.splits)

lemma apply_idle:
  assumes "placed a c" and "applied_replicas a = None" and "ac_owners a \<noteq> []"
    and "\<And>o'. map_of (cl_Objects c) (ac_key a) = Some o' \<Longrightarrow> selector_kept a o'"
  shows "\<exists>e. cl_apply a FieldOwner f c = (e, c)"
proof (cases "cl_installed c (fst (ac_key a))")
  case True
  with assms(1) obtain o' where o': "map_of (cl_Objects c) (ac_key a) = Some o'"
    and "map_of (st_Applied o') FieldOwner = Some a" "st_Owners o' = map owner_of_ac (ac_owners a)"
    and own: "FieldOwner \<notin> set (snd (st_Replicas o'))"
    by (auto simp: placed_def)
  then have "merge_stored a FieldOwner (st_Replicas o') o' = o'"
    using assms(3) by (simp add: merge_stored_def update_triv)
  with o' True show ?thesis
    by (simp add: cl_apply_def Let_def assms(2,4) merge_plain release_idle [OF own] update_triv)
qed (simp add: cl_apply_def)

lemma deleteIfOwned_removes:
  "wp (deleteIfOwned kube svc kind n) (\<lambda>e t. e = None \<and> removed svc kind n (world t)) s"
  by (auto simp: deleteIfOwned_def client_ops wp_simps cl_get_meta_def cl_delete_def removed_def
      IgnoreNotFound_def find_stored_def stored_meta_def map_sum_def delete_conv'
      split: sum.splits prod.split if_splits option.splits)

lemma deleteIfOwned_idle:
  assumes "removed svc kind n (world s)"
  shows "wp (deleteIfOwned kube svc kind n) (\<lambda>_ t. world t = world s) s"
  using assms
  by (auto simp: deleteIfOwned_def client_ops wp_simps cl_get_meta_def removed_def map_sum_def
      split: sum.splits)

subsection \<open>The contract of a handler\<close>

text \<open>
  \<open>goal\<close> says that the handler's object is as desired; whether it is depends on one key of the cluster.
\<close>

locale placing_step =
  fixes step :: "string \<Rightarrow> InferenceService \<Rightarrow> (cluster pass, 'r) state"
    and ok :: "'r \<Rightarrow> bool"
    and key :: "InferenceService \<Rightarrow> object_key"
    and goal :: "string \<Rightarrow> InferenceService \<Rightarrow> cluster \<Rightarrow> bool"
  assumes framed: "wp (step addr svc) (\<lambda>_ t. frame {key svc} (world s) (world t)) s"
    and places: "wp (step addr svc) (\<lambda>r t. ok r \<longrightarrow> goal addr svc (world t)) s"
    and idle: "goal addr svc (world s) \<Longrightarrow> settled_deployment svc (world s) \<Longrightarrow>
      wp (step addr svc) (\<lambda>_ t. world t = world s) s"
    and local_goal: "frame K c c' \<Longrightarrow> key svc \<notin> K \<Longrightarrow> goal addr svc c' = goal addr svc c"
begin

lemma adds:
  assumes "D (world s)" and "\<And>c c'. frame {key svc} c c' \<Longrightarrow> D c \<Longrightarrow> D c'"
  shows "wp (step addr svc) (\<lambda>r t. ok r \<longrightarrow> D (world t) \<and> goal addr svc (world t)) s"
  by (rule wp_mono [OF wp_conj [OF framed places]]) (use assms in blast)

lemma kept_elsewhere: "frame {k} c c' \<Longrightarrow> key svc \<noteq> k \<Longrightarrow> goal addr svc c \<Longrightarrow> goal addr svc c'"
  using local_goal [of "{k}" c c' svc addr] by simp

end

text \<open>A computation confined to the keys \<open>K\<close>.\<close>

definition confined :: "object_key set \<Rightarrow> (cluster pass, 'a) state \<Rightarrow> bool" where
  "confined K m \<longleftrightarrow> (\<forall>s. wp m (\<lambda>_ t. frame K (world s) (world t)) s)"

lemma confinedI: "(\<And>s. wp m (\<lambda>_ t. frame K (world s) (world t)) s) \<Longrightarrow> confined K m"
  by (simp add: confined_def)

lemma confinedD: "confined K m \<Longrightarrow> wp m (\<lambda>_ t. frame K (world s) (world t)) s"
  by (simp add: confined_def)

lemma confined_bind_wp:
  assumes "confined K m" and "\<And>s. wp m (\<lambda>a _. R a) s" and "\<And>a. R a \<Longrightarrow> confined K (f a)"
  shows "confined K (State_Monad.bind m f)"
  unfolding confined_def wp_bind
  by (intro allI, rule wp_mono [OF wp_conj [OF confinedD [OF assms(1)] assms(2)]])
    (auto intro: wp_mono [OF confinedD [OF assms(3)]] frame_trans)

lemma confined_bind: "confined K m \<Longrightarrow> (\<And>a. confined K (f a)) \<Longrightarrow> confined K (State_Monad.bind m f)"
  by (rule confined_bind_wp [where R = "\<lambda>_. True"]) (auto simp: wp_def split: prod.split)

lemma confined_return: "confined K (State_Monad.return a)"
  by (simp add: confined_def wp_simps)

lemma confined_if: "confined K m \<Longrightarrow> confined K n \<Longrightarrow> confined K (if b then m else n)"
  by simp

lemma confined_case_option:
  "confined K m \<Longrightarrow> (\<And>x. confined K (f x)) \<Longrightarrow> confined K (case e of None \<Rightarrow> m | Some x \<Rightarrow> f x)"
  by (cases e) simp_all

lemma confined_condition: "confined K (condition kube svc t c r m)"
  by (simp add: confined_def condition_def wp_simps cl_set_condition_def)

lemma confined_apply: "ac_key a \<in> K \<Longrightarrow> confined K (apply_config kube a m f)"
  by (auto simp: confined_def client_ops wp_simps split: prod.split intro: frame_apply)

lemma confined_delete: "(kind, k) \<in> K \<Longrightarrow> confined K (delete_object kube kind k p)"
  by (auto simp: confined_def client_ops wp_simps split: prod.split intro: frame_delete)

text \<open>What a read returns lies under the key it was asked for.\<close>

lemma confined_reads:
  "confined K (get_deployment kube k)" "confined K (get_meta kube kind k)" "confined K (get_unstructured kube g k)"
  by (simp_all add: confined_def client_ops wp_simps cl_get_deployment_def cl_get_meta_def cl_get_unstructured_def)

lemma confined_get_deployment:
  assumes "\<And>err. confined K (f (Inl err))" and "\<And>d. (Namespace d, Name d) = k \<Longrightarrow> confined K (f (Inr d))"
  shows "confined K (State_Monad.bind (get_deployment kube k) f)"
proof (rule confined_bind_wp [where R = "\<lambda>r. \<forall>d. r = Inr d \<longrightarrow> (Namespace d, Name d) = k"])
  show "wp (get_deployment kube k) (\<lambda>r _. \<forall>d. r = Inr d \<longrightarrow> (Namespace d, Name d) = k) s" for s
    by (auto simp: client_ops wp_simps cl_get_deployment_def stored_deployment_def map_sum_def split: sum.splits)
  show "confined K (f r)" if "\<forall>d. r = Inr d \<longrightarrow> (Namespace d, Name d) = k" for r
    using that assms by (cases r) blast+
qed (rule confined_reads)

lemma confined_get_meta:
  assumes "\<And>err. confined K (f (Inl err))" and "\<And>m. (Namespace m, Name m) = k \<Longrightarrow> confined K (f (Inr m))"
  shows "confined K (State_Monad.bind (get_meta kube kind k) f)"
proof (rule confined_bind_wp [where R = "\<lambda>r. \<forall>m. r = Inr m \<longrightarrow> (Namespace m, Name m) = k"])
  show "wp (get_meta kube kind k) (\<lambda>r _. \<forall>m. r = Inr m \<longrightarrow> (Namespace m, Name m) = k) s" for s
    by (auto simp: client_ops wp_simps cl_get_meta_def stored_meta_def map_sum_def split: sum.splits)
  show "confined K (f r)" if "\<forall>m. r = Inr m \<longrightarrow> (Namespace m, Name m) = k" for r
    using that assms by (cases r) blast+
qed (rule confined_reads)

lemmas confined_rules = confined_get_deployment confined_get_meta confined_bind confined_return confined_if
  confined_case_option confined_condition confined_apply confined_delete confined_reads

lemma desired_key [simp]:
  "ac_key (AC_Deployment (desiredDeployment svc)) = (KDeployment, svc_key svc)"
  "ac_key (AC_Deployment (initialReplicas svc)) = (KDeployment, svc_key svc)"
  "ac_key (AC_Service (desiredService svc)) = (KService, svc_key svc)"
  "ac_key (AC_ResourceClaimTemplate (desiredClaimTemplate svc)) =
    (KResourceClaimTemplate, Namespace svc, claimTemplateName svc)"
  "ac_key (AC_Unstructured (desiredScaledObject svc addr)) = (KUnstructured scaledObjectGVK, svc_key svc)"
  "ac_key (AC_Unstructured (desiredInferencePool svc)) = (KUnstructured inferencePoolGVK, svc_key svc)"
  by (simp_all only: deployment.key service.key template.key scaler.key pool.key svc_key_def initialReplicas_key)

lemma desired_owned [simp]:
  "ac_owners (AC_Deployment (desiredDeployment svc)) \<noteq> []" "ac_owners (AC_Service (desiredService svc)) \<noteq> []"
  "ac_owners (AC_ResourceClaimTemplate (desiredClaimTemplate svc)) \<noteq> []"
  "ac_owners (AC_Unstructured (desiredScaledObject svc addr)) \<noteq> []"
  "ac_owners (AC_Unstructured (desiredInferencePool svc)) \<noteq> []"
  by (simp_all only: deployment.owner service.owner template.owner scaler.owner pool.owner not_Cons_self2 list.distinct simp_thms)

lemma desired_replicas [simp]: "applied_replicas (AC_Deployment (desiredDeployment svc)) = None"
  by (rule desiredDeployment_key)

declare ac_key.simps [simp del] ac_owners.simps [simp del] applied_replicas.simps [simp del]

subsection \<open>The handlers meet it\<close>

definition deployed :: "Deployment option \<times> bool \<times> go_error option \<Rightarrow> bool" where
  "deployed = (\<lambda>(d, requeue, err). err = None \<and> \<not> requeue)"

lemma deployed_simps [simp]:
  "\<not> deployed (d, requeue, Some err)" "\<not> deployed (d, True, e)" "deployed (d, False, None)"
  by (simp_all add: deployed_def)

lemma apply_none_places:
  assumes "applied_replicas a = None" and "ac_owners a \<noteq> []"
  shows "wp (apply_config kube a FieldOwner f) (\<lambda>e t. e = None \<longrightarrow> placed a (world t)) s"
  using assms by (auto simp: client_ops wp_simps split: prod.split intro: apply_places)

lemma apply_idle_plain:
  assumes "placed a c" and "applied_replicas a = None" and "ac_owners a \<noteq> []" and "applied_selector a = None"
  obtains e where "cl_apply a FieldOwner f c = (e, c)"
  using apply_idle [OF assms(1-3)] selector_kept_plain [OF assms(4)] by blast

lemma confined_deleteIfOwned: "(kind, Namespace svc, n) \<in> K \<Longrightarrow> confined K (deleteIfOwned kube svc kind n)"
  unfolding deleteIfOwned_def by (rule confined_rules | simp only: sum.case | (simp; fail))+

lemma confined_applyDeployment: "confined {(KDeployment, svc_key svc)} (applyDeployment kube svc)"
  unfolding applyDeployment_def by (rule confined_rules | simp only: sum.case | (simp; fail))+

lemma confined_createDeployment: "confined {(KDeployment, svc_key svc)} (createDeployment kube svc)"
  unfolding createDeployment_def by (rule confined_rules | simp only: sum.case | (simp; fail))+

lemma confined_reconcileDeployment: "confined {(KDeployment, svc_key svc)} (reconcileDeployment kube svc)"
  unfolding reconcileDeployment_def
  by (rule confined_createDeployment confined_applyDeployment confined_rules | simp only: sum.case | (simp; fail))+

lemma applyDeployment_places:
  "wp (applyDeployment kube svc) (\<lambda>r t. deployed r \<longrightarrow> placed (AC_Deployment (desiredDeployment svc)) (world t)) s"
  unfolding applyDeployment_def wp_bind
  by (rule wp_mono [OF apply_none_places [of "AC_Deployment (desiredDeployment svc)" True]])
    (auto simp: wp_simps get_deployment_def cl_get_deployment_def split: option.split sum.split)

lemma reconcileDeployment_places:
  "wp (reconcileDeployment kube svc) (\<lambda>r t. deployed r \<longrightarrow> placed (AC_Deployment (desiredDeployment svc)) (world t)) s"
proof -
  let ?Q = "\<lambda>r t. deployed r \<longrightarrow> placed (AC_Deployment (desiredDeployment svc)) (world t)"
  have created: "wp (createDeployment kube svc) (\<lambda>e. wp (case e of
      Some err \<Rightarrow> State_Monad.return (None, False, Some err) | None \<Rightarrow> applyDeployment kube svc) ?Q) t" for t
    by (rule wp_mono [of _ "\<lambda>_ _. True"])
      (auto simp: wp_def [of "createDeployment kube svc"] wp_simps applyDeployment_places split: option.split prod.split)
  show ?thesis
    unfolding reconcileDeployment_def
    by (auto simp: wp_simps get_deployment_def delete_object_def condition_def cl_set_condition_def created applyDeployment_places
        split: sum.split option.split prod.split)
qed

lemma confined_handlers:
  "confined {(KResourceClaimTemplate, Namespace svc, claimTemplateName svc)} (reconcileClaimTemplate kube svc)"
  "confined {(KService, svc_key svc)} (reconcileService kube svc)"
  "confined {(KUnstructured inferencePoolGVK, svc_key svc)} (reconcileRouting kube svc)"
  unfolding reconcileClaimTemplate_def reconcileService_def reconcileRouting_def
  by (rule confined_deleteIfOwned confined_rules | simp only: sum.case | (simp; fail))+

lemma confined_reconcileAutoscaling:
  "confined {(KUnstructured scaledObjectGVK, svc_key svc)} (reconcileAutoscaling kube addr svc)"
proof -
  have report: "confined K (case scaledObjectReady kube so of (st, reason, message) \<Rightarrow> (case st of
      ConditionTrue \<Rightarrow> condition kube svc t1 s1 r1 m1
    | ConditionFalse \<Rightarrow> condition kube svc t2 s2 r2 (f2 reason message)
    | ConditionUnknown \<Rightarrow> condition kube svc t3 s3 r3 m3))" for K so t1 t2 t3 s1 s2 s3 r1 r2 r3 m1 f2 m3
    by (auto simp: confined_condition split: prod.split ConditionStatus.split)
  have read: "confined K (case r of
      Inl err \<Rightarrow> State_Monad.return (Some (Wrapf ''read scaledobject'' err))
    | Inr so \<Rightarrow> g so)" if "\<And>so. confined K (g so)" for K r g
    using that by (cases r) (simp_all add: confined_return)
  show ?thesis
    unfolding reconcileAutoscaling_def deleteUnstructuredIfOwned_def
    by (rule report read confined_deleteIfOwned confined_rules | (simp add: svc_key_def; fail))+
qed

lemma confined_reportStatus: "confined {} (reportStatus kube svc d)"
proof (rule confinedI)
  show "wp (reportStatus kube svc d) (\<lambda>_ t. frame {} (world s) (world t)) s" for s
    by (auto simp: reportStatus_def podTrouble_def client_ops wp_simps cl_list_pods_def condition_def
        cl_set_condition_def split: prod.split)
qed

lemma reportStatus_idle: "wp (reportStatus kube svc d) (\<lambda>_ t. world t = world s) s"
  by (auto simp: reportStatus_def podTrouble_def client_ops wp_simps cl_list_pods_def condition_def
      cl_set_condition_def split: prod.split)

lemma apply_plain_idle:
  assumes "placed a (world s)" and "applied_replicas a = None" and "ac_owners a \<noteq> []"
    and "applied_selector a = None"
  shows "wp (apply_config kube a FieldOwner f) (\<lambda>_ t. world t = world s) s"
  by (rule apply_idle_plain [OF assms, of f]) (simp add: client_ops wp_simps)

lemma plain_replicas [simp]: "applied_replicas (AC_Service a) = None" "applied_replicas (AC_Unstructured u) = None"
    "applied_replicas (AC_ResourceClaimTemplate t) = None"
  by (simp_all add: applied_replicas.simps)

lemma placed_or_missing:
  assumes "ac_owners a \<noteq> []" and "applied_replicas a = None"
  shows "wp (apply_config kube a FieldOwner True)
    (\<lambda>e t. (case e of None \<Rightarrow> placed a (world t) | Some err \<Rightarrow> IsNoMatchError err \<longrightarrow> placed a (world t))) s"
  using assms by (auto simp: client_ops wp_simps split: prod.split option.split
      intro: apply_places apply_no_match)

interpretation claim_places: placing_step "\<lambda>_ svc. reconcileClaimTemplate kube svc" "\<lambda>e. e = None"
  "\<lambda>svc. (KResourceClaimTemplate, Namespace svc, claimTemplateName svc)" "\<lambda>_. claim_in_place"
proof
  fix svc :: InferenceService and s :: "cluster pass"
  show "wp (reconcileClaimTemplate kube svc)
      (\<lambda>_ t. frame {(KResourceClaimTemplate, Namespace svc, claimTemplateName svc)} (world s) (world t)) s"
    by (rule confinedD [OF confined_handlers(1)])
  show "wp (reconcileClaimTemplate kube svc) (\<lambda>e t. e = None \<longrightarrow> claim_in_place svc (world t)) s"
    by (auto simp: reconcileClaimTemplate_def claim_in_place_def wp_simps
        intro: wp_mono [OF deleteIfOwned_removes] wp_mono [OF apply_none_places])
  show "wp (reconcileClaimTemplate kube svc) (\<lambda>_ t. world t = world s) s" if "claim_in_place svc (world s)"
    using that by (auto simp: reconcileClaimTemplate_def claim_in_place_def wp_simps
        intro: deleteIfOwned_idle wp_mono [OF apply_plain_idle] split: if_splits)
qed (simp add: claim_in_place_def placed_frame removed_frame)

interpretation service_places: placing_step "\<lambda>_ svc. reconcileService kube svc" "\<lambda>e. e = None"
  "\<lambda>svc. (KService, svc_key svc)" "\<lambda>_ svc. placed (AC_Service (desiredService svc))"
proof
  fix svc :: InferenceService and s :: "cluster pass"
  show "wp (reconcileService kube svc) (\<lambda>_ t. frame {(KService, svc_key svc)} (world s) (world t)) s"
    by (rule confinedD [OF confined_handlers(2)])
  show "wp (reconcileService kube svc) (\<lambda>e t. e = None \<longrightarrow> placed (AC_Service (desiredService svc)) (world t)) s"
    by (auto simp: reconcileService_def wp_simps intro: wp_mono [OF apply_none_places])
  show "wp (reconcileService kube svc) (\<lambda>_ t. world t = world s) s"
    if "placed (AC_Service (desiredService svc)) (world s)"
    using that by (auto simp: reconcileService_def wp_simps intro: wp_mono [OF apply_plain_idle])
qed (simp add: placed_frame)

interpretation pool_places: placing_step "\<lambda>_ svc. reconcileRouting kube svc" "\<lambda>e. e = None"
  "\<lambda>svc. (KUnstructured inferencePoolGVK, svc_key svc)"
  "\<lambda>_ svc. placed (AC_Unstructured (desiredInferencePool svc))"
proof
  fix svc :: InferenceService and s :: "cluster pass"
  show "wp (reconcileRouting kube svc) (\<lambda>_ t. frame {(KUnstructured inferencePoolGVK, svc_key svc)} (world s) (world t)) s"
    by (rule confinedD [OF confined_handlers(3)])
  show "wp (reconcileRouting kube svc)
      (\<lambda>e t. e = None \<longrightarrow> placed (AC_Unstructured (desiredInferencePool svc)) (world t)) s"
    unfolding reconcileRouting_def wp_bind
    by (rule wp_mono [OF placed_or_missing])
      (auto simp: wp_simps condition_def cl_set_condition_def split: option.splits)
  show "wp (reconcileRouting kube svc) (\<lambda>_ t. world t = world s) s"
    if "placed (AC_Unstructured (desiredInferencePool svc)) (world s)"
    unfolding reconcileRouting_def wp_bind
    by (rule wp_mono [OF apply_plain_idle [OF that]])
      (auto simp: wp_simps condition_def cl_set_condition_def split: option.split)
qed (simp add: placed_frame)

text \<open>The Deployment: its handler is idle once the Deployment has the current selector and is not going away.\<close>

lemma apply_deployment_idle:
  assumes "placed (AC_Deployment (desiredDeployment svc)) c" and "settled_deployment svc c"
  obtains e where "cl_apply (AC_Deployment (desiredDeployment svc)) FieldOwner f c = (e, c)"
proof -
  have "selector_kept (AC_Deployment (desiredDeployment svc)) o'"
    if "map_of (cl_Objects c) (KDeployment, svc_key svc) = Some o'" for o'
    using assms(2) that unfolding selector_kept_def desiredDeployment_key(2)
    by (auto simp: settled_deployment_def maps_Equal_iff split: option.splits)
  then show thesis using apply_idle [OF assms(1)] that by fastforce
qed

lemma reconcileDeployment_idle:
  assumes "placed (AC_Deployment (desiredDeployment svc)) (world s)" and "settled_deployment svc (world s)"
  shows "wp (reconcileDeployment kube svc) (\<lambda>_ t. world t = world s) s"
proof -
  obtain o' where o': "map_of (cl_Objects (world s)) (KDeployment, svc_key svc) = Some o'"
    using assms(1) by (auto simp: placed_def cl_installed_def)
  then have live: "cl_get_deployment (svc_key svc) (world s) = (Inr (stored_deployment (svc_key svc) o'), world s)"
    "DeletionTimestamp (stored_deployment (svc_key svc) o') = None"
    "\<not> outdated_selector svc (stored_deployment (svc_key svc) o')"
    using assms(2) by (auto simp: cl_get_deployment_def find_stored_def cl_installed_def stored_deployment_def
        settled_deployment_def outdated_selector_def split: option.splits)
  obtain e where "cl_apply (AC_Deployment (desiredDeployment svc)) FieldOwner True (world s) = (e, world s)"
    by (rule apply_deployment_idle [OF assms])
  with live show ?thesis
    by (simp add: reconcileDeployment_def applyDeployment_def client_ops wp_simps split: option.split)
qed

interpretation deployment_places: placing_step "\<lambda>_ svc. reconcileDeployment kube svc" deployed
  "\<lambda>svc. (KDeployment, svc_key svc)" "\<lambda>_ svc. placed (AC_Deployment (desiredDeployment svc))"
  by unfold_locales
    (auto simp: placed_frame intro: confinedD [OF confined_reconcileDeployment] reconcileDeployment_places
      reconcileDeployment_idle)

text \<open>What follows the apply of the ScaledObject changes nothing, whatever it answered.\<close>

definition after_scaler :: "InferenceService \<Rightarrow> go_error option \<Rightarrow> (cluster pass, go_error option) state" where
  "after_scaler svc e = (case e of
     Some err \<Rightarrow>
       if IsNoMatchError err then do {
         condition kube svc CondAutoscaling ConditionFalse ''KEDANotInstalled''
           ''the keda.sh ScaledObject CRD is not installed; replicas stay at minReplicas'';
         State_Monad.return None
       }
       else State_Monad.return (Some (Wrapf ''apply scaledobject'' err))
   | None \<Rightarrow> do {
       r \<leftarrow> get_unstructured kube scaledObjectGVK (svc_key svc);
       case r of
         Inl err \<Rightarrow> State_Monad.return (Some (Wrapf ''read scaledobject'' err))
       | Inr so \<Rightarrow> do {
           (case scaledObjectReady kube so of (st, reason, message) \<Rightarrow>
              (case st of
                 ConditionTrue \<Rightarrow> condition kube svc CondAutoscaling ConditionTrue ''ScalerReady''
                   ''KEDA scales on queue depth, KV cache usage and p95 TTFT''
               | ConditionFalse \<Rightarrow> condition kube svc CondAutoscaling ConditionFalse ''ScalerNotReady''
                   (''KEDA reports '' @ reason @ '': '' @ message)
               | ConditionUnknown \<Rightarrow> condition kube svc CondAutoscaling ConditionUnknown ''WaitingForKEDA''
                   ''ScaledObject applied; KEDA has not reported on it yet''));
           State_Monad.return None
         }
     })"

lemma reconcileAutoscaling_scaled:
  "Backend (Spec svc) \<noteq> BackendOllama \<Longrightarrow> reconcileAutoscaling kube addr svc =
    State_Monad.bind (apply_config kube (AC_Unstructured (desiredScaledObject svc addr)) FieldOwner True) (after_scaler svc)"
  by (simp add: reconcileAutoscaling_def after_scaler_def [abs_def])

lemma after_scaler_idle: "wp (after_scaler svc e) (\<lambda>r t. world t = world s \<and>
    (r = None \<longrightarrow> (case e of None \<Rightarrow> True | Some err \<Rightarrow> IsNoMatchError err))) s"
  by (auto simp: after_scaler_def wp_simps get_unstructured_def cl_get_unstructured_def condition_def
      cl_set_condition_def split: option.split sum.split prod.split ConditionStatus.split)

interpretation scaler_places: placing_step "reconcileAutoscaling kube" "\<lambda>e. e = None"
  "\<lambda>svc. (KUnstructured scaledObjectGVK, svc_key svc)" scaler_in_place
proof
  fix addr and svc :: InferenceService and s :: "cluster pass"
  show "wp (reconcileAutoscaling kube addr svc)
      (\<lambda>_ t. frame {(KUnstructured scaledObjectGVK, svc_key svc)} (world s) (world t)) s"
    by (rule confinedD [OF confined_reconcileAutoscaling])
  show "wp (reconcileAutoscaling kube addr svc) (\<lambda>e t. e = None \<longrightarrow> scaler_in_place addr svc (world t)) s"
  proof (cases "Backend (Spec svc) = BackendOllama")
    case True
    then show ?thesis
      by (auto simp: reconcileAutoscaling_def deleteUnstructuredIfOwned_def scaler_in_place_def wp_simps
          condition_def cl_set_condition_def intro: wp_mono [OF deleteIfOwned_removes])
  next
    case False
    then show ?thesis
      unfolding reconcileAutoscaling_scaled [OF False] wp_bind
      by (intro wp_mono [OF placed_or_missing] wp_mono [OF after_scaler_idle])
        (auto simp: scaler_in_place_def split: option.splits)
  qed
  show "wp (reconcileAutoscaling kube addr svc) (\<lambda>_ t. world t = world s) s" if "scaler_in_place addr svc (world s)"
  proof (cases "Backend (Spec svc) = BackendOllama")
    case True
    with that show ?thesis
      by (auto simp: reconcileAutoscaling_def deleteUnstructuredIfOwned_def scaler_in_place_def wp_simps
          condition_def cl_set_condition_def intro: wp_mono [OF deleteIfOwned_idle])
  next
    case False
    with that have "placed (AC_Unstructured (desiredScaledObject svc addr)) (world s)"
      by (simp add: scaler_in_place_def)
    from apply_plain_idle [OF this] show ?thesis
      unfolding reconcileAutoscaling_scaled [OF False] wp_bind
      by (intro wp_mono [OF _ wp_mono [OF after_scaler_idle]]) auto
  qed
qed (simp add: scaler_in_place_def placed_frame removed_frame svc_key_def)

subsection \<open>Whole passes\<close>

lemma reconcile_places:
  "wp (reconcile kube addr svc) (\<lambda>out t. completed out \<longrightarrow> in_place addr svc (world t)) s"
proof -
  let ?Q = "\<lambda>out t. completed out \<longrightarrow> in_place addr svc (world t)"
  let ?g1 = "\<lambda>c. claim_in_place svc c"
  let ?g2 = "\<lambda>c. ?g1 c \<and> placed (AC_Deployment (desiredDeployment svc)) c"
  let ?g3 = "\<lambda>c. ?g2 c \<and> placed (AC_Service (desiredService svc)) c"
  let ?g4 = "\<lambda>c. ?g3 c \<and> scaler_in_place addr svc c"
  let ?g5 = "\<lambda>c. ?g4 c \<and> placed (AC_Unstructured (desiredInferencePool svc)) c"
  note elsewhere = claim_places.kept_elsewhere deployment_places.kept_elsewhere service_places.kept_elsewhere
    scaler_places.kept_elsewhere
  have on: "wp m (\<lambda>e u. case e of None \<Rightarrow> D (world u) | Some err \<Rightarrow> ?Q (Result 0, Some err) u) t"
    if "wp m (\<lambda>e u. e = None \<longrightarrow> D (world u)) t" for m t and D :: "cluster \<Rightarrow> bool"
    by (rule wp_mono [OF that]) (simp split: option.split)
  show ?thesis
  proof (rule reconcile_rule [where ?A0.0 = "\<lambda>_. True" and ?A1.0 = "\<lambda>t. ?g1 (world t)"
        and ?A2.0 = "\<lambda>_ t. ?g2 (world t)" and ?A3.0 = "\<lambda>_ t. ?g3 (world t)"
        and ?A4.0 = "\<lambda>_ t. ?g4 (world t)" and ?A5.0 = "\<lambda>_ t. ?g5 (world t)"])
    fix t :: "cluster pass" and d :: Deployment
    show "wp (reconcileClaimTemplate kube svc) (\<lambda>e u. case e of
        None \<Rightarrow> ?g1 (world u) | Some err \<Rightarrow> ?Q (Result 0, Some err) u) t"
      by (rule on, rule claim_places.places)
    show "wp (reconcileDeployment kube svc) (\<lambda>(d, requeue, err) u.
        if err \<noteq> None \<or> requeue then ?Q (Result 5, err) u else ?g2 (world u)) t" if "?g1 (world t)"
      by (rule wp_mono [OF deployment_places.adds [of ?g1 t svc]])
        (use that in \<open>auto elim: elsewhere simp: deployed_def\<close>)
    show "wp (reconcileService kube svc) (\<lambda>e u. case e of
        None \<Rightarrow> ?g3 (world u) | Some err \<Rightarrow> ?Q (Result 0, Some err) u) t" if "?g2 (world t)"
      by (rule on, rule service_places.adds) (use that in \<open>auto elim: elsewhere\<close>)
    show "wp (reconcileAutoscaling kube addr svc) (\<lambda>e u. case e of
        None \<Rightarrow> ?g4 (world u) | Some err \<Rightarrow> ?Q (Result 0, Some err) u) t" if "?g3 (world t)"
      by (rule on, rule scaler_places.adds) (use that in \<open>auto elim: elsewhere\<close>)
    show "wp (reconcileRouting kube svc) (\<lambda>e u. case e of
        None \<Rightarrow> ?g5 (world u) | Some err \<Rightarrow> ?Q (Result 0, Some err) u) t" if "?g4 (world t)"
      by (rule on, rule pool_places.adds) (use that in \<open>auto elim: elsewhere\<close>)
    show "wp (reportStatus kube svc d) ?Q t" if "?g5 (world t)"
      by (rule wp_mono [OF reportStatus_idle]) (use that in \<open>simp add: in_place_def\<close>)
  qed auto
qed

lemma reconcile_idle:
  assumes "in_place addr svc (world s)" and "settled_deployment svc (world s)"
  shows "wp (reconcile kube addr svc) (\<lambda>_ t. world t = world s) s"
proof -
  let ?I = "\<lambda>t. world t = world s"
  have on: "wp m (\<lambda>e u. case e of None \<Rightarrow> ?I u | Some err \<Rightarrow> ?I u) t" if "wp m (\<lambda>_. ?I) t"
    for m :: "(cluster pass, go_error option) state" and t
    by (rule wp_mono [OF that]) (simp split: option.split)
  note goals = assms(1) [unfolded in_place_def]
  show ?thesis
  proof (rule reconcile_rule [where ?A0.0 = ?I and ?A1.0 = ?I and ?A2.0 = "\<lambda>_. ?I" and ?A3.0 = "\<lambda>_. ?I"
        and ?A4.0 = "\<lambda>_. ?I" and ?A5.0 = "\<lambda>_. ?I"])
    fix t :: "cluster pass" and d :: Deployment assume t: "?I t"
    show "wp (reconcileClaimTemplate kube svc) (\<lambda>e u. case e of None \<Rightarrow> ?I u | Some err \<Rightarrow> ?I u) t"
      by (rule on, rule claim_places.idle [of svc t, unfolded t]) (use goals assms(2) in simp_all)
    show "wp (reconcileDeployment kube svc) (\<lambda>(d, requeue, err) u. if err \<noteq> None \<or> requeue then ?I u else ?I u) t"
      by (rule wp_mono [OF deployment_places.idle [of svc t, unfolded t]]) (use goals assms(2) in auto)
    show "wp (reconcileService kube svc) (\<lambda>e u. case e of None \<Rightarrow> ?I u | Some err \<Rightarrow> ?I u) t"
      by (rule on, rule service_places.idle [of svc t, unfolded t]) (use goals assms(2) in simp_all)
    show "wp (reconcileAutoscaling kube addr svc) (\<lambda>e u. case e of None \<Rightarrow> ?I u | Some err \<Rightarrow> ?I u) t"
      by (rule on, rule scaler_places.idle [of addr svc t, unfolded t]) (use goals assms(2) in simp_all)
    show "wp (reconcileRouting kube svc) (\<lambda>e u. case e of None \<Rightarrow> ?I u | Some err \<Rightarrow> ?I u) t"
      by (rule on, rule pool_places.idle [of svc t, unfolded t]) (use goals assms(2) in simp_all)
    show "wp (reportStatus kube svc d) (\<lambda>_. ?I) t"
      by (rule wp_mono [OF reportStatus_idle]) (use t in simp)
  qed (auto simp: cl_set_condition_def)
qed

text \<open>A pass writes no service; only the status update at its end does.\<close>

lemma confined_reconcile: "confined UNIV (reconcile kube addr svc)"
proof (rule confinedI)
  fix s :: "cluster pass"
  let ?I = "\<lambda>t. frame UNIV (world s) (world t)"
  have keep: "wp m (\<lambda>_. ?I) t" if "confined K m" "?I t" for K t and m :: "(cluster pass, 'b) state"
    by (rule wp_mono [OF confinedD [OF that(1)]]) (use that(2) in \<open>auto intro: frame_trans frame_mono\<close>)
  have on: "wp m (\<lambda>e u. case e of None \<Rightarrow> ?I u | Some err \<Rightarrow> ?I u) t" if "wp m (\<lambda>_. ?I) t"
    for m :: "(cluster pass, go_error option) state" and t
    by (rule wp_mono [OF that]) (simp split: option.split)
  show "wp (reconcile kube addr svc) (\<lambda>_. ?I) s"
  proof (rule reconcile_rule [where ?A0.0 = ?I and ?A1.0 = ?I and ?A2.0 = "\<lambda>_. ?I" and ?A3.0 = "\<lambda>_. ?I"
        and ?A4.0 = "\<lambda>_. ?I" and ?A5.0 = "\<lambda>_. ?I"])
    fix t :: "cluster pass" assume "?I t"
    then show "wp (reconcileDeployment kube svc) (\<lambda>(d, requeue, err) u. if err \<noteq> None \<or> requeue then ?I u else ?I u) t"
      by (intro wp_mono [OF keep [OF confined_reconcileDeployment]]) auto
  qed (auto simp: cl_set_condition_def
      intro!: on intro: keep confined_handlers confined_reconcileAutoscaling confined_reportStatus)
qed

subsection \<open>The desired state does not depend on the status\<close>

lemma status_irrelevant [simp]:
  "svc_key (svc\<lparr>Status := st\<rparr>) = svc_key svc" "policyViolation (svc\<lparr>Status := st\<rparr>) = policyViolation svc"
  "selectorLabels (svc\<lparr>Status := st\<rparr>) = selectorLabels svc" "podLabels (svc\<lparr>Status := st\<rparr>) = podLabels svc"
  "ownerRef (svc\<lparr>Status := st\<rparr>) = ownerRef svc" "claimTemplateName (svc\<lparr>Status := st\<rparr>) = claimTemplateName svc"
  "svc_meta (svc\<lparr>Status := st\<rparr>) = svc_meta svc"
  by (simp_all add: svc_key_def policyViolation_def selectorLabels_def podLabels_def ownerRef_def
      claimTemplateName_def svc_meta_def ObjectMeta.defs)

lemma settled_status [simp]: "settled_deployment (svc\<lparr>Status := st\<rparr>) = settled_deployment svc"
  by (intro ext, unfold settled_deployment_def status_irrelevant) (rule refl)

lemma desired_status [simp]:
  "desiredDeployment (svc\<lparr>Status := st\<rparr>) = desiredDeployment svc"
  "desiredService (svc\<lparr>Status := st\<rparr>) = desiredService svc"
  "desiredClaimTemplate (svc\<lparr>Status := st\<rparr>) = desiredClaimTemplate svc"
  "desiredScaledObject (svc\<lparr>Status := st\<rparr>) addr = desiredScaledObject svc addr"
  "desiredInferencePool (svc\<lparr>Status := st\<rparr>) = desiredInferencePool svc"
proof -
  have "container_of (svc\<lparr>Status := st\<rparr>) = container_of svc"
    by (simp add: container_of_def vllmContainer_def ollamaContainer_def startupFailureThreshold_def)
  then show "desiredDeployment (svc\<lparr>Status := st\<rparr>) = desiredDeployment svc"
    by (simp add: desiredDeployment_eq built_container_def sent_requirements_def claims_gpu_def modelCacheVolume_def)
qed (simp_all add: desiredService_def desiredClaimTemplate_def desiredScaledObject_def desiredInferencePool_def
    object_metadata_def ownerRefMap_def settle_seconds_def triggers_def queue_query_def cache_query_def
    ttft_query_def metric_selector_def Let_def)

lemma in_place_status [simp]: "in_place addr (svc\<lparr>Status := st\<rparr>) = in_place addr svc"
  by (simp add: in_place_def claim_in_place_def scaler_in_place_def removed_def fun_eq_iff)

subsection \<open>Passes in sequence\<close>

text \<open>\<open>stored_as k svc c\<close>: the cluster holds the service under \<open>k\<close>, with whatever status.\<close>

definition stored_as :: "NamespacedName \<Rightarrow> InferenceService \<Rightarrow> cluster \<Rightarrow> bool" where
  "stored_as k svc c \<longleftrightarrow> (\<exists>st. map_of (cl_Services c) k = Some (svc\<lparr>Status := st\<rparr>))"

lemma stored_as_self: "map_of (cl_Services c) k = Some svc \<Longrightarrow> stored_as k svc c"
  unfolding stored_as_def by (intro exI [of _ "Status svc"]) simp

definition same_objects :: "cluster \<Rightarrow> cluster \<Rightarrow> bool" where
  "same_objects c c' \<longleftrightarrow> cl_Objects c' = cl_Objects c \<and> cl_Installed c' = cl_Installed c"

lemma same_objects_in_place: "same_objects c c' \<Longrightarrow> in_place addr svc c' = in_place addr svc c"
  by (simp add: same_objects_def in_place_def claim_in_place_def scaler_in_place_def placed_def removed_def
      find_stored_def cl_installed_def split: ObjKind.split)

lemma same_objects_settled: "same_objects c c' \<Longrightarrow> settled_deployment svc c' = settled_deployment svc c"
  by (simp add: same_objects_def settled_deployment_def)

lemma update_status_same: "same_objects c (snd (cl_update_status svc c))"
  by (simp add: same_objects_def cl_update_status_def split: option.split)

lemma update_status_stored: "stored_as k svc c \<Longrightarrow> stored_as k svc (snd (cl_update_status svc' c))"
  by (auto simp: stored_as_def cl_update_status_def update_conv' split: option.split)

text \<open>
  A pass for a stored service, from what \<open>reconcile\<close> does for it under any status: the objects are
  those \<open>reconcile\<close> left, and the service is still stored.
\<close>

lemma pass_from:
  assumes "stored_as k svc c"
    and "\<And>st s. world s = c \<Longrightarrow> wp (reconcile kube addr (svc\<lparr>Status := st\<rparr>)) (\<lambda>_ t. R (world t)) s"
  shows "\<exists>c'. R c' \<and> same_objects c' (pass_world kube addr k c) \<and> stored_as k svc (pass_world kube addr k c)"
proof -
  obtain st where st: "map_of (cl_Services c) k = Some (svc\<lparr>Status := st\<rparr>)"
    using assms(1) by (auto simp: stored_as_def)
  let ?svc = "svc\<lparr>Status := st\<rparr>"
  have got: "Get_InferenceService kube k c = (Inr ?svc, c)" using st by (simp add: cl_get_service_def)
  have "wp (reconcile kube addr ?svc) (\<lambda>_ t. R (world t) \<and> frame UNIV c (world t)) (started k ?svc c)"
    using confinedD [OF confined_reconcile, of addr ?svc "started k ?svc c"]
    by (intro wp_conj assms(2)) simp_all
  then show ?thesis
  proof (rule pass_of_reconcile [OF got])
    fix t :: "cluster pass"
    assume t: "R (world t) \<and> frame UNIV c (world t)" and after: "pass_world kube addr k c = world t \<or>
      (\<exists>svc'. pass_world kube addr k c = snd (Update_Status kube svc' (world t)))"
    have "stored_as k svc (world t)" using assms(1) t by (simp add: stored_as_def frame_def)
    then have "stored_as k svc (pass_world kube addr k c)"
      using after by (auto intro: update_status_stored)
    moreover have "same_objects (world t) (pass_world kube addr k c)"
      using after update_status_same by (auto simp: same_objects_def)
    ultimately show ?thesis using t by blast
  qed
qed

lemma pass_reaches:
  assumes "stored_as k svc c" and "svc_key svc = k" and "policyViolation svc = []" and "settled_deployment svc c"
  shows "in_place addr svc (pass_world kube addr k c)" "settled_deployment svc (pass_world kube addr k c)"
    "stored_as k svc (pass_world kube addr k c)"
proof -
  have "wp (reconcile kube addr (svc\<lparr>Status := st\<rparr>))
      (\<lambda>_ t. in_place addr svc (world t) \<and> settled_deployment svc (world t)) s" if "world s = c" for st s
  proof -
    have "healthy (svc\<lparr>Status := st\<rparr>) (world s)"
      using assms that by (auto simp: healthy_def known_def stored_as_def)
    with assms(3) have "wp (reconcile kube addr (svc\<lparr>Status := st\<rparr>))
        (\<lambda>out t. completed out \<and> healthy (svc\<lparr>Status := st\<rparr>) (world t)) s"
      by (intro reconcile_healthy) simp_all
    from wp_conj [OF this reconcile_places] show ?thesis
      by (rule wp_mono) (auto simp: healthy_def)
  qed
  from pass_from [OF assms(1), where R = "\<lambda>c. in_place addr svc c \<and> settled_deployment svc c", OF this]
  obtain c' where "in_place addr svc c'" "settled_deployment svc c'"
    "same_objects c' (pass_world kube addr k c)" "stored_as k svc (pass_world kube addr k c)"
    by blast
  then show "in_place addr svc (pass_world kube addr k c)" "settled_deployment svc (pass_world kube addr k c)"
    "stored_as k svc (pass_world kube addr k c)"
    by (simp_all add: same_objects_in_place same_objects_settled)
qed

lemma pass_rests:
  assumes "stored_as k svc c" and "in_place addr svc c" and "settled_deployment svc c"
  shows "same_objects c (pass_world kube addr k c)" "stored_as k svc (pass_world kube addr k c)"
proof -
  have "wp (reconcile kube addr (svc\<lparr>Status := st\<rparr>)) (\<lambda>_ t. world t = c) s" if "world s = c" for st s
    by (rule wp_mono [OF reconcile_idle]) (use assms that in auto)
  from pass_from [OF assms(1), where R = "\<lambda>c'. c' = c", OF this]
  show "same_objects c (pass_world kube addr k c)" "stored_as k svc (pass_world kube addr k c)" by auto
qed

lemma passes_rest:
  assumes "stored_as k svc c" and "in_place addr svc c" and "settled_deployment svc c"
  shows "same_objects c (passes addr (replicate n k) c)"
  using assms
proof (induction n arbitrary: c)
  case (Suc n)
  note r = pass_rests [OF Suc.prems]
  have "same_objects (pass_world kube addr k c) (passes addr (replicate n k) (pass_world kube addr k c))"
    using Suc.prems r by (intro Suc.IH) (simp_all add: same_objects_in_place same_objects_settled)
  with r(1) show ?case by (simp add: same_objects_def)
qed (simp add: same_objects_def)

text \<open>A Deployment with another selector costs one pass: it is deleted, and the next pass finds none.\<close>

definition outdated_deployment :: "InferenceService \<Rightarrow> cluster \<Rightarrow> bool" where
  "outdated_deployment svc c \<longleftrightarrow> (\<exists>o'. map_of (cl_Objects c) (KDeployment, svc_key svc) = Some o' \<and>
     st_Deletion o' = None \<and> outdated_selector svc (stored_deployment (svc_key svc) o'))"

lemma outdated_status [simp]: "outdated_deployment (svc\<lparr>Status := st\<rparr>) c = outdated_deployment svc c"
  by (unfold outdated_deployment_def outdated_selector_def status_irrelevant) (rule refl)

lemma settled_or_outdated:
  assumes "\<And>o'. map_of (cl_Objects c) (KDeployment, svc_key svc) = Some o' \<Longrightarrow> st_Deletion o' = None"
  shows "settled_deployment svc c \<or> outdated_deployment svc c"
  using assms by (auto simp: settled_deployment_def outdated_deployment_def outdated_selector_def
      stored_deployment_def split: option.split)

lemma outdated_frame: "frame K c c' \<Longrightarrow> (KDeployment, svc_key svc) \<notin> K \<Longrightarrow>
    outdated_deployment svc c' = outdated_deployment svc c"
  by (simp add: outdated_deployment_def frame_object)

lemma reconcileDeployment_outdated:
  assumes "outdated_deployment svc (world s)"
  shows "wp (reconcileDeployment kube svc) (\<lambda>(d, requeue, err) t. requeue \<and> settled_deployment svc (world t)) s"
proof -
  obtain o' where o': "map_of (cl_Objects (world s)) (KDeployment, svc_key svc) = Some o'"
    and out: "outdated_selector svc (stored_deployment (svc_key svc) o')" and del: "st_Deletion o' = None"
    using assms by (auto simp: outdated_deployment_def)
  have got: "cl_get_deployment (svc_key svc) (world s) = (Inr (stored_deployment (svc_key svc) o'), world s)"
    using o' by (simp add: cl_get_deployment_def find_stored_def cl_installed_def)
  have fields: "DeletionTimestamp (stored_deployment (svc_key svc) o') = None"
    "(Namespace (stored_deployment (svc_key svc) o'), Name (stored_deployment (svc_key svc) o')) = svc_key svc"
    using del by (simp_all add: stored_deployment_def)
  have gone: "cl_delete KDeployment (svc_key svc) p (world s) =
      (None, (world s)\<lparr>cl_Objects := AList.delete (KDeployment, svc_key svc) (cl_Objects (world s))\<rparr>)" for p
    using o' by (simp add: cl_delete_def find_stored_def cl_installed_def)
  show ?thesis
    unfolding reconcileDeployment_def
    by (simp only: wp_simps get_deployment_def delete_object_def kube_fields got prod.case sum.case
        fields out if_True if_False simp_thms)
      (simp add: wp_simps condition_def cl_set_condition_def gone settled_deployment_def delete_conv')
qed

lemma reconcileClaimTemplate_succeeds: "wp (reconcileClaimTemplate kube svc) (\<lambda>e _. e = None) s"
  using cl_apply_plain [of "AC_ResourceClaimTemplate (desiredClaimTemplate svc)" FieldOwner True "world s"]
  by (auto simp: reconcileClaimTemplate_def client_ops wp_simps cl_installed_def split: prod.split
      intro: wp_mono [OF deleteIfOwned_removes])

lemma reconcile_outdated:
  assumes "outdated_deployment svc (world s)" and "policyViolation svc = []"
  shows "wp (reconcile kube addr svc) (\<lambda>_ t. settled_deployment svc (world t)) s"
proof -
  let ?out = "\<lambda>t. outdated_deployment svc (world t)"
  let ?Q = "\<lambda>_ t. settled_deployment svc (world t)"
  show ?thesis
  proof (rule reconcile_rule [where ?A0.0 = ?out and ?A1.0 = ?out and ?A2.0 = "\<lambda>_ _. False"
        and ?A3.0 = "\<lambda>_ _. False" and ?A4.0 = "\<lambda>_ _. False" and ?A5.0 = "\<lambda>_ _. False"])
    fix t :: "cluster pass" assume t: "?out t"
    have "wp (reconcileClaimTemplate kube svc) (\<lambda>e u. e = None \<and> ?out u) t"
      by (rule wp_mono [OF wp_conj [OF claim_places.framed reconcileClaimTemplate_succeeds]])
        (use t in \<open>auto simp: outdated_frame\<close>)
    then show "wp (reconcileClaimTemplate kube svc) (\<lambda>e u. case e of None \<Rightarrow> ?out u | Some err \<Rightarrow> ?Q err u) t"
      by (rule wp_mono) auto
    show "wp (reconcileDeployment kube svc) (\<lambda>(d, requeue, err) u.
        if err \<noteq> None \<or> requeue then ?Q (Result 5, err) u else False) t"
      by (rule wp_mono [OF reconcileDeployment_outdated [OF t]]) auto
  qed (use assms in \<open>auto simp: cl_set_condition_def outdated_deployment_def\<close>)
qed

lemma pass_settles:
  assumes "stored_as k svc c" and "svc_key svc = k" and "policyViolation svc = []"
    and "\<And>o'. map_of (cl_Objects c) (KDeployment, k) = Some o' \<Longrightarrow> st_Deletion o' = None"
  shows "settled_deployment svc (pass_world kube addr k c)" "stored_as k svc (pass_world kube addr k c)"
proof -
  have "settled_deployment svc (pass_world kube addr k c) \<and> stored_as k svc (pass_world kube addr k c)"
  proof (cases "settled_deployment svc c")
    case True
    then show ?thesis using pass_reaches [OF assms(1-3), of addr] by simp
  next
    case False
    then have out: "outdated_deployment svc c" using settled_or_outdated [of c svc] assms(2,4) by blast
    have "wp (reconcile kube addr (svc\<lparr>Status := st\<rparr>)) (\<lambda>_ t. settled_deployment svc (world t)) s"
      if "world s = c" for st s
    proof -
      have "outdated_deployment (svc\<lparr>Status := st\<rparr>) (world s)"
        using out that by simp
      from reconcile_outdated [OF this] show ?thesis using assms(3) by simp
    qed
    from pass_from [OF assms(1), where R = "settled_deployment svc", OF this] show ?thesis
      by (auto simp: same_objects_settled)
  qed
  then show "settled_deployment svc (pass_world kube addr k c)" "stored_as k svc (pass_world kube addr k c)"
    by simp_all
qed

lemma two_passes:
  assumes "stored_as k svc c" and "svc_key svc = k" and "policyViolation svc = []"
    and "\<And>o'. map_of (cl_Objects c) (KDeployment, k) = Some o' \<Longrightarrow> st_Deletion o' = None"
  shows "in_place addr svc (passes addr [k, k] c)"
    and "same_objects (passes addr [k, k] c) (passes addr ([k, k] @ replicate n k) c)"
proof -
  let ?c1 = "pass_world kube addr k c" and ?c2 = "passes addr [k, k] c"
  note s1 = pass_settles [OF assms, of addr]
  have r2: "in_place addr svc ?c2" "settled_deployment svc ?c2" "stored_as k svc ?c2"
    using pass_reaches [OF s1(2) assms(2,3) s1(1), of addr] by simp_all
  then show "in_place addr svc ?c2" by simp
  from passes_rest [OF r2(3,1,2), of n] show "same_objects ?c2 (passes addr ([k, k] @ replicate n k) c)"
    by simp
qed

declare ac_key.simps [simp] ac_owners.simps [simp] applied_replicas.simps [simp] desired_key [simp del]

end
