(* ===== verification/Errors.thy ===== *)
theory Errors
  imports Outcome
begin

section \<open>No error is lost\<close>

text \<open>
  The errors a pass may meet and still succeed are few: a missing Deployment (it is created), an
  add-on kind that is not installed, an object to be removed that is already gone. \<open>tolerated\<close> lists
  them call by call. A handler meets the contract \<open>reporting_step\<close> when it succeeds only if every
  call it made was tolerated; a pass that ends without error then made tolerated calls only, so every
  other failure is returned and retried.
\<close>

fun tolerated :: "call \<Rightarrow> bool" where
  "tolerated (CGetInferenceService _ r) \<longleftrightarrow> (case r of Inl e \<Rightarrow> IsNotFound e | Inr _ \<Rightarrow> True)"
| "tolerated (CGetDeployment _ r) \<longleftrightarrow> (case r of Inl e \<Rightarrow> IsNotFound e | Inr _ \<Rightarrow> True)"
| "tolerated (CGetUnstructured _ _ r) \<longleftrightarrow> (case r of Inl _ \<Rightarrow> False | Inr _ \<Rightarrow> True)"
| "tolerated (CGetMeta _ _ r) \<longleftrightarrow> (case r of Inl e \<Rightarrow> IsNotFound e \<or> IsNoMatchError e | Inr _ \<Rightarrow> True)"
| "tolerated (CListPods _ _ r) \<longleftrightarrow> (case r of Inl _ \<Rightarrow> False | Inr _ \<Rightarrow> True)"
| "tolerated (CApply a _ _ e) \<longleftrightarrow>
     (case e of None \<Rightarrow> True
      | Some err \<Rightarrow> IsNoMatchError err \<and> (case a of AC_Unstructured _ \<Rightarrow> True | _ \<Rightarrow> False))"
| "tolerated (CDelete _ _ _ e) \<longleftrightarrow> (case e of None \<Rightarrow> True | Some err \<Rightarrow> IsNotFound err)"
| "tolerated (CUpdateStatus _ e) \<longleftrightarrow> e = None"

definition all_tolerated :: "call list \<Rightarrow> bool" where
  "all_tolerated log \<longleftrightarrow> list_all tolerated log"

lemma all_tolerated_simps [simp]:
  "all_tolerated []" "all_tolerated (c # log) \<longleftrightarrow> tolerated c \<and> all_tolerated log"
  "all_tolerated (log @ log') \<longleftrightarrow> all_tolerated log \<and> all_tolerated log'"
  by (simp_all add: all_tolerated_def)

lemma IgnoreNotFound_None: "IgnoreNotFound e = None \<longleftrightarrow> (case e of None \<Rightarrow> True | Some x \<Rightarrow> IsNotFound x)"
  by (simp add: IgnoreNotFound_def split: option.split)

locale reporting_step =
  fixes step :: "'w Platform \<Rightarrow> string \<Rightarrow> InferenceService \<Rightarrow> ('w pass, 'r) state"
    and err_of :: "'r \<Rightarrow> go_error option"
  assumes reports: "all_tolerated (calls s) \<Longrightarrow>
    wp (step P addr svc) (\<lambda>r t. err_of r = None \<longrightarrow> all_tolerated (calls t)) s"
begin

lemma reports_from:
  assumes "all_tolerated (calls t)" and "\<And>r u. err_of r = None \<Longrightarrow> all_tolerated (calls u) \<Longrightarrow> R r u"
    and "\<And>r u. err_of r \<noteq> None \<Longrightarrow> R r u"
  shows "wp (step P addr svc) R t"
  using assms(2,3) by (intro wp_mono [OF reports [OF assms(1)]]) blast

end

lemma deleteIfOwned_reports:
  "all_tolerated (calls s) \<Longrightarrow>
    wp (deleteIfOwned P svc kind n) (\<lambda>e t. e = None \<longrightarrow> all_tolerated (calls t)) s"
  by (auto simp: deleteIfOwned_def client_ops wp_simps IgnoreNotFound_None split: sum.split prod.split)

interpretation claim_errors: reporting_step "\<lambda>P addr svc. reconcileClaimTemplate P svc" "\<lambda>e. e"
proof
  fix s :: "'w pass" and P :: "'w Platform" and addr svc
  assume t: "all_tolerated (calls s)"
  show "wp (reconcileClaimTemplate P svc) (\<lambda>e t. e = None \<longrightarrow> all_tolerated (calls t)) s"
    using t deleteIfOwned_reports [OF t, of P svc KResourceClaimTemplate "claimTemplateName svc"]
    by (simp add: reconcileClaimTemplate_def client_ops wp_simps split: prod.split)
qed

interpretation service_errors: reporting_step "\<lambda>P addr svc. reconcileService P svc" "\<lambda>e. e"
  by unfold_locales (simp add: reconcileService_def client_ops wp_simps split: prod.split)

interpretation routing_errors: reporting_step "\<lambda>P addr svc. reconcileRouting P svc" "\<lambda>e. e"
  by unfold_locales (auto simp: reconcileRouting_def client_ops wp_simps split: prod.split option.split)

interpretation deployment_errors: reporting_step "\<lambda>P addr svc. reconcileDeployment P svc"
  "\<lambda>(d, requeue, err). err"
  by unfold_locales
    (auto simp: reconcileDeployment_def createDeployment_def applyDeployment_def client_ops wp_simps
      IgnoreNotFound_None split: prod.split option.split sum.split)

interpretation status_errors: reporting_step "\<lambda>P addr svc. reportStatus P svc d" snd
  by unfold_locales
    (auto simp: reportStatus_def podTrouble_def client_ops wp_simps split: prod.split sum.split)

lemma reconcileAutoscaling_reports:
  assumes t: "all_tolerated (calls s)"
  shows "wp (reconcileAutoscaling P addr svc) (\<lambda>e t. e = None \<longrightarrow> all_tolerated (calls t)) s"
proof (cases "Backend (Spec svc) = BackendOllama")
  case True
  with t show ?thesis
    by (auto simp: reconcileAutoscaling_def deleteUnstructuredIfOwned_def wp_simps split: prod.split
        intro: deleteIfOwned_reports)
next
  case False
  with t show ?thesis
    by (auto simp: reconcileAutoscaling_def client_ops wp_simps
        split: option.split sum.split prod.split ConditionStatus.split)
qed

interpretation scaling_errors: reporting_step reconcileAutoscaling "\<lambda>e. e"
  by unfold_locales (rule reconcileAutoscaling_reports)

lemma reconcile_reports:
  assumes "all_tolerated (calls s)"
  shows "wp (reconcile P addr svc) (\<lambda>out t. snd out = None \<longrightarrow> all_tolerated (calls t)) s"
proof -
  let ?T = "\<lambda>t. all_tolerated (calls t)"
  show ?thesis
  proof (rule reconcile_rule [where ?A0.0 = ?T and ?A1.0 = ?T and ?A2.0 = "\<lambda>_. ?T" and ?A3.0 = "\<lambda>_. ?T"
        and ?A4.0 = "\<lambda>_. ?T" and ?A5.0 = "\<lambda>_. ?T"])
    fix t :: "'a pass" assume "?T t"
    then show "wp (reconcileDeployment P svc) (\<lambda>(d, requeue, err) u.
        if err \<noteq> None \<or> requeue then snd (Result 5, err) = None \<longrightarrow> ?T u else ?T u) t"
      by (rule deployment_errors.reports_from) auto
  next
    fix t :: "'a pass" and d assume t: "?T t"
    show "wp (reportStatus P svc d) (\<lambda>out t. snd out = None \<longrightarrow> ?T t) t"
      by (rule status_errors.reports [OF t])
  qed (use assms in \<open>auto intro!: claim_errors.reports_from service_errors.reports_from
      routing_errors.reports_from scaling_errors.reports_from\<close>)
qed

lemma pass_reports:
  assumes got: "Get_InferenceService P req w = (Inr svc, w1)" and "pass_outcome P addr req w = (r, None)"
  shows "all_tolerated (pass_calls P addr req w)"
proof -
  have "all_tolerated (calls (started req svc w1))" by (simp add: read_service_def)
  then show ?thesis
  proof (rule pass_of_reconcile [OF got reconcile_reports])
    fix r' err t serr
    assume "snd (r', err) = None \<longrightarrow> all_tolerated (calls t)"
      and "pass_calls P addr req w = calls t @ final_update P svc t serr"
      and "pass_outcome P addr req w = (if err = None \<and> serr \<noteq> None then (Result 0, serr) else (r', err))"
    with assms(2) show ?thesis by (auto simp: final_update_def split: if_splits)
  qed
qed

subsection \<open>The status update\<close>

text \<open>No handler writes the status; \<open>Reconcile\<close> does, after them.\<close>

fun not_update :: "call \<Rightarrow> bool" where
  "not_update (CUpdateStatus _ _) = False"
| "not_update _ = True"

lemma handlers_no_update:
  assumes "list_all not_update (calls s)"
  shows "wp (reconcileClaimTemplate P svc) (\<lambda>_ t. list_all not_update (calls t)) s"
    and "wp (reconcileDeployment P svc) (\<lambda>_ t. list_all not_update (calls t)) s"
    and "wp (reconcileService P svc) (\<lambda>_ t. list_all not_update (calls t)) s"
    and "wp (reconcileAutoscaling P addr svc) (\<lambda>_ t. list_all not_update (calls t)) s"
    and "wp (reconcileRouting P svc) (\<lambda>_ t. list_all not_update (calls t)) s"
    and "wp (reportStatus P svc d) (\<lambda>_ t. list_all not_update (calls t)) s"
  using assms
  by (auto simp: reconcileClaimTemplate_def reconcileDeployment_def createDeployment_def applyDeployment_def
      reconcileService_def reconcileAutoscaling_def deleteUnstructuredIfOwned_def deleteIfOwned_def
      reconcileRouting_def reportStatus_def podTrouble_def client_ops wp_simps
      split: option.split sum.split prod.split ConditionStatus.split)

lemma reconcile_no_update:
  assumes "list_all not_update (calls s)"
  shows "wp (reconcile P addr svc) (\<lambda>_ t. list_all not_update (calls t)) s"
proof -
  let ?N = "\<lambda>t :: 'a pass. list_all not_update (calls t)"
  have on: "wp m (\<lambda>e u. case e of None \<Rightarrow> ?N u | Some err \<Rightarrow> ?N u) t" if "wp m (\<lambda>_. ?N) t"
    for t and m :: "('a pass, go_error option) state"
    by (rule wp_mono [OF that]) (simp split: option.split)
  show ?thesis
    by (rule reconcile_rule [where ?A0.0 = ?N and ?A1.0 = ?N and ?A2.0 = "\<lambda>_. ?N" and ?A3.0 = "\<lambda>_. ?N"
          and ?A4.0 = "\<lambda>_. ?N" and ?A5.0 = "\<lambda>_. ?N"])
      (use assms in \<open>auto simp: case_prod_unfold intro: on handlers_no_update\<close>)
qed

lemma pass_status_update:
  assumes got: "Get_InferenceService P req w = (Inr svc, w1)"
  obtains log e where "list_all not_update log"
    and "pass_calls P addr req w = log @ (if Semantic_DeepEqual P (Status svc) (pass_status P addr req w) then []
      else [CUpdateStatus (svc\<lparr>Status := pass_status P addr req w\<rparr>) e])"
    and "ObservedGeneration (pass_status P addr req w) = Generation svc"
proof -
  have "list_all not_update (calls (started req svc w1))" by (simp add: read_service_def)
  then show thesis
  proof (rule pass_of_reconcile [OF got reconcile_no_update])
    fix r err t serr
    assume "list_all not_update (calls t)"
      and "pass_calls P addr req w = calls t @ final_update P svc t serr"
      and "pass_status P addr req w = observed svc t"
    then show thesis by (intro that [of "calls t" serr]) (simp_all add: final_update_def)
  qed
qed

end
