(* ===== verification/DeepCopy.thy ===== *)
theory DeepCopy
  imports Api_Types
begin

section \<open>Deep copies over a heap\<close>

text \<open>
  The generated copy functions of \<open>api/v1alpha1/zz_generated.deepcopy.go\<close> over an explicit heap. The
  types of the API hold two kinds of references: the slice of conditions of a status and the pointer
  to the minimum device memory of a spec; a list of services holds a slice of services. A slice is
  nil or the address of a cell (the operator never slices a slice). \<open>*out = *in\<close> copies references;
  the functions then replace each by a fresh cell. The metadata's own copy is apimachinery's, here
  the parameter \<open>copy_meta\<close>; copying a \<open>metav1.Condition\<close> or a \<open>resource.Quantity\<close> yields an equal value.
\<close>

record StatusRef =
  r_ObservedGeneration :: int64
  r_ReadyReplicas :: int32
  r_Endpoint :: string
  r_Phase :: string
  r_Conditions :: "nat option"

record SpecRef =
  r_Model :: string
  r_Backend :: BackendType
  r_Classification :: DataClassification
  r_MaxModelLen :: int32
  r_GPUMemoryUtilization :: int32
  r_DeviceClass :: string
  r_MinDeviceMemory :: "nat option"
  r_ModelCacheClaimName :: string
  r_WeightLoadSeconds :: int32
  r_Autoscaling :: AutoscalingSpec
  r_CostPerHourMilliUSD :: int64

record ServiceRef =
  r_TypeMeta :: "string \<times> string"
  r_ObjectMeta :: ObjectMeta
  r_Spec :: SpecRef
  r_Status :: StatusRef

datatype cell = CConditions "Condition list" | CQuantity quantity | CServices "ServiceRef list"

type_synonym heap = "cell list"

definition alloc :: "cell \<Rightarrow> heap \<Rightarrow> nat \<times> heap" where
  "alloc c h = (length h, h @ [c])"

definition conditions_at :: "heap \<Rightarrow> nat \<Rightarrow> Condition list" where
  "conditions_at h a = (case h ! a of CConditions cs \<Rightarrow> cs | _ \<Rightarrow> [])"

definition quantity_at :: "heap \<Rightarrow> nat \<Rightarrow> quantity" where
  "quantity_at h a = (case h ! a of CQuantity q \<Rightarrow> q | _ \<Rightarrow> Quantity [])"

definition services_at :: "heap \<Rightarrow> nat \<Rightarrow> ServiceRef list" where
  "services_at h a = (case h ! a of CServices l \<Rightarrow> l | _ \<Rightarrow> [])"

subsection \<open>The copy functions\<close>

definition zero_condition :: Condition where
  "zero_condition = \<lparr>cond_Type = [], cond_Status = ConditionUnknown, cond_ObservedGeneration = 0,
     cond_LastTransitionTime = 0, cond_Reason = [], cond_Message = []\<rparr>"

text \<open>\<open>for i := range *in { (*in)[i].DeepCopyInto(&(*out)[i]) }\<close>, from index \<open>i\<close> for \<open>n\<close> elements.\<close>

fun copy_conditions :: "nat \<Rightarrow> nat \<Rightarrow> nat \<Rightarrow> nat \<Rightarrow> heap \<Rightarrow> heap" where
  "copy_conditions src dst i 0 h = h"
| "copy_conditions src dst i (Suc n) h = copy_conditions src dst (Suc i) n
     (h[dst := CConditions ((conditions_at h dst)[i := conditions_at h src ! i])])"

definition Status_DeepCopyInto :: "StatusRef \<Rightarrow> heap \<Rightarrow> StatusRef \<times> heap" where
  "Status_DeepCopyInto in' h = (case r_Conditions in' of
     None \<Rightarrow> (in', h)
   | Some a \<Rightarrow>
       let n = length (conditions_at h a); (b, h) = alloc (CConditions (replicate n zero_condition)) h
       in (in'\<lparr>r_Conditions := Some b\<rparr>, copy_conditions a b 0 n h))"

definition Status_DeepCopy :: "StatusRef option \<Rightarrow> heap \<Rightarrow> StatusRef option \<times> heap" where
  "Status_DeepCopy in' h = (case in' of None \<Rightarrow> (None, h) | Some s \<Rightarrow> map_prod Some id (Status_DeepCopyInto s h))"

definition Spec_DeepCopyInto :: "SpecRef \<Rightarrow> heap \<Rightarrow> SpecRef \<times> heap" where
  "Spec_DeepCopyInto in' h = (case r_MinDeviceMemory in' of
     None \<Rightarrow> (in', h)
   | Some a \<Rightarrow> let (b, h) = alloc (CQuantity (quantity_at h a)) h in (in'\<lparr>r_MinDeviceMemory := Some b\<rparr>, h))"

definition Spec_DeepCopy :: "SpecRef option \<Rightarrow> heap \<Rightarrow> SpecRef option \<times> heap" where
  "Spec_DeepCopy in' h = (case in' of None \<Rightarrow> (None, h) | Some s \<Rightarrow> map_prod Some id (Spec_DeepCopyInto s h))"

text \<open>The autoscaling part holds no reference: \<open>*out = *in\<close> is all its copy does.\<close>

definition Autoscaling_DeepCopyInto :: "AutoscalingSpec \<Rightarrow> heap \<Rightarrow> AutoscalingSpec \<times> heap" where
  "Autoscaling_DeepCopyInto in' h = (in', h)"

definition Autoscaling_DeepCopy :: "AutoscalingSpec option \<Rightarrow> heap \<Rightarrow> AutoscalingSpec option \<times> heap" where
  "Autoscaling_DeepCopy in' h =
    (case in' of None \<Rightarrow> (None, h) | Some s \<Rightarrow> map_prod Some id (Autoscaling_DeepCopyInto s h))"

definition Service_DeepCopyInto ::
  "(ObjectMeta \<Rightarrow> ObjectMeta) \<Rightarrow> ServiceRef \<Rightarrow> heap \<Rightarrow> ServiceRef \<times> heap" where
  "Service_DeepCopyInto copy_meta in' h =
    (let out = in'; out = out\<lparr>r_ObjectMeta := copy_meta (r_ObjectMeta in')\<rparr>;
         (sp, h) = Spec_DeepCopyInto (r_Spec in') h;
         (st, h) = Status_DeepCopyInto (r_Status in') h
     in (out\<lparr>r_Spec := sp, r_Status := st\<rparr>, h))"

definition Service_DeepCopy ::
  "(ObjectMeta \<Rightarrow> ObjectMeta) \<Rightarrow> ServiceRef option \<Rightarrow> heap \<Rightarrow> ServiceRef option \<times> heap" where
  "Service_DeepCopy copy_meta in' h =
    (case in' of None \<Rightarrow> (None, h) | Some s \<Rightarrow> map_prod Some id (Service_DeepCopyInto copy_meta s h))"

record ServiceListRef =
  r_ListTypeMeta :: "string \<times> string"
  r_Items :: "nat option"

definition zero_service :: ServiceRef where
  "zero_service = \<lparr>r_TypeMeta = ([], []),
     r_ObjectMeta = \<lparr>Name = [], Namespace = [], UID = [], Generation = 0, DeletionTimestamp = None, OwnerReferences = []\<rparr>,
     r_Spec = \<lparr>r_Model = [], r_Backend = [], r_Classification = [], r_MaxModelLen = 0,
       r_GPUMemoryUtilization = 0, r_DeviceClass = [], r_MinDeviceMemory = None, r_ModelCacheClaimName = [],
       r_WeightLoadSeconds = 0, r_Autoscaling = \<lparr>MinReplicas = 0, MaxReplicas = 0, QueueDepthTarget = 0,
         TTFTP95Milliseconds = 0, KVCacheUsagePercent = 0\<rparr>, r_CostPerHourMilliUSD = 0\<rparr>,
     r_Status = \<lparr>r_ObservedGeneration = 0, r_ReadyReplicas = 0, r_Endpoint = [], r_Phase = [],
       r_Conditions = None\<rparr>\<rparr>"

fun copy_services :: "(ObjectMeta \<Rightarrow> ObjectMeta) \<Rightarrow> nat \<Rightarrow> nat \<Rightarrow> nat \<Rightarrow> nat \<Rightarrow> heap \<Rightarrow> heap" where
  "copy_services copy_meta src dst i 0 h = h"
| "copy_services copy_meta src dst i (Suc n) h =
    (case Service_DeepCopyInto copy_meta (services_at h src ! i) h of
       (s, h) \<Rightarrow> copy_services copy_meta src dst (Suc i) n (h[dst := CServices ((services_at h dst)[i := s])]))"

definition List_DeepCopyInto ::
  "(ObjectMeta \<Rightarrow> ObjectMeta) \<Rightarrow> ServiceListRef \<Rightarrow> heap \<Rightarrow> ServiceListRef \<times> heap" where
  "List_DeepCopyInto copy_meta in' h = (case r_Items in' of
     None \<Rightarrow> (in', h)
   | Some a \<Rightarrow>
       let n = length (services_at h a); (b, h) = alloc (CServices (replicate n zero_service)) h
       in (in'\<lparr>r_Items := Some b\<rparr>, copy_services copy_meta a b 0 n h))"

definition List_DeepCopy ::
  "(ObjectMeta \<Rightarrow> ObjectMeta) \<Rightarrow> ServiceListRef option \<Rightarrow> heap \<Rightarrow> ServiceListRef option \<times> heap" where
  "List_DeepCopy copy_meta in' h =
    (case in' of None \<Rightarrow> (None, h) | Some s \<Rightarrow> map_prod Some id (List_DeepCopyInto copy_meta s h))"

text \<open>\<open>DeepCopyObject\<close> returns an interface: a nil pointer becomes a nil interface, never an interface that
  holds one.\<close>

datatype runtime_Object = OInferenceService ServiceRef | OInferenceServiceList ServiceListRef

definition Service_DeepCopyObject ::
  "(ObjectMeta \<Rightarrow> ObjectMeta) \<Rightarrow> ServiceRef option \<Rightarrow> heap \<Rightarrow> runtime_Object option \<times> heap" where
  "Service_DeepCopyObject copy_meta in' h =
    (case Service_DeepCopy copy_meta in' h of (Some c, h) \<Rightarrow> (Some (OInferenceService c), h) | (None, h) \<Rightarrow> (None, h))"

definition List_DeepCopyObject ::
  "(ObjectMeta \<Rightarrow> ObjectMeta) \<Rightarrow> ServiceListRef option \<Rightarrow> heap \<Rightarrow> runtime_Object option \<times> heap" where
  "List_DeepCopyObject copy_meta in' h =
    (case List_DeepCopy copy_meta in' h of (Some c, h) \<Rightarrow> (Some (OInferenceServiceList c), h) | (None, h) \<Rightarrow> (None, h))"

subsection \<open>Reading through the references\<close>

definition load_status :: "heap \<Rightarrow> StatusRef \<Rightarrow> InferenceServiceStatus" where
  "load_status h s = \<lparr>ObservedGeneration = r_ObservedGeneration s, ReadyReplicas = r_ReadyReplicas s,
     Endpoint = r_Endpoint s, Phase = r_Phase s,
     Conditions = (case r_Conditions s of None \<Rightarrow> [] | Some a \<Rightarrow> conditions_at h a)\<rparr>"

definition load_spec :: "heap \<Rightarrow> SpecRef \<Rightarrow> InferenceServiceSpec" where
  "load_spec h s = \<lparr>Model = r_Model s, Backend = r_Backend s, Classification = r_Classification s,
     MaxModelLen = r_MaxModelLen s, GPUMemoryUtilization = r_GPUMemoryUtilization s,
     DeviceClass = r_DeviceClass s, MinDeviceMemory = map_option (quantity_at h) (r_MinDeviceMemory s),
     ModelCacheClaimName = r_ModelCacheClaimName s, WeightLoadSeconds = r_WeightLoadSeconds s,
     Autoscaling = r_Autoscaling s, CostPerHourMilliUSD = r_CostPerHourMilliUSD s\<rparr>"

definition load_service :: "heap \<Rightarrow> ServiceRef \<Rightarrow> InferenceService" where
  "load_service h s = ObjectMeta.extend (r_ObjectMeta s)
     (InferenceService.fields (load_spec h (r_Spec s)) (load_status h (r_Status s)))"

definition load_list :: "heap \<Rightarrow> ServiceListRef \<Rightarrow> InferenceServiceList" where
  "load_list h l = (case r_Items l of None \<Rightarrow> [] | Some a \<Rightarrow> map (load_service h) (services_at h a))"

definition status_refs :: "heap \<Rightarrow> StatusRef \<Rightarrow> nat set" where
  "status_refs h s = set_option (r_Conditions s)"

definition spec_refs :: "heap \<Rightarrow> SpecRef \<Rightarrow> nat set" where
  "spec_refs h s = set_option (r_MinDeviceMemory s)"

definition service_refs :: "heap \<Rightarrow> ServiceRef \<Rightarrow> nat set" where
  "service_refs h s = spec_refs h (r_Spec s) \<union> status_refs h (r_Status s)"

definition list_refs :: "heap \<Rightarrow> ServiceListRef \<Rightarrow> nat set" where
  "list_refs h l = (case r_Items l of None \<Rightarrow> {}
     | Some a \<Rightarrow> insert a (\<Union>x \<in> set (services_at h a). service_refs h x))"

lemmas refs_defs = status_refs_def spec_refs_def service_refs_def

subsection \<open>The contract of a deep copy\<close>

text \<open>
  A copy reads the same, shares no cell with anything that existed before, and leaves every existing
  cell as it is.
\<close>

locale deep_copier =
  fixes copy :: "'a \<Rightarrow> heap \<Rightarrow> 'a \<times> heap" and load :: "heap \<Rightarrow> 'a \<Rightarrow> 'v" and refs :: "heap \<Rightarrow> 'a \<Rightarrow> nat set"
  assumes old_cells: "refs h x \<subseteq> {..<length h} \<Longrightarrow> copy x h = (y, h') \<Longrightarrow> \<exists>new. h' = h @ new"
    and fresh: "refs h x \<subseteq> {..<length h} \<Longrightarrow> copy x h = (y, h') \<Longrightarrow> refs h' y \<subseteq> {length h..<length h'}"
    and same: "refs h x \<subseteq> {..<length h} \<Longrightarrow> copy x h = (y, h') \<Longrightarrow> load h' y = load h x"
    and local_load: "(\<And>a. a \<in> refs h x \<Longrightarrow> h' ! a = h ! a) \<Longrightarrow> load h' x = load h x"
begin

text \<open>Whatever is written afterwards into the cells that existed before, the copy keeps its value.\<close>

lemma unaffected:
  assumes "refs h x \<subseteq> {..<length h}" and "copy x h = (y, h')"
    and "\<And>a. length h \<le> a \<Longrightarrow> a < length h' \<Longrightarrow> h'' ! a = h' ! a"
  shows "load h'' y = load h x"
proof -
  have "load h'' y = load h' y"
    using fresh [OF assms(1,2)] assms(3) by (intro local_load) (auto simp: subset_iff)
  with same [OF assms(1,2)] show ?thesis by simp
qed

end

subsection \<open>The copies of the API types\<close>

lemma conditions_at_update [simp]:
  "dst < length h \<Longrightarrow> conditions_at (h[dst := CConditions cs]) dst = cs"
  "src \<noteq> dst \<Longrightarrow> conditions_at (h[dst := c]) src = conditions_at h src"
  by (simp_all add: conditions_at_def)

lemma copy_conditions_eq:
  assumes "src \<noteq> dst" and "dst < length h" and "h ! dst = CConditions out"
    and "length out = i + n" and "length (conditions_at h src) = i + n"
    and "take i out = take i (conditions_at h src)"
  shows "copy_conditions src dst i n h = h[dst := CConditions (conditions_at h src)]"
  using assms
proof (induction n arbitrary: i out h)
  case 0
  then have "out = conditions_at h src" by simp
  with 0 show ?case by (metis copy_conditions.simps(1) list_update_id)
next
  case (Suc n)
  let ?cs = "conditions_at h src"
  let ?out = "out[i := ?cs ! i]"
  let ?h = "h[dst := CConditions ?out]"
  have out: "conditions_at h dst = out" using Suc.prems(3) by (simp add: conditions_at_def)
  have "take (Suc i) ?out = take (Suc i) ?cs"
    using Suc.prems(4-6) by (simp add: take_Suc_conv_app_nth)
  then have "copy_conditions src dst (Suc i) n ?h = ?h[dst := CConditions (conditions_at ?h src)]"
    using Suc.prems by (intro Suc.IH [where out = ?out]) simp_all
  with Suc.prems(1) out show ?case by simp
qed

lemma Status_DeepCopyInto_eq:
  assumes "status_refs h s \<subseteq> {..<length h}"
  shows "Status_DeepCopyInto s h = (case r_Conditions s of None \<Rightarrow> (s, h)
    | Some a \<Rightarrow> (s\<lparr>r_Conditions := Some (length h)\<rparr>, h @ [CConditions (conditions_at h a)]))"
proof (cases "r_Conditions s")
  case (Some a)
  let ?n = "length (conditions_at h a)"
  let ?h = "h @ [CConditions (replicate ?n zero_condition)]"
  have a: "a < length h" using assms Some by (simp add: status_refs_def)
  then have src: "conditions_at ?h a = conditions_at h a" by (simp add: conditions_at_def nth_append)
  have "copy_conditions a (length h) 0 ?n ?h = ?h[length h := CConditions (conditions_at ?h a)]"
    by (rule copy_conditions_eq [where out = "replicate ?n zero_condition"]) (use a src in auto)
  with Some show ?thesis by (simp add: Status_DeepCopyInto_def alloc_def src)
qed (simp add: Status_DeepCopyInto_def)

interpretation status: deep_copier Status_DeepCopyInto load_status status_refs
proof
  fix h h' s y
  assume v: "status_refs h s \<subseteq> {..<length h}" and run: "Status_DeepCopyInto s h = (y, h')"
  note eq = Status_DeepCopyInto_eq [OF v, unfolded run]
  show "\<exists>new. h' = h @ new" using eq by (auto split: option.splits)
  show "status_refs h' y \<subseteq> {length h..<length h'}" using eq by (auto simp: status_refs_def split: option.splits)
  show "load_status h' y = load_status h s"
    using eq by (auto simp: load_status_def conditions_at_def split: option.splits)
qed (auto simp: load_status_def status_refs_def conditions_at_def split: option.split)

lemma Spec_DeepCopyInto_eq:
  "Spec_DeepCopyInto s h = (case r_MinDeviceMemory s of None \<Rightarrow> (s, h)
    | Some a \<Rightarrow> (s\<lparr>r_MinDeviceMemory := Some (length h)\<rparr>, h @ [CQuantity (quantity_at h a)]))"
  by (simp add: Spec_DeepCopyInto_def alloc_def split: option.split)

interpretation spec: deep_copier Spec_DeepCopyInto load_spec spec_refs
proof
  fix h h' s and y :: SpecRef
  show "load_spec h' s = load_spec h s" if "\<And>a. a \<in> spec_refs h s \<Longrightarrow> h' ! a = h ! a"
    using that by (cases "r_MinDeviceMemory s") (simp_all add: load_spec_def spec_refs_def quantity_at_def)
qed (auto simp: Spec_DeepCopyInto_eq load_spec_def spec_refs_def quantity_at_def split: option.splits)

text \<open>A service, given what apimachinery promises of the metadata's copy.\<close>

lemma load_service_cong:
  "(\<And>a. a \<in> service_refs h x \<Longrightarrow> h' ! a = h ! a) \<Longrightarrow> load_service h' x = load_service h x"
  using spec.local_load [of h "r_Spec x" h'] status.local_load [of h "r_Status x" h']
  by (simp add: load_service_def service_refs_def)

lemma Service_DeepCopyInto_parts:
  assumes "Service_DeepCopyInto cm x h = (y, h')"
  obtains sp h1 st where "Spec_DeepCopyInto (r_Spec x) h = (sp, h1)"
    "Status_DeepCopyInto (r_Status x) h1 = (st, h')"
    "y = x\<lparr>r_ObjectMeta := cm (r_ObjectMeta x), r_Spec := sp, r_Status := st\<rparr>"
  using assms by (auto simp: Service_DeepCopyInto_def Let_def split: prod.splits)

lemma service_copier:
  assumes meta: "\<And>m. cm m = m"
  shows "deep_copier (Service_DeepCopyInto cm) load_service service_refs"
proof
  fix h h' x y
  assume v: "service_refs h x \<subseteq> {..<length h}" and run: "Service_DeepCopyInto cm x h = (y, h')"
  obtain sp h1 st where sp: "Spec_DeepCopyInto (r_Spec x) h = (sp, h1)"
    and st: "Status_DeepCopyInto (r_Status x) h1 = (st, h')"
    and y: "y = x\<lparr>r_ObjectMeta := cm (r_ObjectMeta x), r_Spec := sp, r_Status := st\<rparr>"
    by (rule Service_DeepCopyInto_parts [OF run])
  have vsp: "spec_refs h (r_Spec x) \<subseteq> {..<length h}" and vst0: "status_refs h (r_Status x) \<subseteq> {..<length h}"
    using v by (auto simp: service_refs_def)
  obtain n1 where h1: "h1 = h @ n1" using spec.old_cells [OF vsp sp] by blast
  have vst: "status_refs h1 (r_Status x) \<subseteq> {..<length h1}" using vst0 h1 by (auto simp: status_refs_def)
  obtain n2 where h': "h' = h1 @ n2" using status.old_cells [OF vst st] by blast
  show "\<exists>new. h' = h @ new" using h1 h' by simp
  show "service_refs h' y \<subseteq> {length h..<length h'}"
    using spec.fresh [OF vsp sp] status.fresh [OF vst st] h1 h'
    by (fastforce simp: service_refs_def y spec_refs_def status_refs_def)
  have "load_spec h' sp = load_spec h (r_Spec x)"
    by (rule spec.unaffected [OF vsp sp]) (simp add: h' nth_append)
  moreover have "load_status h' st = load_status h (r_Status x)"
  proof -
    have "load_status h' st = load_status h1 (r_Status x)" by (rule status.same [OF vst st])
    also have "\<dots> = load_status h (r_Status x)"
      by (rule status.local_load) (use vst0 h1 in \<open>auto simp: nth_append\<close>)
    finally show ?thesis .
  qed
  ultimately show "load_service h' y = load_service h x"
    by (simp add: load_service_def y meta)
qed (rule load_service_cong)

interpretation service: deep_copier "Service_DeepCopyInto (\<lambda>m. m)" load_service service_refs
  by (rule service_copier) simp

text \<open>A list: the loop copies the elements one after the other into the fresh array.\<close>

lemma services_at_update [simp]:
  "dst < length h \<Longrightarrow> services_at (h[dst := CServices l]) dst = l"
  "src \<noteq> dst \<Longrightarrow> services_at (h[dst := c]) src = services_at h src"
  by (simp_all add: services_at_def)

lemma service_refs_heap: "service_refs h x = service_refs h' x"
  by (simp add: refs_defs)

definition copied :: "heap \<Rightarrow> ServiceRef list \<Rightarrow> nat \<Rightarrow> ServiceRef list \<Rightarrow> heap \<Rightarrow> bool" where
  "copied h0 ins i out h \<longleftrightarrow> (\<exists>new. h = h0 @ CServices out # new) \<and> length out = length ins \<and>
     (\<forall>j < i. load_service h (out ! j) = load_service h0 (ins ! j) \<and>
        service_refs h (out ! j) \<subseteq> {Suc (length h0)..<length h})"

lemma copied_step:
  assumes meta: "\<And>m. cm m = m" and c: "copied h0 ins i out h" and i: "i < length ins"
    and refs: "service_refs h0 (ins ! i) \<subseteq> {..<length h0}"
    and run: "Service_DeepCopyInto cm (ins ! i) h = (s, h1)"
  shows "copied h0 ins (Suc i) (out[i := s]) (h1[length h0 := CServices (out[i := s])])"
proof -
  note cp = service_copier [OF meta]
  obtain new where h: "h = h0 @ CServices out # new" and len: "length out = length ins"
    and prev: "\<And>j. j < i \<Longrightarrow> load_service h (out ! j) = load_service h0 (ins ! j)"
      "\<And>j. j < i \<Longrightarrow> service_refs h (out ! j) \<subseteq> {Suc (length h0)..<length h}"
    using c by (auto simp: copied_def)
  let ?h2 = "h1[length h0 := CServices (out[i := s])]"
  have r: "service_refs h (ins ! i) \<subseteq> {..<length h}"
  proof (rule subset_trans)
    show "service_refs h (ins ! i) \<subseteq> {..<length h0}" using refs by (simp add: service_refs_heap [of h _ h0])
  qed (simp add: h)
  obtain n1 where h1: "h1 = h @ n1" using deep_copier.old_cells [OF cp r run] by blast
  have h2: "?h2 = h0 @ CServices (out[i := s]) # new @ n1" by (simp add: h1 h list_update_append)
  have cells: "?h2 ! a = h1 ! a" if "length h0 < a" for a using that by simp
  have s: "load_service ?h2 s = load_service h0 (ins ! i)"
  proof -
    have "load_service ?h2 s = load_service h (ins ! i)"
      by (rule deep_copier.unaffected [OF cp r run]) (rule cells, simp add: h)
    also have "\<dots> = load_service h0 (ins ! i)"
      by (rule load_service_cong) (use refs h in \<open>auto simp: nth_append\<close>)
    finally show ?thesis .
  qed
  have sr: "service_refs ?h2 s \<subseteq> {Suc (length h0)..<length ?h2}"
  proof (rule subset_trans)
    show "service_refs ?h2 s \<subseteq> {length h..<length h1}"
      using deep_copier.fresh [OF cp r run] by (simp add: service_refs_heap [of ?h2 _ h1])
  qed (simp add: h)
  have old: "load_service ?h2 (out ! j) = load_service h0 (ins ! j) \<and>
      service_refs ?h2 (out ! j) \<subseteq> {Suc (length h0)..<length ?h2}" if "j < i" for j
  proof -
    have "load_service ?h2 (out ! j) = load_service h (out ! j)"
    proof (rule load_service_cong)
      fix a assume "a \<in> service_refs h (out ! j)"
      with prev(2) [OF that] have "length h0 < a" "a < length h" by auto
      then show "?h2 ! a = h ! a" using cells h1 by (simp add: nth_append)
    qed
    moreover have "service_refs ?h2 (out ! j) \<subseteq> {Suc (length h0)..<length ?h2}"
    proof (rule subset_trans)
      show "service_refs ?h2 (out ! j) \<subseteq> {Suc (length h0)..<length h}"
        using prev(2) [OF that] by (simp add: service_refs_heap [of ?h2 _ h])
    qed (simp add: h1)
    ultimately show ?thesis using prev(1) [OF that] by simp
  qed
  show ?thesis
    unfolding copied_def
  proof (intro conjI allI impI)
    show "\<exists>new'. ?h2 = h0 @ CServices (out[i := s]) # new'" using h2 by blast
    show "length (out[i := s]) = length ins" by (simp add: len)
    fix j assume "j < Suc i"
    then show "load_service ?h2 (out[i := s] ! j) = load_service h0 (ins ! j)"
      and "service_refs ?h2 (out[i := s] ! j) \<subseteq> {Suc (length h0)..<length ?h2}"
      using s sr old [of j] i len by (cases "j = i"; simp)+
  qed
qed

lemma copied_services_at:
  assumes "copied h0 ins i out h"
  shows "services_at h (length h0) = out" "src < length h0 \<Longrightarrow> services_at h src = services_at h0 src"
  using assms by (auto simp: copied_def services_at_def nth_append)

lemma copied_grows:
  assumes "copied h0 ins i out h" and "deep_copier (Service_DeepCopyInto cm) load_service service_refs"
    and "service_refs h0 x \<subseteq> {..<length h0}" and "Service_DeepCopyInto cm x h = (s, h1)"
  shows "services_at h1 (length h0) = out"
proof -
  obtain new where h: "h = h0 @ CServices out # new" using assms(1) by (auto simp: copied_def)
  have "service_refs h x \<subseteq> {..<length h}"
  proof (rule subset_trans)
    show "service_refs h x \<subseteq> {..<length h0}" using assms(3) by (simp add: service_refs_heap [of h _ h0])
  qed (simp add: h)
  then obtain n1 where "h1 = h @ n1" using deep_copier.old_cells [OF assms(2)] assms(4) by blast
  then show ?thesis by (simp add: h services_at_def nth_append)
qed

lemma copy_services_copied:
  assumes meta: "\<And>m. cm m = m" and "copied h0 (services_at h0 src) i out h" and "src < length h0"
    and "i + n = length (services_at h0 src)"
    and refs: "\<And>x. x \<in> set (services_at h0 src) \<Longrightarrow> service_refs h0 x \<subseteq> {..<length h0}"
  shows "\<exists>out'. copied h0 (services_at h0 src) (i + n) out' (copy_services cm src (length h0) i n h)"
  using assms(2,4)
proof (induction n arbitrary: i out h)
  case (Suc n)
  let ?ins = "services_at h0 src"
  have i: "i < length ?ins" using Suc.prems(2) by simp
  then have r: "service_refs h0 (?ins ! i) \<subseteq> {..<length h0}" by (intro refs) simp
  have src: "services_at h src = ?ins" by (rule copied_services_at(2) [OF Suc.prems(1) \<open>src < length h0\<close>])
  obtain s h1 where run: "Service_DeepCopyInto cm (?ins ! i) h = (s, h1)" by fastforce
  have "services_at h1 (length h0) = out"
    by (rule copied_grows [OF Suc.prems(1) service_copier [OF meta] r run])
  then have "copy_services cm src (length h0) i (Suc n) h =
      copy_services cm src (length h0) (Suc i) n (h1[length h0 := CServices (out[i := s])])"
    by (simp add: src run)
  with Suc.IH [OF copied_step [OF meta Suc.prems(1) i r run]] Suc.prems(2) show ?case by simp
qed auto

lemma list_refs_valid:
  assumes "list_refs h l \<subseteq> {..<length h}" and "r_Items l = Some a"
  shows "a < length h" "\<And>x. x \<in> set (services_at h a) \<Longrightarrow> service_refs h x \<subseteq> {..<length h}"
  using assms by (auto simp: list_refs_def)

lemma List_DeepCopyInto_copied:
  assumes meta: "\<And>m. cm m = m" and v: "list_refs h l \<subseteq> {..<length h}" and it: "r_Items l = Some a"
    and run: "List_DeepCopyInto cm l h = (y, h')"
  shows "y = l\<lparr>r_Items := Some (length h)\<rparr>"
    and "\<exists>out. copied h (services_at h a) (length (services_at h a)) out h'"
proof -
  let ?n = "length (services_at h a)"
  let ?h = "h @ [CServices (replicate ?n zero_service)]"
  note a = list_refs_valid [OF v it]
  have "y = l\<lparr>r_Items := Some (length h)\<rparr> \<and> h' = copy_services cm a (length h) 0 ?n ?h"
    using run it by (simp add: List_DeepCopyInto_def alloc_def Let_def)
  moreover have "copied h (services_at h a) 0 (replicate ?n zero_service) ?h" by (simp add: copied_def)
  ultimately show "y = l\<lparr>r_Items := Some (length h)\<rparr>"
    and "\<exists>out. copied h (services_at h a) (length (services_at h a)) out h'"
    using copy_services_copied [OF meta _ a(1) _ a(2), of 0 "replicate ?n zero_service" ?h ?n] by simp_all
qed

lemma list_copier:
  assumes meta: "\<And>m. cm m = m"
  shows "deep_copier (List_DeepCopyInto cm) load_list list_refs"
proof
  fix h h' l y
  assume v: "list_refs h l \<subseteq> {..<length h}" and run: "List_DeepCopyInto cm l h = (y, h')"
  have "(\<exists>new. h' = h @ new) \<and> list_refs h' y \<subseteq> {length h..<length h'} \<and> load_list h' y = load_list h l"
  proof (cases "r_Items l")
    case None
    with run show ?thesis by (auto simp: List_DeepCopyInto_def list_refs_def load_list_def)
  next
    case (Some a)
    note y = List_DeepCopyInto_copied(1) [OF meta v Some run]
    obtain out where c: "copied h (services_at h a) (length (services_at h a)) out h'"
      using List_DeepCopyInto_copied(2) [OF meta v Some run] by blast
    note at = copied_services_at(1) [OF c]
    from c obtain new where h': "h' = h @ CServices out # new" and len: "length out = length (services_at h a)"
      by (auto simp: copied_def)
    have each: "load_service h' (out ! j) = load_service h (services_at h a ! j)"
        "service_refs h' (out ! j) \<subseteq> {Suc (length h)..<length h'}" if "j < length out" for j
      using c that len by (auto simp: copied_def)
    have "map (load_service h') out = map (load_service h) (services_at h a)"
      by (rule nth_equalityI) (use each(1) len in auto)
    moreover have "list_refs h' y \<subseteq> {length h..<length h'}"
    proof -
      have "length h < length h'" by (simp add: h')
      moreover have "service_refs h' x \<subseteq> {length h..<length h'}" if "x \<in> set out" for x
      proof -
        from that obtain j where "j < length out" "x = out ! j" by (auto simp: in_set_conv_nth)
        with each(2) [of j] show ?thesis by auto
      qed
      ultimately show ?thesis by (auto simp: list_refs_def y at)
    qed
    moreover have "\<exists>new. h' = h @ new" using h' by blast
    ultimately show ?thesis using Some by (simp add: load_list_def y at)
  qed
  then show "\<exists>new. h' = h @ new" and "list_refs h' y \<subseteq> {length h..<length h'}"
    and "load_list h' y = load_list h l" by simp_all
next
  fix h h' l
  assume same: "\<And>a. a \<in> list_refs h l \<Longrightarrow> h' ! a = h ! a"
  show "load_list h' l = load_list h l"
  proof (cases "r_Items l")
    case (Some a)
    then have "services_at h' a = services_at h a" using same [of a] by (simp add: list_refs_def services_at_def)
    moreover have "load_service h' x = load_service h x" if "x \<in> set (services_at h a)" for x
      by (rule load_service_cong) (use same Some that in \<open>auto simp: list_refs_def\<close>)
    ultimately show ?thesis using Some by (simp add: load_list_def)
  qed (simp add: load_list_def)
qed

interpretation services: deep_copier "List_DeepCopyInto (\<lambda>m. m)" load_list list_refs
  by (rule list_copier) simp

end
