(* ===== verification/Admission.thy ===== *)
theory Admission
  imports Verdicts
begin

section \<open>Admission and the operator's policy\<close>

text \<open>
  The same rules are written twice, as CEL markers on the API type and as \<open>policyViolation\<close> in the
  controller, because the CRD installed in a cluster is not always the one shipped with the operator.
  Here they are compared, on specs as submitted and defaulted by the API server, and the bounds
  admission gives the operator are read off the schema.
\<close>

lemma policy_of_raw:
  assumes "schema_spec (default_spec r)" and "Spec svc = decode_spec (default_spec r)"
  shows "policyViolation svc =
    (case map snd (filter (\<lambda>(ok, _). \<not> ok) (take 3 (cel_rules (default_spec r)))) of [] \<Rightarrow> [] | m # _ \<Rightarrow> m)"
proof -
  define b c dc where "b = or_zero BackendVLLM (raw_backend r)"
    and "c = or_zero ClassificationInternal (raw_classification r)"
    and "dc = or_zero [] (raw_deviceClass r)"
  have raw: "raw_backend (default_spec r) = Some b" "raw_classification (default_spec r) = Some c"
    "has_deviceClass (default_spec r) \<longleftrightarrow> dc \<noteq> []"
    by (simp_all add: default_spec_def or_default_def or_zero_def b_def c_def dc_def has_deviceClass_iff
        split: option.split)
  have svc: "Backend (Spec svc) = b" "Classification (Spec svc) = c" "DeviceClass (Spec svc) = dc"
    by (simp_all add: assms(2) decode_default_fields b_def c_def dc_def)
  have vllm: "b = BackendVLLM \<longleftrightarrow> b \<noteq> BackendOllama"
    using assms(1) by (auto simp: schema_spec_def raw api_consts)
  have differ: "BackendVLLM \<noteq> BackendOllama" by (simp add: api_consts)
  show ?thesis
    unfolding policyViolation_def Let_def svc cel_rules_def raw take_Suc_Cons
    by (cases "c = ClassificationRestricted"; cases "dc = []"; cases "b = BackendOllama")
      (simp_all add: vllm differ differ [symmetric] numeral_3_eq_3)
qed

lemma admit_decode:
  assumes "admit r = Some d"
  shows "d = default_spec r" "schema_spec (default_spec r)" "cel_violations (default_spec r) = []"
  using assms by (auto simp: admit_def Let_def split: if_splits)

lemma admitted_accepted:
  assumes "admit r = Some d" and "Spec svc = decode_spec d"
  shows "policyViolation svc = []"
proof -
  note a = admit_decode [OF assms(1)]
  have "filter (\<lambda>(ok, _). \<not> ok) (take 3 (cel_rules (default_spec r))) = []"
    using a(3) by (auto simp: cel_violations_def filter_empty_conv dest: in_set_takeD)
  with policy_of_raw [OF a(2)] assms(2) a(1) show ?thesis by simp
qed

lemma admitted_bounds:
  assumes "admit r = Some d"
  shows "Model (decode_spec d) \<noteq> [] \<and> 10 \<le> sint (WeightLoadSeconds (decode_spec d)) \<and>
    1 \<le> sint (MinReplicas (Autoscaling (decode_spec d))) \<and>
    sint (MinReplicas (Autoscaling (decode_spec d))) \<le> sint (MaxReplicas (Autoscaling (decode_spec d))) \<and>
    10 \<le> sint (GPUMemoryUtilization (decode_spec d)) \<and> sint (GPUMemoryUtilization (decode_spec d)) \<le> 95"
proof -
  note s = admit_decode [OF assms]
  define a where "a = or_zero empty_autoscaling (raw_autoscaling r)"
  have au: "raw_autoscaling (default_spec r) = Some (default_autoscaling a)"
    by (simp add: default_spec_def or_default_def or_zero_def a_def split: option.split)
  have au_fields: "Autoscaling (decode_spec d) = decode_autoscaling (Some (default_autoscaling a))"
    by (simp add: decode_spec_def s(1) au)
  have model: "or_zero [] (raw_model r) \<noteq> []"
    using s(2) by (cases "raw_model r") (simp_all add: schema_spec_def default_spec_def, auto)
  have load: "10 \<le> sint (or_zero 600 (raw_weightLoadSeconds r))"
    and mem: "10 \<le> sint (or_zero 85 (raw_gpuMemoryUtilization r))"
      "sint (or_zero 85 (raw_gpuMemoryUtilization r)) \<le> 95"
    and min: "1 \<le> sint (or_zero 1 (raw_minReplicas a))"
    using s(2) unfolding schema_spec_def au
    by (simp_all add: default_spec_def schema_autoscaling_def default_autoscaling_def)
  have "max_ge_min (default_autoscaling a)"
    using s(3) by (simp add: cel_violations_def cel_rules_def au split: if_splits)
  then have max: "sint (or_zero 1 (raw_minReplicas a)) \<le> sint (or_zero 4 (raw_maxReplicas a))"
    by (cases "raw_minReplicas a"; cases "raw_maxReplicas a")
      (simp_all add: max_ge_min_def default_autoscaling_def)
  have "MinReplicas (Autoscaling (decode_spec d)) = or_zero 1 (raw_minReplicas a)"
    "MaxReplicas (Autoscaling (decode_spec d)) = or_zero 4 (raw_maxReplicas a)"
    by (simp_all add: au_fields decode_autoscaling_def Let_def default_autoscaling_def)
  with model load mem min max show ?thesis
    by (simp add: s(1) decode_default_fields)
qed

end
