(* ===== verification/Samples.thy ===== *)
theory Samples
  imports Operator Convergence Errors DeepCopy Admission
begin

section \<open>Concrete services and clusters\<close>

text \<open>
  A vLLM service as in \<open>config/samples\<close>, the same service asked to run restricted data on Ollama, and
  clusters holding them: empty but for the service, and with its Deployment scaled by an autoscaler.
  The witnesses of the properties are evaluated on these.
\<close>

definition sample_spec :: InferenceServiceSpec where
  "sample_spec = \<lparr>Model = ''Qwen/Qwen2.5-7B-Instruct'', Backend = BackendVLLM,
     Classification = ClassificationInternal, MaxModelLen = 4096, GPUMemoryUtilization = 85,
     DeviceClass = ''gpu.nvidia.com'', MinDeviceMemory = Some (Quantity ''24Gi''), ModelCacheClaimName = [],
     WeightLoadSeconds = 600,
     Autoscaling = \<lparr>MinReplicas = 2, MaxReplicas = 6, QueueDepthTarget = 4, TTFTP95Milliseconds = 2000,
       KVCacheUsagePercent = 80\<rparr>,
     CostPerHourMilliUSD = 0\<rparr>"

definition sample :: InferenceService where
  "sample = \<lparr>Name = ''chat'', Namespace = ''ml'', UID = ''u1'', Generation = 3, DeletionTimestamp = None,
     OwnerReferences = [], Spec = sample_spec, Status = zero_status\<rparr>"

definition restricted_sample :: InferenceService where
  "restricted_sample = sample\<lparr>Spec := sample_spec\<lparr>Backend := BackendOllama,
     Classification := ClassificationRestricted\<rparr>\<rparr>"

definition holding :: "InferenceService \<Rightarrow> cluster" where
  "holding svc = \<lparr>cl_Services = [(svc_key svc, svc)], cl_Objects = [], cl_Pods = [],
     cl_Installed = [scaledObjectGVK], cl_Clock = 100\<rparr>"

definition sample_key :: NamespacedName where
  "sample_key = (''ml'', ''chat'')"

definition sample_addr :: string where
  "sample_addr = ''http://prometheus.monitoring.svc.cluster.local:9090''"

text \<open>The cluster with the Deployment made and the autoscaler's five replicas in it.\<close>

definition live :: cluster where
  "live = (holding sample)\<lparr>cl_Objects := [((KDeployment, sample_key),
     (new_stored (AC_Deployment (desiredDeployment sample)) FieldOwner)
       \<lparr>st_Replicas := (5, [''horizontal-pod-autoscaler''])\<rparr>)]\<rparr>"

lemmas sample_defs = sample_def sample_spec_def restricted_sample_def sample_key_def

lemma sample_key [simp]: "svc_key sample = sample_key" "svc_key restricted_sample = sample_key"
  by (simp_all add: sample_defs svc_key_def)

lemma sample_admitted [simp]: "policyViolation sample = []"
  by (simp add: policy_accepts_iff sample_defs api_consts)

lemma restricted_rejected: "policyViolation restricted_sample = ''Ollama backend is not approved for Restricted data''"
  by (simp add: policyViolation_def sample_defs api_consts)

lemma holding_fields [simp]:
  "cl_get_service (svc_key svc) (holding svc) = (Inr svc, holding svc)"
  "replicas_view (holding svc) k = None"
  by (simp_all add: holding_def cl_get_service_def replicas_view_def)

lemma holding_settled: "settled_deployment svc (holding svc')"
  by (simp add: settled_deployment_def holding_def)

lemma sample_completed: "completed (pass_outcome kube sample_addr sample_key (holding sample))"
  by (rule pass_completes_healthy [where svc = sample]) (simp_all add: holding_def settled_deployment_def)

lemma completedE:
  assumes "completed out"
  obtains r where "out = (r, None)" "r \<noteq> Result 5" "RequeueAfter r \<in> {driftRequeue, notReadyRequeue}"
proof -
  obtain r where out: "out = (r, None)" "RequeueAfter r \<in> {driftRequeue, notReadyRequeue}"
    using assms by (cases out) (auto simp: completed_def)
  moreover from this have "r \<noteq> Result 5" by (auto simp: driftRequeue_def notReadyRequeue_def)
  ultimately show thesis by (intro that)
qed

lemma hpa_not_operator [simp]: "FieldOwner \<noteq> ''horizontal-pod-autoscaler''"
  by (simp add: FieldOwner_def)

lemma live_view:
  "replicas_view live k = (if k = sample_key then Some (5, [''horizontal-pod-autoscaler'']) else None)"
  by (simp add: live_def holding_def replicas_view_def)

lemma live_reachable: "reachable addr live"
proof (rule reachable.further)
  show "reachable addr (holding sample)" by (rule reachable.initial) (simp add: holding_def)
  show "cluster_step addr (holding sample) live"
    by (rule cluster_step.environment) (simp add: others_write_def live_view)
qed

lemma live_service: "Get_InferenceService kube sample_key live = (Inr sample, live)"
  by (simp add: live_def holding_def cl_get_service_def)

lemma live_completed: "completed (pass_outcome kube addr sample_key live)"
  by (rule pass_completes_healthy [where svc = sample])
    (simp_all add: live_def holding_def settled_deployment_def new_stored_def maps_Equal_iff
      desiredDeployment_key del: ac_key.simps applied_selector.simps applied_replicas.simps)

text \<open>The same with a selector of an earlier operator version.\<close>

definition outdated_live :: cluster where
  "outdated_live = (holding sample)\<lparr>cl_Objects := [((KDeployment, sample_key),
     (new_stored (AC_Deployment (desiredDeployment sample)) FieldOwner)
       \<lparr>st_Selector := Some [(''app'', ''chat'')]\<rparr>)]\<rparr>"

lemma outdated_live_fields:
  "map_of (cl_Services outdated_live) sample_key = Some sample"
  "map_of (cl_Objects outdated_live) (KDeployment, sample_key) = Some o' \<Longrightarrow> st_Deletion o' = None"
  "outdated_deployment sample outdated_live"
  by (auto simp: outdated_live_def holding_def new_stored_def outdated_deployment_def outdated_selector_def
      stored_deployment_def maps_Equal_def selectorLabels_def)

subsection \<open>Fixed answers\<close>

text \<open>
  A platform over no state at all that answers every call the same way: it holds one service, finds
  one answer for every Deployment, and accepts everything else. Passes on it evaluate by rewriting.
\<close>

definition fixed :: "InferenceService \<Rightarrow> go_error + Deployment \<Rightarrow> unit Platform" where
  "fixed svc d = \<lparr>Get_InferenceService = \<lambda>_ w. (Inr svc, w), Get_Deployment = \<lambda>_ w. (d, w),
     Get_Unstructured = \<lambda>_ _ w. (Inl (NotFound []), w), Get_Meta = \<lambda>_ _ w. (Inr (svc_meta svc), w),
     List_Pods = \<lambda>_ _ w. (Inr [], w), Apply_Config = \<lambda>_ _ _ w. (None, w),
     Delete_Object = \<lambda>_ _ _ w. (None, w), Update_Status = \<lambda>_ w. (None, w),
     SetStatusCondition = \<lambda>_ cs w. (cs, w), Semantic_DeepEqual = \<lambda>_ _. True,
     IsControlledBy = \<lambda>_ _. True, NestedSlice = \<lambda>_ _. []\<rparr>"

definition old_deployment :: Deployment where
  "old_deployment = \<lparr>Name = ''chat'', Namespace = ''ml'', UID = ''d0'', Generation = 1,
     DeletionTimestamp = None, OwnerReferences = [], dep_Selector = Some [(''app'', ''chat'')],
     dep_ReadyReplicas = 1\<rparr>"

lemma sample_fields [simp]:
  "claims_gpu sample" "DeviceClass (Spec sample) \<noteq> []" "Backend (Spec sample) \<noteq> BackendOllama"
  "Namespace sample = ''ml''" "Name sample = ''chat''" "Generation sample = 3"
  by (simp_all add: claims_gpu_def sample_def sample_spec_def api_consts)

lemma old_deployment_outdated [simp]:
  "outdated_selector sample old_deployment" "DeletionTimestamp old_deployment = None"
  "Namespace old_deployment = ''ml''" "Name old_deployment = ''chat''"
  by (simp_all add: outdated_selector_def old_deployment_def maps_Equal_def selectorLabels_def)

lemma fixed_log:
  "wp (Reconcile P addr req) (\<lambda>_ t. calls t = L) (start w) \<Longrightarrow> pass_calls P addr req w = L"
  by (drule wp_pass) (simp add: pass_calls_def)

lemma creating_log:
  "pass_calls (fixed sample (Inl (NotFound []))) addr sample_key () =
    [read_service sample_key sample,
     CApply (AC_ResourceClaimTemplate (desiredClaimTemplate sample)) FieldOwner True None,
     CGetDeployment sample_key (Inl (NotFound [])),
     CApply (AC_Deployment (desiredDeployment sample)) FieldOwner True None,
     CApply (AC_Deployment (initialReplicas sample)) initialReplicasOwner False None,
     CApply (AC_Deployment (desiredDeployment sample)) FieldOwner True None,
     CGetDeployment sample_key (Inl (NotFound []))]"
  by (rule fixed_log)
    (simp add: Reconcile_def reconcile_def reconcileClaimTemplate_def reconcileDeployment_def
      createDeployment_def applyDeployment_def client_ops wp_simps fixed_def start_def read_service_def)

lemma recreating_log:
  "pass_calls (fixed sample (Inr old_deployment)) addr sample_key () =
    [read_service sample_key sample,
     CApply (AC_ResourceClaimTemplate (desiredClaimTemplate sample)) FieldOwner True None,
     CGetDeployment sample_key (Inr old_deployment),
     CDelete KDeployment (''ml'', ''chat'') PropagationBackground None]"
  by (rule fixed_log)
    (simp add: Reconcile_def reconcile_def reconcileClaimTemplate_def reconcileDeployment_def
      client_ops wp_simps fixed_def start_def read_service_def)

lemma fixed_service: "Get_InferenceService (fixed svc d) k w = (Inr svc, w)"
  by (simp add: fixed_def)

lemma sample_min: "MinReplicas (Autoscaling (Spec sample)) = 2"
  by (simp add: sample_def sample_spec_def)

subsection \<open>Specs as submitted\<close>

definition raw_sample :: RawSpec where
  "raw_sample = \<lparr>raw_model = Some ''Qwen/Qwen2.5-7B-Instruct'', raw_backend = None, raw_classification = None,
     raw_maxModelLen = None, raw_gpuMemoryUtilization = None, raw_deviceClass = Some ''gpu.nvidia.com'',
     raw_minDeviceMemory = None, raw_modelCacheClaimName = None, raw_weightLoadSeconds = None,
     raw_autoscaling = None, raw_costPerHourMilliUSD = None\<rparr>"

definition raw_restricted :: RawSpec where
  "raw_restricted = raw_sample\<lparr>raw_backend := Some BackendOllama,
     raw_classification := Some ClassificationRestricted\<rparr>"

definition raw_memory_only :: RawSpec where
  "raw_memory_only = raw_sample\<lparr>raw_backend := Some BackendOllama, raw_deviceClass := None,
     raw_minDeviceMemory := Some (Quantity ''24Gi'')\<rparr>"

lemmas raw_defs = raw_sample_def raw_restricted_def raw_memory_only_def

lemmas admission_simps = schema_spec_def default_spec_def cel_violations_def cel_rules_def has_deviceClass_def
  api_consts schema_autoscaling_def default_autoscaling_def empty_autoscaling_def max_ge_min_def

lemma raw_sample_admitted: "admit raw_sample = Some (default_spec raw_sample)"
  by (simp add: admit_def Let_def raw_defs admission_simps)

subsection \<open>A process whose calls all succeed\<close>

definition quiet_environment :: Environment where
  "quiet_environment = \<lparr>Scheme_AddClientGo = None, Scheme_AddServing = None, Lib_Flags = \<lambda>_. None,
     Config_Error = None, New_Manager = \<lambda>_. None, REST_Mapping = \<lambda>_. None, Builder_Complete = \<lambda>_. None,
     Manager_Start = None\<rparr>"

lemma quiet_program:
  "set (map fst nvs) \<subseteq> set flag_names \<Longrightarrow> program quiet_environment (map flag_arg nvs) =
     (let f = fold set_flag nvs default_flags in
      (Returned, [ENewManager (main_opts f), ESetup (prometheusAddr f), EHealthz, EReadyz, EStart]))"
  by (simp add: program_def init_scheme_def quiet_environment_def main_runs parse_flag_args Let_def)

end
