(* ===== verification/Spec2Isabelle.thy ===== *)
theory Spec2Isabelle
  imports Samples Operator
begin

text \<open>
  The Kubernetes operator of the inference platform, verified: the \<open>InferenceService\<close> API
  (\<open>api/v1alpha1\<close>), the controller (\<open>internal/controller\<close>) and the operator process
  (\<open>cmd/operator\<close>), all the Go of the repository.

  \<^bold>\<open>The program.\<close> A user submits an \<open>InferenceService\<close>; the API server defaults it and checks
  schema and CEL rules. For every change of it, or of an object it owns, \<open>Reconcile\<close> makes one pass:
  it reads the service, checks the placement policy again, applies the GPU claim template, the
  Deployment, the Service, KEDA's ScaledObject and the InferencePool by server-side apply, deletes
  what the service no longer wants, and writes back a status with a phase and four conditions. The
  autoscaler changes the Deployment's replica count meanwhile; the operator writes the count once,
  at creation, under a field manager of its own, and must not touch it again.

  \<^bold>\<open>Theories and sources.\<close>
  \<^item> \<open>Prelude\<close>: Go's 32 and 64 bit integers, maps, and the state monad with its weakest preconditions.
  \<^item> \<open>GoFmt\<close>: \<open>fmt\<close>'s \<open>%d\<close>, \<open>%.2f\<close> and \<open>%q\<close>, each with the reader that undoes it.
  \<^item> \<open>Api_Types\<close>: \<open>inferenceservice_types.go\<close>, the types as records and the kubebuilder markers as
    defaulting, schema and CEL rules. \<open>Admission\<close> relates them to the operator's policy.
  \<^item> \<open>DeepCopy\<close>: \<open>zz_generated.deepcopy.go\<close> over an explicit heap; locale \<open>deep_copier\<close>.
  \<^item> \<open>Kube\<close>: the objects that are read and applied, the record \<open>Platform\<close> of everything the operator
    calls outside the repository, and the state of one pass: world, status, log of calls.
  \<^item> \<open>Labels\<close>, \<open>Deployment\<close>, \<open>Resources\<close>: \<open>resources.go\<close> and \<open>deployment.go\<close>, the builders of the five
    objects; locales \<open>label_scheme\<close>, \<open>serving_container\<close>, \<open>owned_object\<close>.
  \<^item> \<open>Verdicts\<close>, \<open>Reconcile\<close>: \<open>inferenceservice_controller.go\<close>, a definition per handler with every call,
    error return and early return, composed as \<open>reconcile\<close> composes them.
  \<^item> \<open>Setup\<close>: \<open>SetupWithManager\<close>. \<open>Operator\<close>: \<open>cmd/operator/main.go\<close> with the \<open>flag\<close> package's parser.
  \<^item> \<open>Discipline\<close>, \<open>Errors\<close>, \<open>Outcome\<close>: what each call of a pass must satisfy given the calls before it
    (locale \<open>pass_step\<close>), which errors may be tolerated (\<open>reporting_step\<close>), what a completed pass has
    done and reports (\<open>applying_step\<close>, \<open>status_reporting\<close>). Each locale is interpreted on every handler.
  \<^item> \<open>Contracts\<close>: what the operator relies on from outside, as the locales \<open>condition_setter\<close>
    (\<open>meta.SetStatusCondition\<close>) and \<open>server_side_apply\<close> (field ownership in the API server).
  \<^item> \<open>Cluster\<close>, \<open>Progress\<close>, \<open>Lifecycle\<close>, \<open>Convergence\<close>: an executable API server that meets both contracts,
    passes run against it, the reachable states of a cluster that operator, autoscaler and other actors
    share, and the desired state as a fixed point of the passes (locale \<open>placing_step\<close>).
  \<^item> \<open>Samples\<close>: concrete services and clusters. This theory: the properties, most important first.

  \<^bold>\<open>What the properties show.\<close> The replica count survives the operator (C1 to C6); what a pass does to
  the cluster, in which order, that passes converge and that no error is lost (C7 to C13); what the
  status says (C14 to C21); that the objects fit each other (C22 to C31); that policy and admission agree as far as they do
  (C32 to C35); flags, process, watches and copies (C36 to C40).

  \<^bold>\<open>Assumptions.\<close> Properties of the operator's own discipline (C6 to C10, C13, C18 to C21) hold for
  every behaviour of the platform, errors at any call included. Those about conditions assume
  \<open>condition_setter\<close>, those about the replica count \<open>server_side_apply\<close>; \<open>Cluster\<close> shows that both can
  be met, and C3, C4, C11 and C12 are proved on it outright.

  \<^bold>\<open>Bounds.\<close> There is no fuel: every loop of the program is a structural recursion or a recursion on
  the command line, and all definitions are total. The \<open>int32\<close> and \<open>int64\<close> fields are words, and
  their arithmetic wraps; C25 and C31 show where it cannot.

  \<^bold>\<open>Not modelled.\<close> Logging and contexts. The watches' event handlers and the work queue: a pass is
  started by whoever runs \<open>Reconcile\<close>, and the order of passes is arbitrary. The text of quantities is
  taken as canonical. Of object metadata, the fields the operator reads. Types registered in
  schemes. The Python gateway (\<open>gateway/\<close>), the deployment manifests and scripts, and the tests, none
  of which are Go code of the operator.
\<close>

section \<open>The replica count\<close>

text \<open>C1. Whatever a reconcile pass does, and wherever it fails, the replica count of a Deployment whose
  count the operator's field manager does not own is still the same afterwards, and still not owned by
  the operator, or the Deployment is gone. \<open>view\<close> reads counts and owners off the platform's state;
  the platform follows the rules of server-side apply.\<close>

theorem pass_keeps_scale:
  assumes "server_side_apply P view" and "view w k = Some (n, own)" and "FieldOwner \<notin> set own"
  shows "view (pass_world P addr req w) k = None \<or>
    (\<exists>own'. view (pass_world P addr req w) k = Some (n, own') \<and> FieldOwner \<notin> set own')"
  using server_side_apply.pass_keeps_or_gone [OF assms(1), of w addr req] assms(2,3)
  unfolding keeps_or_gone_def by blast

theorem pass_keeps_scale_witness:
  "replicas_view live sample_key = Some (5, [''horizontal-pod-autoscaler'']) \<and>
   (replicas_view (pass_world kube sample_addr sample_key live) sample_key = None \<or>
    (\<exists>own'. replicas_view (pass_world kube sample_addr sample_key live) sample_key = Some (5, own') \<and>
       FieldOwner \<notin> set own'))"
  using pass_keeps_scale [OF kube_apply.server_side_apply_axioms, of live sample_key 5
      "[''horizontal-pod-autoscaler'']" sample_addr sample_key]
  by (simp add: live_view)

text \<open>C2. A pass that ends without error and not in the five-second requeue of a recreation keeps every
  such count, and deletes no Deployment that has one.\<close>

theorem successful_pass_keeps_scale:
  assumes "server_side_apply P view" and "Get_InferenceService P req w = (Inr svc, w1)"
    and "pass_outcome P addr req w = (r, None)" and "r \<noteq> Result 5"
    and "view w k = Some (n, own)" and "FieldOwner \<notin> set own"
  shows "\<exists>own'. view (pass_world P addr req w) k = Some (n, own') \<and> FieldOwner \<notin> set own'"
  using server_side_apply.pass_keeps_start [OF assms(1,2), of addr] assms(3-6)
  by (auto intro: keepsD dest: pass_keepsD)

theorem successful_pass_keeps_scale_witness:
  "\<exists>own'. replicas_view (pass_world kube sample_addr sample_key live) sample_key = Some (5, own') \<and>
     FieldOwner \<notin> set own'"
proof -
  obtain r where "pass_outcome kube sample_addr sample_key live = (r, None)" "r \<noteq> Result 5"
    by (rule completedE [OF live_completed])
  from successful_pass_keeps_scale [OF kube_apply.server_side_apply_axioms live_service this,
      of sample_key 5 "[''horizontal-pod-autoscaler'']"]
  show ?thesis by (simp add: live_view)
qed





text \<open>C5. A pass that finds no Deployment for an admitted service and succeeds leaves one with the
  service's \<open>minReplicas\<close>, held by the second field manager, so that the operator's next apply does not
  reset it to one.\<close>

theorem new_deployment_starts_at_min:
  assumes "server_side_apply P view" and "Get_InferenceService P req w = (Inr svc, w1)"
    and "view w (svc_key svc) = None" and "policyViolation svc = []"
    and "pass_outcome P addr req w = (r, None)" and "r \<noteq> Result 5"
  shows "\<exists>own. view (pass_world P addr req w) (svc_key svc) = Some (MinReplicas (Autoscaling (Spec svc)), own) \<and>
    initialReplicasOwner \<in> set own \<and> FieldOwner \<notin> set own"
  using server_side_apply.pass_creates [OF assms] by (simp add: starts_with_def)

theorem new_deployment_starts_at_min_witness:
  "\<exists>own. replicas_view (pass_world kube sample_addr sample_key (holding sample)) sample_key = Some (2, own) \<and>
     initialReplicasOwner \<in> set own \<and> FieldOwner \<notin> set own"
proof -
  obtain r where out: "pass_outcome kube sample_addr sample_key (holding sample) = (r, None)" "r \<noteq> Result 5"
    by (rule completedE [OF sample_completed])
  have got: "Get_InferenceService kube sample_key (holding sample) = (Inr sample, holding sample)"
    using holding_fields(1) [of sample] by simp
  from new_deployment_starts_at_min [OF kube_apply.server_side_apply_axioms got _ _ out]
  show ?thesis by (simp add: sample_min)
qed

text \<open>C6. \<open>createDeployment\<close> is the one place replicas is written: an apply that carries a count is the
  initial one, under its own field manager and unforced, and the same pass had just been told that the
  Deployment does not exist.\<close>

theorem replicas_written_only_at_creation:
  assumes "Get_InferenceService P req w = (Inr svc, w1)"
    and "pass_calls P addr req w = pre @ CApply a m force r # post" and "carries_replicas a"
  shows "a = AC_Deployment (initialReplicas svc) \<and> m = initialReplicasOwner \<and> \<not> force \<and>
    (\<exists>e. CGetDeployment (svc_key svc) (Inl e) \<in> set pre \<and> IsNotFound e)"
  using pass_call [OF assms(1,2)] assms(3) by (auto simp: ok_apply_def seen_missing_def split: if_splits)

theorem replicas_written_only_at_creation_witness:
  "\<exists>pre post. pass_calls (fixed sample (Inl (NotFound []))) [] sample_key () =
       pre @ CApply (AC_Deployment (initialReplicas sample)) initialReplicasOwner False None # post \<and>
     (\<exists>e. CGetDeployment sample_key (Inl e) \<in> set pre \<and> IsNotFound e)"
proof -
  have "CApply (AC_Deployment (initialReplicas sample)) initialReplicasOwner False None
      \<in> set (pass_calls (fixed sample (Inl (NotFound []))) [] sample_key ())"
    unfolding creating_log by simp
  then obtain pre post where log: "pass_calls (fixed sample (Inl (NotFound []))) [] sample_key () =
      pre @ CApply (AC_Deployment (initialReplicas sample)) initialReplicasOwner False None # post"
    by (meson split_list)
  from replicas_written_only_at_creation [OF fixed_service log] log show ?thesis by auto
qed

section \<open>What a pass does to the cluster\<close>

text \<open>C7. A Deployment is applied only after the claim template it names: when the service claims a GPU,
  every apply of the Deployment in a pass comes after an accepted apply of the claim template.\<close>

theorem claim_template_before_deployment:
  assumes "Get_InferenceService P req w = (Inr svc, w1)"
    and "pass_calls P addr req w = pre @ CApply a m force r # post"
    and "fst (ac_key a) = KDeployment" and "DeviceClass (Spec svc) \<noteq> []"
  shows "CApply (AC_ResourceClaimTemplate (desiredClaimTemplate svc)) FieldOwner True None \<in> set pre"
  using pass_call [OF assms(1,2)] assms(3,4)
  by (auto simp: ok_apply_def template_ready_def claims_gpu_def)

theorem claim_template_before_deployment_witness:
  "\<exists>pre post. pass_calls (fixed sample (Inl (NotFound []))) [] sample_key () =
       pre @ CApply (AC_Deployment (desiredDeployment sample)) FieldOwner True None # post \<and>
     CApply (AC_ResourceClaimTemplate (desiredClaimTemplate sample)) FieldOwner True None \<in> set pre"
proof -
  have "CApply (AC_Deployment (desiredDeployment sample)) FieldOwner True None
      \<in> set (pass_calls (fixed sample (Inl (NotFound []))) [] sample_key ())"
    unfolding creating_log by simp
  then obtain pre post where log: "pass_calls (fixed sample (Inl (NotFound []))) [] sample_key () =
      pre @ CApply (AC_Deployment (desiredDeployment sample)) FieldOwner True None # post"
    by (meson split_list)
  from claim_template_before_deployment [OF fixed_service log] log show ?thesis by auto
qed

text \<open>C8. A pass deletes only what the service owns and no longer wants, of an admitted service: the claim
  template once no device class is set, the ScaledObject under Ollama, each after a read that showed
  the service as its controller; and the Deployment under the service's name, when a read showed that
  its selector is not the current one and that it is not being deleted already.\<close>

theorem deletes_only_unwanted:
  assumes "Get_InferenceService P req w = (Inr svc, w1)"
    and "pass_calls P addr req w = pre @ CDelete kind k p r # post"
  shows "policyViolation svc = [] \<and>
    (if kind = KDeployment
     then \<exists>d. CGetDeployment (svc_key svc) (Inr d) \<in> set pre \<and> k = (Namespace d, Name d) \<and>
            DeletionTimestamp d = None \<and> outdated_selector svc d
     else \<exists>obj n. CGetMeta kind (Namespace svc, n) (Inr obj) \<in> set pre \<and> k = (Namespace obj, Name obj) \<and>
            IsControlledBy P obj (svc_meta svc) \<and>
            (kind = KResourceClaimTemplate \<and> n = claimTemplateName svc \<and> DeviceClass (Spec svc) = [] \<or>
             kind = KUnstructured scaledObjectGVK \<and> n = Name svc \<and> Backend (Spec svc) = BackendOllama))"
  using pass_call [OF assms] by (simp add: ok_delete_def claims_gpu_def split: if_splits)

theorem deletes_only_unwanted_witness:
  "\<exists>pre post d. pass_calls (fixed sample (Inr old_deployment)) [] sample_key () =
       pre @ CDelete KDeployment (''ml'', ''chat'') PropagationBackground None # post \<and>
     CGetDeployment sample_key (Inr d) \<in> set pre \<and> outdated_selector sample d"
proof -
  have "CDelete KDeployment (''ml'', ''chat'') PropagationBackground None
      \<in> set (pass_calls (fixed sample (Inr old_deployment)) [] sample_key ())"
    unfolding recreating_log by simp
  then obtain pre post where log: "pass_calls (fixed sample (Inr old_deployment)) [] sample_key () =
      pre @ CDelete KDeployment (''ml'', ''chat'') PropagationBackground None # post"
    by (meson split_list)
  from deletes_only_unwanted [OF fixed_service log] log show ?thesis by auto
qed



text \<open>C10. A completed pass has applied every object the service wants, under the operator's field manager
  and with force; the only applies that may have failed are of the two add-on kinds, and only because
  the kind is not installed.\<close>

theorem completed_pass_applies_everything:
  assumes "Get_InferenceService P req w = (Inr svc, w1)" and "completed (pass_outcome P addr req w)"
    and "a \<in> set (desired_objects svc addr)"
  shows "CApply a FieldOwner True None \<in> set (pass_calls P addr req w) \<or>
    (\<exists>u e. a = AC_Unstructured u \<and> IsNoMatchError e \<and>
       CApply a FieldOwner True (Some e) \<in> set (pass_calls P addr req w))"
  using pass_completes [OF assms(1,2)] assms(3) by (auto simp: all_settled_def settled_def)

theorem completed_pass_applies_everything_witness:
  "CApply (AC_Service (desiredService sample)) FieldOwner True None
     \<in> set (pass_calls kube sample_addr sample_key live)"
  using completed_pass_applies_everything [OF live_service live_completed,
      of "AC_Service (desiredService sample)" sample_addr]
  by (simp add: desired_objects_def)





text \<open>C13. No error is lost: when a pass ends without error, every call it made succeeded, or failed in
  one of the ways the operator handles, a missing Deployment, an add-on kind that is not installed, an
  unwanted object that is already gone. Any other failure is the pass's result, and is retried.\<close>

theorem no_error_is_lost:
  assumes "Get_InferenceService P req w = (Inr svc, w1)" and "pass_outcome P addr req w = (r, None)"
    and "c \<in> set (pass_calls P addr req w)"
  shows "tolerated c"
  using pass_reports [OF assms(1,2)] assms(3) by (simp add: all_tolerated_def list_all_iff)

theorem no_error_is_lost_witness:
  "\<exists>r. pass_outcome kube sample_addr sample_key live = (r, None) \<and>
     list_all tolerated (pass_calls kube sample_addr sample_key live)"
proof -
  obtain r where out: "pass_outcome kube sample_addr sample_key live = (r, None)"
    by (rule completedE [OF live_completed])
  with no_error_is_lost [OF live_service out] show ?thesis by (auto simp: list_all_iff)
qed

section \<open>The reported status\<close>



text \<open>C15. A completed pass reports on the add-ons what it was told: the Autoscaling condition is KEDA's
  verdict on the ScaledObject it read, or that KEDA is not installed, or that Ollama is not scaled; the
  Routing condition says whether the InferencePool was accepted or its kind is missing; and the service
  is reported as admitted, at its endpoint.\<close>

theorem addon_conditions_tell_the_truth:
  assumes "condition_setter (SetStatusCondition P)" and "Get_InferenceService P req w = (Inr svc, w1)"
    and "completed (pass_outcome P addr req w)"
  shows "(\<exists>v. report (Conditions (pass_status P addr req w)) CondAutoscaling = Some v \<and>
      scaling_verdict P addr svc (pass_calls P addr req w) v) \<and>
    (\<exists>v. report (Conditions (pass_status P addr req w)) CondRouting = Some v \<and>
      routing_verdict svc (pass_calls P addr req w) v) \<and>
    report (Conditions (pass_status P addr req w)) CondAdmitted =
      Some (ConditionTrue, ''PolicySatisfied'', ''spec passes placement policy'') \<and>
    Endpoint (pass_status P addr req w) = endpoint svc"
  using status_reporting.pass_steady [OF status_reporting.intro [OF assms(1)] assms(2,3)]
  by (simp add: steady_status_def)

theorem addon_conditions_tell_the_truth_witness:
  "report (Conditions (pass_status kube sample_addr sample_key live)) CondAdmitted =
     Some (ConditionTrue, ''PolicySatisfied'', ''spec passes placement policy'') \<and>
   Endpoint (pass_status kube sample_addr sample_key live) = endpoint sample"
  using addon_conditions_tell_the_truth [OF kube.condition_setter_axioms live_service live_completed] by simp

text \<open>C16. A rejected service is told why: its phase is Rejected and its Admitted condition is False with
  the policy's message, the other conditions as they were.\<close>

theorem rejected_status:
  assumes "condition_setter (SetStatusCondition P)" and "Get_InferenceService P req w = (Inr svc, w1)"
    and "policyViolation svc \<noteq> []"
  shows "Phase (pass_status P addr req w) = ''Rejected'' \<and>
    report (Conditions (pass_status P addr req w)) = (report (Conditions (Status svc)))
      (CondAdmitted \<mapsto> (ConditionFalse, ''PolicyViolation'', policyViolation svc))"
  using status_reporting.pass_rejected [OF status_reporting.intro [OF assms(1)] assms(2,3)] by simp

theorem rejected_status_witness:
  "report (Conditions (pass_status kube sample_addr sample_key (holding restricted_sample))) CondAdmitted =
     Some (ConditionFalse, ''PolicyViolation'', ''Ollama backend is not approved for Restricted data'')"
proof -
  have got: "Get_InferenceService kube sample_key (holding restricted_sample) =
      (Inr restricted_sample, holding restricted_sample)"
    using holding_fields(1) [of restricted_sample] by simp
  from rejected_status [OF kube.condition_setter_axioms got, of sample_addr] show ?thesis
    by (simp add: restricted_rejected)
qed

text \<open>C17. The condition list stays a map keyed by type, as the CRD declares it: a pass on a status without
  duplicate types, ended in whatever way, leaves none.\<close>

theorem condition_types_stay_distinct:
  assumes "condition_setter (SetStatusCondition P)" and "Get_InferenceService P req w = (Inr svc, w1)"
    and "distinct (map cond_Type (Conditions (Status svc)))"
  shows "distinct (map cond_Type (Conditions (pass_status P addr req w)))"
  by (rule status_reporting.pass_distinct [OF status_reporting.intro [OF assms(1)] assms(2,3)])

theorem condition_types_stay_distinct_witness:
  "distinct (map cond_Type (Conditions (pass_status kube sample_addr sample_key live)))"
  by (rule condition_types_stay_distinct [OF kube.condition_setter_axioms live_service])
    (simp add: sample_def zero_status_def)

text \<open>C18. The status is written back at most once, at the end of the pass and only when it changed, on the
  object as it was read, with the generation the pass worked from.\<close>

theorem status_written_once:
  assumes "Get_InferenceService P req w = (Inr svc, w1)"
  shows "ObservedGeneration (pass_status P addr req w) = Generation svc \<and>
    (\<exists>log e. list_all not_update log \<and> pass_calls P addr req w = log @
       (if Semantic_DeepEqual P (Status svc) (pass_status P addr req w) then []
        else [CUpdateStatus (svc\<lparr>Status := pass_status P addr req w\<rparr>) e]))"
  by (rule pass_status_update [OF assms]) blast

theorem status_written_once_witness:
  "ObservedGeneration (pass_status kube sample_addr sample_key live) = 3"
  using status_written_once [OF live_service, of sample_addr] by auto

text \<open>C19. A Deployment whose selector is not the current one is deleted in the background, and nothing is
  applied in its place: the handler asks for another pass, which will find it gone.\<close>

theorem outdated_deployment_recreated:
  assumes "Get_Deployment P (svc_key svc) (world s) = (Inr d, w1)" and "DeletionTimestamp d = None"
    and "outdated_selector svc d"
  shows "wp (reconcileDeployment P svc) (\<lambda>(dep, requeue, err) t. \<exists>e. dep = None \<and> requeue \<and>
      err = IgnoreNotFound e \<and> calls t = calls s @ [CGetDeployment (svc_key svc) (Inr d),
        CDelete KDeployment (Namespace d, Name d) PropagationBackground e]) s"
  using assms by (simp add: reconcileDeployment_def client_ops wp_simps split: prod.split)

theorem outdated_deployment_recreated_witness:
  "wp (reconcileDeployment (fixed sample (Inr old_deployment)) sample) (\<lambda>(dep, requeue, err) t.
     requeue \<and> length (calls t) = 2) (start ())"
  using outdated_deployment_recreated [of "fixed sample (Inr old_deployment)" sample "start ()" old_deployment "()"]
  by (auto simp: fixed_def start_def elim!: wp_mono)

text \<open>C20. KEDA's verdict is the first entry of its conditions of type Ready whose status is True or False,
  with that entry's reason and message, wherever it stands and whatever malformed entries surround it;
  without one it is Unknown.\<close>

theorem keda_verdict:
  "scaledObjectReady P so =
    (case find decided (NestedSlice P (u_Object so) [''status'', ''conditions'']) of
       None \<Rightarrow> (ConditionUnknown, [], [])
     | Some c \<Rightarrow> (if json_field c ''status'' = Some (JStr ''True'') then ConditionTrue else ConditionFalse,
         json_string (json_field c ''reason''), json_string (json_field c ''message'')))"
  by (simp add: scaledObjectReady_def scan_ready_find keda_report_def split: option.split)

text \<open>C21. An unschedulable pod is reported before any failing container, the first of either kind in the
  order of the list; a pod list with neither is not trouble, whatever else its containers wait for.\<close>

theorem pod_trouble_priority:
  "pods_verdict pods =
    (case find unschedulable_condition (concat (map pod_Conditions pods)) of
       Some c \<Rightarrow> (''Unschedulable'', ''Unschedulable'', pc_Message c)
     | None \<Rightarrow> (case find failing_status (concat (map pod_ContainerStatuses pods)) of
         Some cs \<Rightarrow> (''Failing'', fst (failing_report cs), snd (failing_report cs))
       | None \<Rightarrow> ([], [], [])))"
  by (simp add: pods_verdict_def scan_unschedulable_find scan_failing_find split: option.split)

section \<open>The objects a service is made of\<close>

text \<open>C22. The GPU claim reaches the serving container: although the claim is added to the container after
  the pod took its copy of it, the pod's one container lists the claim exactly when a device class is
  set, the pod declares it, and it names the claim template that the pass applies, which asks for one
  device of that class, with the memory floor when there is one.\<close>

theorem gpu_claim_reaches_container:
  "map (\<lambda>c. rr_Claims (ct_Resources c)) (ps_Containers (pod_of (desiredDeployment svc))) =
     [if DeviceClass (Spec svc) = [] then [] else [''gpu'']] \<and>
   map (\<lambda>c. (prc_Name c, ac_Namespace (desiredDeployment svc), prc_ResourceClaimTemplateName c))
       (ps_ResourceClaims (pod_of (desiredDeployment svc))) =
     (if DeviceClass (Spec svc) = [] then []
      else [(''gpu'', snd (ac_key (AC_ResourceClaimTemplate (desiredClaimTemplate svc))))]) \<and>
   map (\<lambda>r. (dr_DeviceClassName (rq_Exactly r), dr_AllocationMode (rq_Exactly r), dr_Count (rq_Exactly r),
       dr_Selectors (rq_Exactly r))) (rct_Requests (desiredClaimTemplate svc)) =
     [(DeviceClass (Spec svc), ExactCount, 1,
       case MinDeviceMemory (Spec svc) of None \<Rightarrow> [] | Some m \<Rightarrow> [memory_selector m])]"
  by (simp add: pod_of_desired deref_container_def sent_requirements_def base_requirements_def
      claims_gpu_def desiredClaimTemplate_def Let_def split: option.split)

text \<open>C23. Every volume a container mounts is declared by its pod, none is declared twice or in vain.\<close>

theorem mounts_are_volumes:
  "map (\<lambda>c. map vm_Name (ct_VolumeMounts c)) (ps_Containers (pod_of (desiredDeployment svc))) =
     [map vol_Name (ps_Volumes (pod_of (desiredDeployment svc)))] \<and>
   distinct (map vol_Name (ps_Volumes (pod_of (desiredDeployment svc))))"
  using picked.deployed_container(1) [OF run_container_of, of "[sent_requirements svc]" svc]
  by (simp add: pod_of_desired extra_volumes_def dshmVolume_def)


text \<open>C25. The startup probe gives the weights the time the spec grants: its budget is more than
  \<open>weightLoadSeconds\<close> and at most one period more, and its computation does not overflow.\<close>

theorem startup_budget_covers_loading:
  assumes "0 \<le> sint (WeightLoadSeconds (Spec svc))"
  shows "sint (WeightLoadSeconds (Spec svc)) < sint (startupFailureThreshold svc) * sint startupPeriod \<and>
    sint (startupFailureThreshold svc) * sint startupPeriod \<le> sint (WeightLoadSeconds (Spec svc)) + 10"
proof -
  have "sint (startupFailureThreshold svc) = sint (WeightLoadSeconds (Spec svc)) div 10 + 1"
    by (rule sint_startupFailureThreshold [OF assms])
  then show ?thesis unfolding startupPeriod_10 by presburger
qed

theorem startup_budget_covers_loading_witness:
  "600 < sint (startupFailureThreshold sample) * sint startupPeriod"
  using startup_budget_covers_loading [of sample] by (simp add: sample_def sample_spec_def)

text \<open>C26. A selector picks the pods of its own service and no others, whatever backends and classifications
  the services have now or had when the selector was written.\<close>

theorem selector_exact:
  "selects (selectorLabels a) (podLabels b) \<longleftrightarrow> Name a = Name b"
  by (rule labels.selects_iff_name)



text \<open>C28. Two services never write the same object: objects wanted by two services have the same key only
  if the services have the same namespace and name.\<close>

theorem desired_objects_apart:
  assumes "a \<in> set (desired_objects svc addr)" and "b \<in> set (desired_objects svc' addr')"
    and "ac_key a = ac_key b"
  shows "svc_key svc = svc_key svc'"
proof -
  have keys: "\<exists>kind nm. ac_key x = (kind, Namespace s, nm) \<and>
      (if kind = KResourceClaimTemplate then nm = claimTemplateName s else nm = Name s)"
    if "x \<in> set (desired_objects s d)" for x s d
    using that unfolding desired_objects_def
    by (auto simp: template.key deployment.key service.key scaler.key pool.key split: if_splits
        simp del: ac_key.simps)
  from keys [OF assms(1)] keys [OF assms(2)] assms(3) show ?thesis
    by (auto simp: svc_key_def claimTemplateName_def split: if_splits)
qed

theorem desired_objects_apart_witness:
  "svc_key sample = svc_key (sample\<lparr>Status := zero_status\<rparr>)"
  by (rule desired_objects_apart [of "AC_Service (desiredService sample)" sample "[]"
        "AC_Service (desiredService (sample\<lparr>Status := zero_status\<rparr>))" _ "[]"])
    (simp_all add: desired_objects_def desiredService_def)

text \<open>C29. The autoscaler's queries read one service's metrics: each of the three queries of two services is
  the same only if the services have the same namespace and name, whatever characters these contain.\<close>

theorem queries_read_own_metrics:
  "(trigger_query (triggers a addr ! 0) = trigger_query (triggers b addr' ! 0) \<longleftrightarrow> svc_key a = svc_key b) \<and>
   (trigger_query (triggers a addr ! 1) = trigger_query (triggers b addr' ! 1) \<longleftrightarrow> svc_key a = svc_key b) \<and>
   (trigger_query (triggers a addr ! 2) = trigger_query (triggers b addr' ! 2) \<longleftrightarrow> svc_key a = svc_key b)"
  by (simp add: triggers_def Let_def queries_inj svc_key_def)

text \<open>C30. KEDA reads the thresholds the spec sets: the printed numbers, read back, are the queue depth, the
  KV cache usage in hundredths and the latency, for every value of the fields.\<close>

theorem thresholds_read_back:
  "read_int (trigger_threshold (triggers svc addr ! 0)) = sint (QueueDepthTarget (Autoscaling (Spec svc))) \<and>
   read_2f (trigger_threshold (triggers svc addr ! 1)) = sint (KVCacheUsagePercent (Autoscaling (Spec svc))) \<and>
   read_int (trigger_threshold (triggers svc addr ! 2)) = sint (TTFTP95Milliseconds (Autoscaling (Spec svc))) \<and>
   map trigger_metric_type (triggers svc addr) = [None, None, Some ''Value'']"
  by (simp add: triggers_def Let_def sprint32_def)

text \<open>C31. Scaling down waits for new replicas to load: the window and the period of the scale-down policy are
  the weight loading time, and never under five minutes. The Kubernetes autoscaler, which bounds a
  policy's period by 1800 seconds, accepts it exactly when the weights load within half an hour, and
  nothing bounds \<open>weightLoadSeconds\<close> from above.\<close>

theorem scale_down_policy_accepted_iff:
  "\<exists>p settle. scaled_spec svc addr [''advanced'', ''horizontalPodAutoscalerConfig'', ''behavior'', ''scaleDown''] = Some p \<and>
    p = scaling_policy settle settle \<and> sint settle = max 300 (sint (WeightLoadSeconds (Spec svc))) \<and>
    (hpa_policy_valid p \<longleftrightarrow> sint (WeightLoadSeconds (Spec svc)) \<le> 1800)"
  by (intro exI [of _ "scaling_policy (settle_seconds svc) (settle_seconds svc)"] exI [of _ "settle_seconds svc"])
    (auto simp: hpa_policy_valid_scaling sint_settle)

section \<open>Admission and policy\<close>

text \<open>C32. The operator's policy check agrees with the CRD's first three CEL rules on every spec within the
  schema: it accepts exactly when they hold, and otherwise its message is that of the first that fails.\<close>

theorem policy_repeats_cel:
  assumes "schema_spec (default_spec r)" and "Spec svc = decode_spec (default_spec r)"
  shows "policyViolation svc =
    (case map snd (filter (\<lambda>(ok, _). \<not> ok) (take 3 (cel_rules (default_spec r)))) of [] \<Rightarrow> [] | m # _ \<Rightarrow> m)"
  using policy_of_raw [OF assms] by simp

theorem policy_repeats_cel_witness:
  "policyViolation (sample\<lparr>Spec := decode_spec (default_spec raw_restricted)\<rparr>) =
     ''Ollama backend is not approved for Restricted data''"
  using policy_repeats_cel [of raw_restricted "sample\<lparr>Spec := decode_spec (default_spec raw_restricted)\<rparr>"]
  by (simp add: raw_defs admission_simps)

text \<open>C33. Whatever the API server admits, the operator accepts.\<close>

theorem admitted_specs_accepted:
  assumes "admit r = Some d" and "Spec svc = decode_spec d"
  shows "policyViolation svc = []"
  by (rule admitted_accepted [OF assms])

theorem admitted_specs_accepted_witness:
  "policyViolation (sample\<lparr>Spec := decode_spec (default_spec raw_sample)\<rparr>) = []"
  by (rule admitted_specs_accepted [of raw_sample "default_spec raw_sample"])
    (simp_all add: raw_sample_admitted)

text \<open>C34. The operator's check is weaker than admission: it does not repeat the last two CEL rules, so a spec
  that asks for device memory without a device class is turned away by the API server and accepted by
  the operator when the installed CRD does not have the rule.\<close>

theorem policy_weaker_than_admission:
  "\<exists>r svc. schema_spec (default_spec r) \<and> admit r = None \<and> Spec svc = decode_spec (default_spec r) \<and>
     policyViolation svc = []"
proof (intro exI conjI)
  let ?r = "raw_memory_only"
  show "schema_spec (default_spec ?r)"
    by (simp add: raw_defs admission_simps)
  show "admit ?r = None"
    by (simp add: raw_defs admit_def Let_def admission_simps)
  show "Spec (sample\<lparr>Spec := decode_spec (default_spec ?r)\<rparr>) = decode_spec (default_spec ?r)" by simp
  show "policyViolation (sample\<lparr>Spec := decode_spec (default_spec ?r)\<rparr>) = []"
    by (simp add: policy_accepts_iff decode_default_fields raw_defs api_consts)
qed

text \<open>C35. What the operator reads of an admitted service is within the bounds its arithmetic relies on: a
  model, at least one replica and no more at least than at most, a loading time of ten seconds or more,
  a memory share between 10 and 95 percent.\<close>

theorem admitted_spec_bounds:
  assumes "admit r = Some d" and "Spec svc = decode_spec d"
  shows "Model (Spec svc) \<noteq> [] \<and> 10 \<le> sint (WeightLoadSeconds (Spec svc)) \<and>
    1 \<le> sint (MinReplicas (Autoscaling (Spec svc))) \<and>
    sint (MinReplicas (Autoscaling (Spec svc))) \<le> sint (MaxReplicas (Autoscaling (Spec svc))) \<and>
    10 \<le> sint (GPUMemoryUtilization (Spec svc)) \<and> sint (GPUMemoryUtilization (Spec svc)) \<le> 95"
  using admitted_bounds [OF assms(1)] assms(2) by simp

theorem admitted_spec_bounds_witness:
  "10 \<le> sint (WeightLoadSeconds (decode_spec (default_spec raw_sample)))"
  using admitted_spec_bounds [OF raw_sample_admitted, of "sample\<lparr>Spec := decode_spec (default_spec raw_sample)\<rparr>"]
  by simp

section \<open>The process, its watches and the copies\<close>



text \<open>C37. The manager starts only after the controller is registered with every watch, and its health checks
  are in place; the process ends normally only if the manager ran and stopped without an error.\<close>

theorem manager_starts_registered:
  "(EStart \<in> set (snd (program E args)) \<longrightarrow>
     Builder_Complete E (watched (REST_Mapping E)) = None \<and>
     (\<exists>opts addr. snd (program E args) = [ENewManager opts, ESetup addr, EHealthz, EReadyz, EStart])) \<and>
   (fst (program E args) = Returned \<longleftrightarrow> EStart \<in> set (snd (program E args)) \<and> Manager_Start E = None)"
  by (auto elim!: start_event dest: returned_started split: if_splits)

theorem manager_starts_registered_witness:
  "EStart \<in> set (snd (program quiet_environment [])) \<and> fst (program quiet_environment []) = Returned"
  using manager_starts_registered [of quiet_environment "[]"] quiet_program [of "[]"] by simp



text \<open>C39. The copy of the status that \<open>Reconcile\<close> keeps to compare with is not affected by the pass: whatever
  is written through the original's condition slice, the copy still reads as the status did.\<close>

theorem status_copy_unaffected:
  assumes "status_refs h s \<subseteq> {..<length h}" and "Status_DeepCopy (Some s) h = (Some y, h')"
    and "\<And>a. length h \<le> a \<Longrightarrow> a < length h' \<Longrightarrow> h'' ! a = h' ! a"
  shows "load_status h'' y = load_status h s"
  using status.unaffected [OF assms(1), of y h' h''] assms(2,3)
  by (auto simp: Status_DeepCopy_def map_prod_def split: prod.splits)

theorem status_copy_unaffected_witness:
  "let s = \<lparr>r_ObservedGeneration = 1, r_ReadyReplicas = 0, r_Endpoint = [], r_Phase = [], r_Conditions = Some 0\<rparr>;
       h = [CConditions [zero_condition]]
   in case Status_DeepCopy (Some s) h of
        (Some y, h') \<Rightarrow> load_status (h'[0 := CConditions []]) y = load_status h s
      | _ \<Rightarrow> False"
proof -
  let ?s = "\<lparr>r_ObservedGeneration = 1, r_ReadyReplicas = 0, r_Endpoint = [], r_Phase = [], r_Conditions = Some 0\<rparr>"
    and ?h = "[CConditions [zero_condition]]"
  obtain y h' where run: "Status_DeepCopyInto ?s ?h = (y, h')" by fastforce
  have "load_status (h'[0 := CConditions []]) y = load_status ?h ?s"
    by (rule status_copy_unaffected [of ?h ?s y h'])
      (simp_all add: Status_DeepCopy_def run status_refs_def)
  then show ?thesis by (simp add: Let_def Status_DeepCopy_def run)
qed

text \<open>C40. The copy of a list of services reads the same as the list and shares no cell with anything that
  existed before: changing the original's services, their specs' memory or their conditions, or the
  list, leaves it as it is.\<close>

theorem list_copy_unaffected:
  assumes "\<And>m. copy_meta m = m" and "list_refs h l \<subseteq> {..<length h}"
    and "List_DeepCopyObject copy_meta (Some l) h = (Some (OInferenceServiceList y), h')"
    and "\<And>a. length h \<le> a \<Longrightarrow> a < length h' \<Longrightarrow> h'' ! a = h' ! a"
  shows "load_list h'' y = load_list h l"
  using deep_copier.unaffected [OF list_copier [OF assms(1)] assms(2), of y h' h''] assms(3,4)
  by (auto simp: List_DeepCopyObject_def List_DeepCopy_def map_prod_def split: prod.splits)

theorem list_copy_unaffected_witness:
  "let l = \<lparr>r_ListTypeMeta = ([], []), r_Items = Some 0\<rparr>; h = [CServices [zero_service]]
   in case List_DeepCopyObject (\<lambda>m. m) (Some l) h of
        (Some (OInferenceServiceList y), h') \<Rightarrow> load_list (h'[0 := CServices []]) y = load_list h l
      | _ \<Rightarrow> False"
proof -
  let ?l = "\<lparr>r_ListTypeMeta = ([], []), r_Items = Some 0\<rparr>" and ?h = "[CServices [zero_service]]"
  obtain y h' where run: "List_DeepCopyInto (\<lambda>m. m) ?l ?h = (y, h')" by fastforce
  have "service_refs ?h zero_service = {}" by (simp add: refs_defs zero_service_def)
  then have "load_list (h'[0 := CServices []]) y = load_list ?h ?l"
    by (intro list_copy_unaffected [of "\<lambda>m. m" ?h ?l y h'])
      (simp_all add: List_DeepCopyObject_def List_DeepCopy_def run list_refs_def services_at_def)
  then show ?thesis by (simp add: Let_def List_DeepCopyObject_def List_DeepCopy_def run)
qed

end
